(* ===== verification/Prelude.thy ===== *)
theory Prelude
  imports Main "HOL-Library.AList" "HOL-Library.Word"
begin

text \<open>Shared vocabulary of the development: instants and durations as the Go code uses them
  (\<^verbatim>\<open>time.Time\<close>, \<^verbatim>\<open>time.Duration\<close>), Go maps as association lists with distinct keys
  (the order of the list is one possible iteration order, so a theorem that holds for every such
  list holds for every iteration order), and the generic facts on lists and association lists the
  component theories share.\<close>

named_theorems wf_intro \<open>introduction rules of the well-formedness invariants\<close>
named_theorems go_map \<open>facts on Go maps as association lists\<close>

section \<open>Instants and durations\<close>

text \<open>An instant is its distance in nanoseconds from Go's zero time, so the zero time is 0 and
  \<^verbatim>\<open>IsZero\<close> is equality with 0. The monotonic clock reading is not modelled: every instant the code
  compares may run forwards or backwards. A duration is a signed number of nanoseconds.\<close>

type_synonym instant = int
type_synonym duration = int

abbreviation (input) is_zero_time :: "instant \<Rightarrow> bool" where
  "is_zero_time t \<equiv> t = 0"

definition max_duration :: int where
  "max_duration = 2 ^ 63 - 1"

definition min_duration :: int where
  "min_duration = - (2 ^ 63)"

text \<open>\<^verbatim>\<open>Time.Sub\<close> saturates at the range of an int64 duration.\<close>

definition time_sub :: "instant \<Rightarrow> instant \<Rightarrow> duration" where
  "time_sub t u = max min_duration (min max_duration (t - u))"

definition second :: duration where
  "second = 1000000000"

definition millisecond :: duration where
  "millisecond = 1000000"

definition minute :: duration where
  "minute = 60 * second"

lemma time_sub_gt_iff: "d < max_duration \<Longrightarrow> min_duration \<le> d \<Longrightarrow> d < time_sub t u \<longleftrightarrow> u + d < t"
  by (auto simp: time_sub_def max_duration_def min_duration_def)

lemma time_sub_pos [simp]: "0 < time_sub t u \<longleftrightarrow> u < t"
  by (auto simp: time_sub_def max_duration_def min_duration_def)

lemma time_sub_le: "0 \<le> t - u \<Longrightarrow> time_sub t u \<le> t - u"
  by (auto simp: time_sub_def max_duration_def min_duration_def)

section \<open>Go maps as association lists\<close>

text \<open>\<^verbatim>\<open>m[k] = v\<close> is \<^const>\<open>AList.update\<close>, \<^verbatim>\<open>delete(m, k)\<close> is \<^const>\<open>AList.delete\<close> and
  \<^verbatim>\<open>v, ok := m[k]\<close> is \<^const>\<open>map_of\<close>.\<close>

type_synonym ('k, 'v) gomap = "('k \<times> 'v) list"

abbreviation gomap_keys :: "('k, 'v) gomap \<Rightarrow> 'k list" where
  "gomap_keys m \<equiv> map fst m"

abbreviation gomap_wf :: "('k, 'v) gomap \<Rightarrow> bool" where
  "gomap_wf m \<equiv> distinct (gomap_keys m)"

lemma gomap_lookup_update [simp, go_map]:
  "map_of (AList.update k v m) = (map_of m)(k \<mapsto> v)"
  by (rule update_conv')

lemma gomap_lookup_delete [simp, go_map]:
  "map_of (AList.delete k m) = (map_of m)(k := None)"
  by (rule delete_conv')

lemma gomap_wf_update [simp, go_map]: "gomap_wf m \<Longrightarrow> gomap_wf (AList.update k v m)"
  by (rule distinct_update)

lemma gomap_wf_delete [simp, go_map]: "gomap_wf m \<Longrightarrow> gomap_wf (AList.delete k m)"
  by (rule distinct_delete)

lemma gomap_wf_filter [simp, go_map]: "gomap_wf m \<Longrightarrow> gomap_wf (filter P m)"
  by (induction m) auto

lemma length_update:
  "length (AList.update k v m) = (if k \<in> fst ` set m then length m else Suc (length m))"
  by (induction m) auto

lemma length_delete_less: "k \<in> fst ` set m \<Longrightarrow> length (AList.delete k m) < length m"
proof (induction m)
  case (Cons p m)
  have "length (AList.delete k m) \<le> length m" by (rule length_delete_le)
  with Cons show ?case by auto
qed simp

lemma length_delete_distinct:
  "gomap_wf m \<Longrightarrow> length (AList.delete k m) = (if k \<in> fst ` set m then length m - 1 else length m)"
proof (induction m)
  case (Cons p m)
  then have "fst p \<notin> fst ` set m" by simp
  then have "k = fst p \<Longrightarrow> AList.delete k m = m" by simp
  moreover have "k \<in> fst ` set m \<Longrightarrow> 0 < length m" by (cases m) auto
  ultimately show ?case using Cons by auto
qed simp

lemma delete_subset: "set (AList.delete k m) \<subseteq> set m"
  by (induction m) auto

lemma map_of_filter_wf:
  "gomap_wf m \<Longrightarrow>
   map_of (filter P m) k = (case map_of m k of None \<Rightarrow> None | Some v \<Rightarrow> if P (k, v) then Some v else None)"
  by (induction m) (auto split: option.splits simp: map_of_eq_None_iff image_iff)

lemma map_of_isSome_iff: "map_of m k \<noteq> None \<longleftrightarrow> k \<in> fst ` set m"
  by (metis map_of_eq_None_iff)

section \<open>Lists\<close>

lemma takeWhile_append_first:
  "takeWhile P (xs @ ys) = (if \<forall>x\<in>set xs. P x then xs @ takeWhile P ys else takeWhile P xs)"
  by (induction xs) auto

lemma find_None_iff_all: "List.find P xs = None \<longleftrightarrow> (\<forall>x\<in>set xs. \<not> P x)"
  by (auto simp: find_None_iff)

lemma find_NoneD: "List.find P xs = None \<Longrightarrow> \<forall>x\<in>set xs. \<not> P x"
  by (auto simp: find_None_iff)

lemma find_NoneI: "\<forall>x\<in>set xs. \<not> P x \<Longrightarrow> List.find P xs = None"
  by (auto simp: find_None_iff)

lemma find_SomeD: "List.find P xs = Some x \<Longrightarrow> x \<in> set xs \<and> P x"
  by (auto simp: find_Some_iff)

end
