(* ===== verification/CircuitBreaker.thy ===== *)
theory CircuitBreaker
  imports Prelude
begin

text \<open>The three-state circuit breaker. The domain entity is
  \<^verbatim>\<open>internal/domain/resilience/circuit_breaker.go\<close>; the adapter that emits events is
  \<^verbatim>\<open>internal/adapters/resilience/circuit_breaker.go\<close>; the reverse-proxy handler that drives it is
  \<^verbatim>\<open>internal/adapters/caddy/circuit_breaker_handler.go\<close>. Every method is a function from the
  state (and the clock reading it takes) to its results and the new state.\<close>

section \<open>The domain entity\<close>

datatype cb_state = StateClosed | StateOpen | StateHalfOpen

record CircuitBreakerConfig =
  cbc_Threshold :: int
  cbc_Timeout :: duration

record CircuitBreaker =
  cb_cfg :: CircuitBreakerConfig
  cb_st :: cb_state
  cb_failures :: int
  cb_openedAt :: instant

datatype cb_error = ThresholdNotPositive | TimeoutNotPositive

fun cb_state_String :: "cb_state \<Rightarrow> string" where
  "cb_state_String StateClosed = ''closed''"
| "cb_state_String StateOpen = ''open''"
| "cb_state_String StateHalfOpen = ''half_open''"

definition cb_Validate :: "CircuitBreakerConfig \<Rightarrow> cb_error option" where
  "cb_Validate c =
    (if cbc_Threshold c \<le> 0 then Some ThresholdNotPositive
     else if cbc_Timeout c \<le> 0 then Some TimeoutNotPositive
     else None)"

definition NewCircuitBreaker :: "CircuitBreakerConfig \<Rightarrow> cb_error + CircuitBreaker" where
  "NewCircuitBreaker c =
    (case cb_Validate c of
       Some e \<Rightarrow> Inl e
     | None \<Rightarrow> Inr \<lparr>cb_cfg = c, cb_st = StateClosed, cb_failures = 0, cb_openedAt = 0\<rparr>)"

definition cb_IsOpen :: "instant \<Rightarrow> CircuitBreaker \<Rightarrow> bool \<times> CircuitBreaker" where
  "cb_IsOpen now cb =
    (if cb_st cb = StateClosed then (False, cb)
     else if cb_st cb = StateHalfOpen then (True, cb)
     else if cb_openedAt cb + cbc_Timeout (cb_cfg cb) < now
     then (False, cb\<lparr>cb_st := StateHalfOpen\<rparr>)
     else (True, cb))"

definition cb_RecordSuccess :: "CircuitBreaker \<Rightarrow> cb_state \<times> CircuitBreaker" where
  "cb_RecordSuccess cb = (cb_st cb, cb\<lparr>cb_failures := 0, cb_st := StateClosed\<rparr>)"

definition cb_RecordFailure :: "instant \<Rightarrow> CircuitBreaker \<Rightarrow> (cb_state \<times> bool) \<times> CircuitBreaker" where
  "cb_RecordFailure now cb =
    (case cb_st cb of
       StateClosed \<Rightarrow>
         (let cb1 = cb\<lparr>cb_failures := cb_failures cb + 1\<rparr> in
          if cbc_Threshold (cb_cfg cb1) \<le> cb_failures cb1
          then ((cb_st cb, True), cb1\<lparr>cb_st := StateOpen, cb_openedAt := now\<rparr>)
          else ((cb_st cb, False), cb1))
     | StateHalfOpen \<Rightarrow> ((cb_st cb, True), cb\<lparr>cb_st := StateOpen, cb_openedAt := now\<rparr>)
     | StateOpen \<Rightarrow> ((cb_st cb, False), cb))"

lemmas cb_ops_defs = cb_IsOpen_def cb_RecordSuccess_def cb_RecordFailure_def Let_def

text \<open>A history is the sequence of calls the breaker receives, each with the clock reading it
  takes, in the order the mutex of the adapter serialises them.\<close>

datatype cb_call = CallIsOpen instant | CallSuccess | CallFailure instant

fun cb_step :: "cb_call \<Rightarrow> CircuitBreaker \<Rightarrow> CircuitBreaker" where
  "cb_step (CallIsOpen t) cb = snd (cb_IsOpen t cb)"
| "cb_step CallSuccess cb = snd (cb_RecordSuccess cb)"
| "cb_step (CallFailure t) cb = snd (cb_RecordFailure t cb)"

fun cb_run :: "cb_call list \<Rightarrow> CircuitBreaker \<Rightarrow> CircuitBreaker" where
  "cb_run [] cb = cb"
| "cb_run (c # cs) cb = cb_run cs (cb_step c cb)"

lemma cb_run_append [simp]: "cb_run (xs @ ys) cb = cb_run ys (cb_run xs cb)"
  by (induction xs arbitrary: cb) auto

lemma cb_step_cfg [simp]: "cb_cfg (cb_step c cb) = cb_cfg cb"
  by (cases c) (auto simp: cb_ops_defs split: cb_state.splits)

lemma cb_run_cfg [simp]: "cb_cfg (cb_run cs cb) = cb_cfg cb"
  by (induction cs arbitrary: cb) auto

subsection \<open>Invariant\<close>

text \<open>The configuration is valid, the failure count is between 0 and the threshold, and below the
  threshold while the circuit is closed (so the Go \<^verbatim>\<open>int\<close> counter never wraps).\<close>

definition cb_wf :: "CircuitBreaker \<Rightarrow> bool" where
  "cb_wf cb \<longleftrightarrow>
    cb_Validate (cb_cfg cb) = None \<and> 0 \<le> cb_failures cb \<and>
    (if cb_st cb = StateClosed then cb_failures cb < cbc_Threshold (cb_cfg cb)
     else cb_failures cb = cbc_Threshold (cb_cfg cb))"

lemma cb_Validate_None: "cb_Validate c = None \<longleftrightarrow> 0 < cbc_Threshold c \<and> 0 < cbc_Timeout c"
  by (auto simp: cb_Validate_def)

lemma cb_wf_new [wf_intro]: "NewCircuitBreaker c = Inr cb \<Longrightarrow> cb_wf cb"
  by (auto simp: NewCircuitBreaker_def cb_wf_def cb_Validate_None split: option.splits)

lemma cb_wf_step [wf_intro]: "cb_wf cb \<Longrightarrow> cb_wf (cb_step c cb)"
  by (cases c; cases "cb_st cb") (auto simp: cb_ops_defs cb_wf_def cb_Validate_None)

lemma cb_wf_run [wf_intro]: "cb_wf cb \<Longrightarrow> cb_wf (cb_run cs cb)"
  by (induction cs arbitrary: cb) (auto intro: cb_wf_step)

subsection \<open>Failure streaks\<close>

text \<open>\<open>max_streak n cs\<close> is the longest run of failures in \<open>cs\<close> with no success in between, when \<open>n\<close>
  failures came just before. It does not mention the breaker.\<close>

fun max_streak :: "int \<Rightarrow> cb_call list \<Rightarrow> int" where
  "max_streak n [] = n"
| "max_streak n (CallIsOpen t # cs) = max_streak n cs"
| "max_streak n (CallSuccess # cs) = max n (max_streak 0 cs)"
| "max_streak n (CallFailure t # cs) = max_streak (n + 1) cs"

lemma max_streak_ge: "n \<le> max_streak n cs"
  by (induction n cs rule: max_streak.induct) auto

lemma closed_run_iff:
  assumes "cb_st cb = StateClosed" "cb_failures cb < cbc_Threshold (cb_cfg cb)" "0 < cbc_Threshold (cb_cfg cb)"
  shows "(\<forall>n. cb_st (cb_run (take n cs) cb) = StateClosed) \<longleftrightarrow>
         max_streak (cb_failures cb) cs < cbc_Threshold (cb_cfg cb)"
  using assms
proof (induction cs arbitrary: cb)
  case Nil
  then show ?case by simp
next
  case (Cons c cs)
  have split: "(\<forall>n. cb_st (cb_run (take n (c # cs)) cb) = StateClosed) \<longleftrightarrow>
      (\<forall>n. cb_st (cb_run (take n cs) (cb_step c cb)) = StateClosed)"
    using Cons.prems by (auto simp: take_Cons split: nat.splits)
  show ?case
  proof (cases c)
    case (CallIsOpen t)
    with Cons split show ?thesis by (simp add: cb_ops_defs)
  next
    case CallSuccess
    with Cons split show ?thesis by (simp add: cb_ops_defs)
  next
    case (CallFailure t)
    show ?thesis
    proof (cases "cb_failures cb + 1 < cbc_Threshold (cb_cfg cb)")
      case True
      with CallFailure Cons split show ?thesis by (simp add: cb_ops_defs)
    next
      case False
      then have "cb_st (cb_step c cb) = StateOpen"
        using CallFailure Cons.prems by (simp add: cb_ops_defs)
      then have "\<not> (\<forall>n. cb_st (cb_run (take n cs) (cb_step c cb)) = StateClosed)"
        by (metis cb_run.simps(1) cb_state.distinct(1) take0)
      moreover have "\<not> max_streak (cb_failures cb + 1) cs < cbc_Threshold (cb_cfg cb)"
        using False max_streak_ge [of "cb_failures cb + 1" cs] by linarith
      ultimately show ?thesis using CallFailure split by simp
    qed
  qed
qed

subsection \<open>Probes\<close>

fun cb_answers :: "instant list \<Rightarrow> CircuitBreaker \<Rightarrow> bool list" where
  "cb_answers [] cb = []"
| "cb_answers (t # ts) cb = (let (b, cb') = cb_IsOpen t cb in b # cb_answers ts cb')"

definition cb_deadline :: "CircuitBreaker \<Rightarrow> instant" where
  "cb_deadline cb = cb_openedAt cb + cbc_Timeout (cb_cfg cb)"

lemma cb_answers_half_open: "cb_st cb = StateHalfOpen \<Longrightarrow> cb_answers ts cb = map (\<lambda>_. True) ts"
  by (induction ts) (auto simp: cb_IsOpen_def)

lemma cb_answers_open:
  "cb_st cb = StateOpen \<Longrightarrow>
   cb_answers ts cb =
     (map (\<lambda>_. True) ts)[length (takeWhile (\<lambda>t. t \<le> cb_deadline cb) ts) := False]"
  by (induction ts) (auto simp: cb_IsOpen_def cb_deadline_def cb_answers_half_open)

section \<open>The in-memory adapter\<close>

text \<open>The adapter holds the entity behind a mutex, so each method is one atomic step. The event
  logger, the audit logger and the metrics collector are optional; what they receive is the trace
  \<open>im_out\<close>, in the order of the calls. \<^verbatim>\<open>Timeout.Seconds()\<close> is kept as the duration. A sink that
  fails is logged and ignored by the code, so it changes nothing here.\<close>

datatype cb_emission =
    EventOpened int duration | EventHalfOpen duration | EventClosed
  | AuditOpened int duration | AuditHalfOpen duration | AuditClosed
  | MetricState cb_state

record InMemoryCircuitBreaker =
  im_cb :: CircuitBreaker
  im_events :: bool
  im_audit :: bool
  im_metrics :: bool
  im_out :: "cb_emission list"

definition NewInMemoryCircuitBreaker ::
    "CircuitBreakerConfig \<Rightarrow> bool \<Rightarrow> bool \<Rightarrow> cb_error + InMemoryCircuitBreaker" where
  "NewInMemoryCircuitBreaker c events metrics =
    (case NewCircuitBreaker c of
       Inl e \<Rightarrow> Inl e
     | Inr cb \<Rightarrow> Inr \<lparr>im_cb = cb, im_events = events, im_audit = False, im_metrics = metrics, im_out = []\<rparr>)"

definition WithAuditLogger :: "bool \<Rightarrow> InMemoryCircuitBreaker \<Rightarrow> InMemoryCircuitBreaker" where
  "WithAuditLogger present a = a\<lparr>im_audit := present\<rparr>"

definition im_emitEvent :: "cb_emission \<Rightarrow> InMemoryCircuitBreaker \<Rightarrow> InMemoryCircuitBreaker" where
  "im_emitEvent e a = (if im_events a then a\<lparr>im_out := im_out a @ [e]\<rparr> else a)"

definition im_emitAuditEvent :: "cb_emission \<Rightarrow> InMemoryCircuitBreaker \<Rightarrow> InMemoryCircuitBreaker" where
  "im_emitAuditEvent e a = (if im_audit a then a\<lparr>im_out := im_out a @ [e]\<rparr> else a)"

definition im_recordStateMetric :: "InMemoryCircuitBreaker \<Rightarrow> InMemoryCircuitBreaker" where
  "im_recordStateMetric a =
    (if im_metrics a then a\<lparr>im_out := im_out a @ [MetricState (cb_st (im_cb a))]\<rparr> else a)"

definition im_IsOpen :: "instant \<Rightarrow> InMemoryCircuitBreaker \<Rightarrow> bool \<times> InMemoryCircuitBreaker" where
  "im_IsOpen now a =
    (let prev = cb_st (im_cb a);
         (isopen, cb') = cb_IsOpen now (im_cb a);
         a1 = a\<lparr>im_cb := cb'\<rparr>;
         timeout = cbc_Timeout (cb_cfg cb') in
     (isopen,
      if prev = StateOpen \<and> cb_st cb' = StateHalfOpen
      then im_recordStateMetric (im_emitAuditEvent (AuditHalfOpen timeout)
             (im_emitEvent (EventHalfOpen timeout) a1))
      else a1))"

definition im_RecordSuccess :: "InMemoryCircuitBreaker \<Rightarrow> InMemoryCircuitBreaker" where
  "im_RecordSuccess a =
    (let (previous, cb') = cb_RecordSuccess (im_cb a);
         a1 = a\<lparr>im_cb := cb'\<rparr> in
     if previous = StateHalfOpen
     then im_recordStateMetric (im_emitAuditEvent AuditClosed (im_emitEvent EventClosed a1))
     else a1)"

definition im_RecordFailure :: "instant \<Rightarrow> InMemoryCircuitBreaker \<Rightarrow> InMemoryCircuitBreaker" where
  "im_RecordFailure now a =
    (let ((_, transitioned), cb') = cb_RecordFailure now (im_cb a);
         a1 = a\<lparr>im_cb := cb'\<rparr>;
         th = cbc_Threshold (cb_cfg cb');
         timeout = cbc_Timeout (cb_cfg cb') in
     if transitioned \<and> cb_st cb' = StateOpen
     then im_recordStateMetric (im_emitAuditEvent (AuditOpened th timeout)
            (im_emitEvent (EventOpened th timeout) a1))
     else a1)"

lemmas im_emit_defs = im_emitEvent_def im_emitAuditEvent_def im_recordStateMetric_def

fun im_step :: "cb_call \<Rightarrow> InMemoryCircuitBreaker \<Rightarrow> InMemoryCircuitBreaker" where
  "im_step (CallIsOpen t) a = snd (im_IsOpen t a)"
| "im_step CallSuccess a = im_RecordSuccess a"
| "im_step (CallFailure t) a = im_RecordFailure t a"

text \<open>What a change of state should announce: nothing when the state stays, one event, one audit
  event and one gauge update otherwise, except that leaving Open for Closed announces nothing.\<close>

fun cb_announcement :: "CircuitBreakerConfig \<Rightarrow> cb_state \<Rightarrow> cb_state \<Rightarrow> (cb_emission \<times> cb_emission) option" where
  "cb_announcement c StateOpen StateHalfOpen =
     Some (EventHalfOpen (cbc_Timeout c), AuditHalfOpen (cbc_Timeout c))"
| "cb_announcement c StateHalfOpen StateClosed = Some (EventClosed, AuditClosed)"
| "cb_announcement c StateClosed StateOpen =
     Some (EventOpened (cbc_Threshold c) (cbc_Timeout c), AuditOpened (cbc_Threshold c) (cbc_Timeout c))"
| "cb_announcement c StateHalfOpen StateOpen =
     Some (EventOpened (cbc_Threshold c) (cbc_Timeout c), AuditOpened (cbc_Threshold c) (cbc_Timeout c))"
| "cb_announcement c _ _ = None"

definition im_announced :: "InMemoryCircuitBreaker \<Rightarrow> cb_state \<Rightarrow> cb_emission list" where
  "im_announced a new =
    (case cb_announcement (cb_cfg (im_cb a)) (cb_st (im_cb a)) new of
       None \<Rightarrow> []
     | Some (ev, au) \<Rightarrow>
         (if im_events a then [ev] else []) @ (if im_audit a then [au] else []) @
         (if im_metrics a then [MetricState new] else []))"

lemma im_step_cb [simp]: "im_cb (im_step c a) = cb_step c (im_cb a)"
  by (cases c) (auto simp: im_IsOpen_def im_RecordSuccess_def im_RecordFailure_def im_emit_defs
      Let_def split: prod.splits)

lemma im_step_sinks [simp]:
  "im_events (im_step c a) = im_events a"
  "im_audit (im_step c a) = im_audit a"
  "im_metrics (im_step c a) = im_metrics a"
  by (cases c; auto simp: im_IsOpen_def im_RecordSuccess_def im_RecordFailure_def im_emit_defs
      Let_def split: prod.splits)+

lemma im_step_out:
  "im_out (im_step c a) = im_out a @ im_announced a (cb_st (im_cb (im_step c a)))"
  by (cases c; cases "cb_st (im_cb a)")
     (auto simp: im_IsOpen_def im_RecordSuccess_def im_RecordFailure_def im_emit_defs
        im_announced_def cb_ops_defs split: prod.splits if_splits)

section \<open>The reverse-proxy handler\<close>

text \<open>\<^verbatim>\<open>CircuitBreakerHandler\<close> calls its breaker through the port, so the handler is stated over the
  three operations of the port. What the rest of the handler chain does with an admitted request is
  its outcome: it returns, with or without an error and having written some status (0 when it wrote
  none), or it panics, which unwinds past the recording calls.\<close>

datatype next_outcome = NextReturns bool int | NextPanics

definition isUpstreamFailureStatus :: "int \<Rightarrow> bool" where
  "isUpstreamFailureStatus st \<longleftrightarrow> st \<in> {502, 503, 504}"

datatype served = ServedCircuitOpen | ServedNext next_outcome

definition cbh_classify :: "('s \<Rightarrow> 's) \<Rightarrow> ('s \<Rightarrow> 's) \<Rightarrow> next_outcome \<Rightarrow> 's \<Rightarrow> 's" where
  "cbh_classify record_success record_failure out s =
    (case out of
       NextReturns err st \<Rightarrow>
         if err \<or> isUpstreamFailureStatus st then record_failure s else record_success s
     | NextPanics \<Rightarrow> s)"

definition cbh_ServeHTTP ::
    "(instant \<Rightarrow> 's \<Rightarrow> bool \<times> 's) \<Rightarrow> ('s \<Rightarrow> 's) \<Rightarrow> (instant \<Rightarrow> 's \<Rightarrow> 's) \<Rightarrow>
     instant \<Rightarrow> instant \<Rightarrow> next_outcome \<Rightarrow> 's \<Rightarrow> served \<times> 's" where
  "cbh_ServeHTTP is_open record_success record_failure t t' out s =
    (let (isopen, s1) = is_open t s in
     if isopen then (ServedCircuitOpen, s1)
     else (ServedNext out, cbh_classify record_success (record_failure t') out s1))"

text \<open>Concurrent requests interleave between the admission and the classification of each one. The
  second component counts the requests inside \<^verbatim>\<open>next.ServeHTTP\<close>.\<close>

inductive cbh_step ::
    "(instant \<Rightarrow> 's \<Rightarrow> bool \<times> 's) \<Rightarrow> ('s \<Rightarrow> 's) \<Rightarrow> (instant \<Rightarrow> 's \<Rightarrow> 's) \<Rightarrow> 's \<times> nat \<Rightarrow> 's \<times> nat \<Rightarrow> bool"
  for is_open record_success record_failure where
  Reject: "is_open t s = (True, s') \<Longrightarrow> cbh_step is_open record_success record_failure (s, n) (s', n)"
| Admit: "is_open t s = (False, s') \<Longrightarrow> cbh_step is_open record_success record_failure (s, n) (s', Suc n)"
| Complete: "cbh_step is_open record_success record_failure (s, Suc n)
     (cbh_classify record_success (record_failure t) (NextReturns err st) s, n)"

inductive_cases cbh_stepE: "cbh_step is_open record_success record_failure c c'"

text \<open>What the handler needs of a breaker: a set of probing states in which every request is
  rejected, which recording any outcome leaves, and which only an admission enters.\<close>

locale breaker_port =
  fixes is_open :: "instant \<Rightarrow> 's \<Rightarrow> bool \<times> 's"
    and record_success :: "'s \<Rightarrow> 's"
    and record_failure :: "instant \<Rightarrow> 's \<Rightarrow> 's"
    and probing :: "'s \<Rightarrow> bool"
  assumes probing_rejects: "probing s \<Longrightarrow> is_open t s = (True, s)"
    and reject_keeps: "is_open t s = (True, s') \<Longrightarrow> s' = s"
    and success_ends_probe: "\<not> probing (record_success s)"
    and failure_ends_probe: "\<not> probing (record_failure t s)"
begin

lemma classify_ends_probe:
  "\<not> probing (cbh_classify record_success (record_failure t) (NextReturns err st) s)"
  by (simp add: cbh_classify_def success_ends_probe failure_ends_probe)

lemma probe_in_flight_step:
  assumes "cbh_step is_open record_success record_failure (s, n) (s', n')"
    and "probing s \<longrightarrow> 0 < n"
  shows "probing s' \<longrightarrow> 0 < n'"
  using assms by (cases rule: cbh_stepE) (auto dest: reject_keeps simp: classify_ends_probe)

lemma probe_in_flight:
  assumes "(cbh_step is_open record_success record_failure)\<^sup>*\<^sup>* (s, n) (s', n')"
    and "probing s \<longrightarrow> 0 < n"
  shows "probing s' \<longrightarrow> 0 < n'"
  using assms
  by (induction "(s', n')" arbitrary: s' n' rule: rtranclp_induct)
     (auto dest: probe_in_flight_step)

lemma probing_blocks_all:
  "probing s \<Longrightarrow> fst (cbh_ServeHTTP is_open record_success record_failure t t' out s) = ServedCircuitOpen"
  by (simp add: cbh_ServeHTTP_def probing_rejects)

end

interpretation im_port: breaker_port im_IsOpen im_RecordSuccess im_RecordFailure
    "\<lambda>a. cb_st (im_cb a) = StateHalfOpen"
  by unfold_locales
     (auto simp: im_IsOpen_def im_RecordSuccess_def im_RecordFailure_def im_emit_defs cb_ops_defs
        split: prod.splits if_splits cb_state.splits)

section \<open>Properties\<close>

text \<open>C1: A fresh breaker stays closed through a whole history of calls exactly when the history has
  no run of \<^verbatim>\<open>Threshold\<close> consecutive failures (with no success in between): it trips at the
  threshold, neither earlier nor later, whatever probing calls are interleaved.\<close>

theorem breaker_closed_iff_streak_below_threshold:
  assumes "NewCircuitBreaker c = Inr cb"
  shows "(\<forall>n. cb_st (cb_run (take n cs) cb) = StateClosed) \<longleftrightarrow> max_streak 0 cs < cbc_Threshold c"
  using closed_run_iff [of cb cs] assms
  by (auto simp: NewCircuitBreaker_def cb_Validate_None split: option.splits)

theorem breaker_closed_iff_streak_below_threshold_witness:
  "let cb = projr (NewCircuitBreaker \<lparr>cbc_Threshold = 2, cbc_Timeout = 5\<rparr>) in
   \<not> (\<forall>n. cb_st (cb_run (take n [CallFailure 1, CallIsOpen 2, CallFailure 3]) cb) = StateClosed)"
  using breaker_closed_iff_streak_below_threshold
    [of "\<lparr>cbc_Threshold = 2, cbc_Timeout = 5\<rparr>"
        "projr (NewCircuitBreaker \<lparr>cbc_Threshold = 2, cbc_Timeout = 5\<rparr>)"
        "[CallFailure 1, CallIsOpen 2, CallFailure 3]"]
  by (simp add: NewCircuitBreaker_def cb_Validate_def)

text \<open>Once the circuit is open, any sequence of requests that ask for admission, at any clock
  readings, is rejected except for exactly one: the first to arrive after the deadline. It gets the
  probe slot, and every later one is rejected until an outcome is recorded.\<close>

theorem breaker_single_probe:
  assumes "cb_st cb = StateOpen"
  shows "cb_answers ts cb =
    (map (\<lambda>_. True) ts)[length (takeWhile (\<lambda>t. t \<le> cb_openedAt cb + cbc_Timeout (cb_cfg cb)) ts) := False]"
  using cb_answers_open [OF assms, of ts] by (simp add: cb_deadline_def)

theorem breaker_single_probe_witness:
  "cb_answers [10, 16, 17, 15]
     \<lparr>cb_cfg = \<lparr>cbc_Threshold = 1, cbc_Timeout = 5\<rparr>, cb_st = StateOpen, cb_failures = 1, cb_openedAt = 10\<rparr>
   = [True, False, True, True]"
  using breaker_single_probe
    [of "\<lparr>cb_cfg = \<lparr>cbc_Threshold = 1, cbc_Timeout = 5\<rparr>, cb_st = StateOpen, cb_failures = 1, cb_openedAt = 10\<rparr>"
        "[10, 16, 17, 15]"]
  by simp



text \<open>Each call to the adapter appends to the event log, the audit log and the gauge exactly
  what the change of state announces, in that order and only to the sinks that are configured; a
  late success that closes an open circuit announces nothing.\<close>

theorem breaker_adapter_announces_transitions:
  "im_out (im_step c a) = im_out a @ im_announced a (cb_st (im_cb (im_step c a)))"
  by (rule im_step_out)

end
