(* ===== verification/Lockout.thy ===== *)
theory Lockout
  imports Prelude
begin

text \<open>The throttle on repeated authentication failures. The per-key state machine is
  \<^verbatim>\<open>internal/domain/authguard/lockout.go\<close>; the bounded table of keys that implements the port is
  \<^verbatim>\<open>internal/adapters/authguard/memory_guard.go\<close>. The guard's methods run under one mutex, so each
  is one atomic function of the table and of the clock reading it takes.\<close>

section \<open>The per-key entity\<close>

record LockoutPolicy =
  lp_Threshold :: int
  lp_Window :: duration
  lp_Cooldown :: duration

datatype policy_error = BadThreshold | BadWindow | BadCooldown

definition DefaultPolicy :: LockoutPolicy where
  "DefaultPolicy = \<lparr>lp_Threshold = 10, lp_Window = minute, lp_Cooldown = minute\<rparr>"

definition lp_Validate :: "LockoutPolicy \<Rightarrow> policy_error option" where
  "lp_Validate p =
    (if lp_Threshold p \<le> 0 then Some BadThreshold
     else if lp_Window p \<le> 0 then Some BadWindow
     else if lp_Cooldown p \<le> 0 then Some BadCooldown
     else None)"

record Attempts =
  at_failures :: int
  at_windowStart :: instant
  at_lockedUntil :: instant

definition at_zero :: Attempts where
  "at_zero = \<lparr>at_failures = 0, at_windowStart = 0, at_lockedUntil = 0\<rparr>"

definition at_Reset :: "Attempts \<Rightarrow> Attempts" where
  "at_Reset a = a\<lparr>at_failures := 0, at_windowStart := 0, at_lockedUntil := 0\<rparr>"

definition at_LockedOut :: "instant \<Rightarrow> Attempts \<Rightarrow> (bool \<times> duration) \<times> Attempts" where
  "at_LockedOut now a =
    (if is_zero_time (at_lockedUntil a) then ((False, 0), a)
     else if \<not> now < at_lockedUntil a then ((False, 0), at_Reset a)
     else ((True, time_sub (at_lockedUntil a) now), a))"

definition at_RecordFailure :: "instant \<Rightarrow> LockoutPolicy \<Rightarrow> Attempts \<Rightarrow> bool \<times> Attempts" where
  "at_RecordFailure now p a =
    (let ((locked, _), a1) = at_LockedOut now a in
     if locked then (False, a1)
     else
       let a2 = (if at_failures a1 = 0 \<or> lp_Window p < time_sub now (at_windowStart a1)
                 then a1\<lparr>at_failures := 1, at_windowStart := now\<rparr>
                 else a1\<lparr>at_failures := at_failures a1 + 1\<rparr>) in
       if lp_Threshold p \<le> at_failures a2
       then (True, a2\<lparr>at_lockedUntil := now + lp_Cooldown p\<rparr>)
       else (False, a2))"

definition at_Idle :: "instant \<Rightarrow> LockoutPolicy \<Rightarrow> Attempts \<Rightarrow> bool" where
  "at_Idle now p a =
    (if \<not> is_zero_time (at_lockedUntil a) \<and> now < at_lockedUntil a then False
     else if at_failures a = 0 then True
     else lp_Window p < time_sub now (at_windowStart a))"

lemmas at_ops_defs = at_LockedOut_def at_RecordFailure_def at_Reset_def at_zero_def Let_def

lemma at_Reset_zero [simp]: "at_Reset a = at_zero"
  by (simp add: at_ops_defs)

lemma lp_Validate_None:
  "lp_Validate p = None \<longleftrightarrow> 0 < lp_Threshold p \<and> 0 < lp_Window p \<and> 0 < lp_Cooldown p"
  by (auto simp: lp_Validate_def)

text \<open>Calls on one key, each with the clock reading it takes.\<close>

datatype at_call = AtQuery instant | AtFail instant | AtSucceed

fun at_step :: "LockoutPolicy \<Rightarrow> at_call \<Rightarrow> Attempts \<Rightarrow> Attempts" where
  "at_step p (AtQuery t) a = snd (at_LockedOut t a)"
| "at_step p (AtFail t) a = snd (at_RecordFailure t p a)"
| "at_step p AtSucceed a = at_Reset a"

fun at_run :: "LockoutPolicy \<Rightarrow> at_call list \<Rightarrow> Attempts \<Rightarrow> Attempts" where
  "at_run p [] a = a"
| "at_run p (c # cs) a = at_run p cs (at_step p c a)"

fun is_failure_call :: "at_call \<Rightarrow> bool" where
  "is_failure_call (AtFail t) = True"
| "is_failure_call _ = False"

text \<open>A call releases a lockout that lasts until \<open>d\<close> when it reads the clock at \<open>d\<close> or later, or
  when it records a success.\<close>

fun releases :: "instant \<Rightarrow> at_call \<Rightarrow> bool" where
  "releases d (AtQuery t) = (d \<le> t)"
| "releases d (AtFail t) = (d \<le> t)"
| "releases d AtSucceed = True"

text \<open>Invariant: a live streak is below the threshold unless it has armed a lockout.\<close>

definition at_wf :: "LockoutPolicy \<Rightarrow> Attempts \<Rightarrow> bool" where
  "at_wf p a \<longleftrightarrow> 0 \<le> at_failures a \<and>
    (if is_zero_time (at_lockedUntil a) then at_failures a < lp_Threshold p
     else at_failures a = lp_Threshold p)"

lemma at_wf_zero [wf_intro]: "lp_Validate p = None \<Longrightarrow> at_wf p at_zero"
  by (simp add: at_wf_def at_zero_def lp_Validate_None)

lemma at_wf_LockedOut [wf_intro]:
  "at_wf p a \<Longrightarrow> lp_Validate p = None \<Longrightarrow> at_wf p (snd (at_LockedOut t a))"
  by (simp add: at_LockedOut_def at_wf_zero)

lemma at_LockedOut_unlocked:
  "fst (at_LockedOut t a) = (False, r) \<Longrightarrow> at_lockedUntil (snd (at_LockedOut t a)) = 0"
  by (auto simp: at_ops_defs split: if_splits)

lemma at_RecordFailure_cases:
  obtains (locked) r where "at_LockedOut t a = ((True, r), a)" "at_RecordFailure t p a = (False, a)"
  | (counted) a1 a2 where "at_LockedOut t a = ((False, 0), a1)" "at_lockedUntil a1 = 0"
      "a2 = (if at_failures a1 = 0 \<or> lp_Window p < time_sub t (at_windowStart a1)
             then a1\<lparr>at_failures := 1, at_windowStart := t\<rparr>
             else a1\<lparr>at_failures := at_failures a1 + 1\<rparr>)"
      "at_RecordFailure t p a =
         (if lp_Threshold p \<le> at_failures a2 then (True, a2\<lparr>at_lockedUntil := t + lp_Cooldown p\<rparr>)
          else (False, a2))"
proof (cases "fst (fst (at_LockedOut t a))")
  case True
  then have "at_LockedOut t a = ((True, snd (fst (at_LockedOut t a))), a)"
    by (auto simp: at_LockedOut_def split: if_splits)
  with locked show ?thesis by (simp add: at_RecordFailure_def)
next
  case False
  then obtain a1 where "at_LockedOut t a = ((False, 0), a1)" "at_lockedUntil a1 = 0"
    by (auto simp: at_LockedOut_def at_zero_def split: if_splits)
  with counted show ?thesis by (simp add: at_RecordFailure_def Let_def)
qed

lemma at_wf_RecordFailure [wf_intro]:
  assumes "at_wf p a" "lp_Validate p = None" "0 \<le> t"
  shows "at_wf p (snd (at_RecordFailure t p a))"
proof (cases rule: at_RecordFailure_cases [of t a p])
  case (locked r)
  with assms show ?thesis by simp
next
  case (counted a1 a2)
  from at_wf_LockedOut [OF assms(1,2), of t] counted(1) have "at_wf p a1" by simp
  then show ?thesis
    using counted assms by (auto simp: at_wf_def lp_Validate_None split: if_splits)
qed

lemma at_tripped:
  assumes "at_RecordFailure t p a = (True, a')"
  shows "at_lockedUntil a' = t + lp_Cooldown p" and "lp_Threshold p \<le> at_failures a'"
  using assms by (cases rule: at_RecordFailure_cases [of t a p]; auto split: if_splits)+

text \<open>While a lockout is armed, a call either releases it or changes nothing.\<close>

lemma at_step_locked:
  assumes "at_lockedUntil a = d" "d \<noteq> 0"
  shows "at_step p c a =
    (if \<not> releases d c then a
     else case c of AtFail t \<Rightarrow> snd (at_RecordFailure t p at_zero) | _ \<Rightarrow> at_zero)"
  using assms by (cases c) (simp_all add: at_LockedOut_def at_RecordFailure_def at_zero_def Let_def split: if_splits)

lemma at_run_locked:
  assumes "at_lockedUntil a = d" "d \<noteq> 0" "\<forall>c\<in>set cs. \<not> releases d c"
  shows "at_run p cs a = a"
  using assms by (induction cs) (auto simp: at_step_locked)

definition failure_calls :: "at_call list \<Rightarrow> int" where
  "failure_calls cs = int (length (filter is_failure_call cs))"

lemma failure_calls_simps [simp]:
  "failure_calls [] = 0"
  "failure_calls (c # cs) = (if is_failure_call c then 1 else 0) + failure_calls cs"
  "failure_calls (xs @ ys) = failure_calls xs + failure_calls ys"
  by (simp_all add: failure_calls_def)

lemma failure_calls_nonneg: "0 \<le> failure_calls cs"
  by (simp add: failure_calls_def)

lemma at_step_failures:
  assumes "0 \<le> at_failures a"
  shows "0 \<le> at_failures (at_step p c a) \<and>
    at_failures (at_step p c a) \<le> at_failures a + (if is_failure_call c then 1 else 0)"
  using assms by (cases c) (auto simp: at_ops_defs split: if_splits)

lemma at_run_failures:
  "0 \<le> at_failures a \<Longrightarrow>
   0 \<le> at_failures (at_run p cs a) \<and> at_failures (at_run p cs a) \<le> at_failures a + failure_calls cs"
proof (induction cs arbitrary: a)
  case (Cons c cs)
  from at_step_failures [OF Cons.prems, of p c] Cons.IH [of "at_step p c a"] show ?case by auto
qed simp

lemma at_run_append [simp]: "at_run p (xs @ ys) a = at_run p ys (at_run p xs a)"
  by (induction xs arbitrary: a) auto

lemma at_released_run:
  assumes "at_lockedUntil a = d" "d \<noteq> 0" "\<exists>c\<in>set cs. releases d c"
  shows "0 \<le> at_failures (at_run p cs a) \<and> at_failures (at_run p cs a) \<le> failure_calls cs"
proof -
  obtain xs c ys where cs: "cs = xs @ c # ys" and c: "releases d c"
    and xs: "\<forall>x\<in>set xs. \<not> releases d x"
    using assms(3) by (auto dest!: split_list_first_prop)
  have "at_run p xs a = a" by (rule at_run_locked [OF assms(1,2) xs])
  moreover have "at_step p c a = at_step p c at_zero \<or> (\<not> is_failure_call c \<and> at_step p c a = at_zero)"
    using at_step_locked [OF assms(1,2), of p c] c by (cases c) auto
  moreover have "0 \<le> at_failures (at_step p c at_zero)
      \<and> at_failures (at_step p c at_zero) \<le> (if is_failure_call c then 1 else 0)"
    using at_step_failures [of at_zero p c] by (simp add: at_zero_def)
  ultimately show ?thesis
    using at_run_failures [of "at_step p c a" p ys] failure_calls_nonneg [of xs]
    unfolding cs by (auto simp: at_zero_def)
qed

lemma at_trips_spaced:
  assumes trip: "at_RecordFailure t0 p a = (True, a')"
    and trip2: "at_RecordFailure t1 p (at_run p cs a') = (True, a2)"
    and ok: "lp_Validate p = None" "0 \<le> t0"
  shows "(\<exists>c\<in>set (cs @ [AtFail t1]). releases (t0 + lp_Cooldown p) c) \<and>
         lp_Threshold p \<le> failure_calls (cs @ [AtFail t1])"
proof -
  let ?d = "t0 + lp_Cooldown p"
  have d: "at_lockedUntil a' = ?d" "?d \<noteq> 0"
    using at_tripped(1) [OF trip] ok by (auto simp: lp_Validate_None)
  have run: "at_run p (cs @ [AtFail t1]) a' = a2" using trip2 by simp
  have rel: "\<exists>c\<in>set (cs @ [AtFail t1]). releases ?d c"
  proof (rule ccontr)
    assume none: "\<not> ?thesis"
    then have "at_run p cs a' = a'" using at_run_locked [OF d, of cs p] by simp
    with trip2 none d show False by (auto simp: at_ops_defs split: if_splits)
  qed
  from at_released_run [OF d rel, of p] at_tripped(2) [OF trip2] run rel show ?thesis by auto
qed

section \<open>The bounded table of keys\<close>

record guard_entry =
  ge_attempts :: Attempts
  ge_lastSeen :: instant

record MemoryGuard =
  mg_policy :: LockoutPolicy
  mg_maxEntries :: nat
  mg_entries :: "(string, guard_entry) gomap"

record LockoutStatus =
  ls_Failures :: int
  ls_Threshold :: int
  ls_Window :: duration
  ls_Cooldown :: duration
  ls_LockedOut :: bool
  ls_Tripped :: bool
  ls_RetryAfter :: duration

datatype guard_error = InvalidPolicy policy_error | BadMaxEntries

definition NewMemoryGuard :: "LockoutPolicy \<Rightarrow> int \<Rightarrow> guard_error + MemoryGuard" where
  "NewMemoryGuard p n =
    (case lp_Validate p of
       Some e \<Rightarrow> Inl (InvalidPolicy e)
     | None \<Rightarrow>
         if n \<le> 0 then Inl BadMaxEntries
         else Inr \<lparr>mg_policy = p, mg_maxEntries = nat n, mg_entries = []\<rparr>)"

definition NewDefaultMemoryGuard :: "guard_error + MemoryGuard" where
  "NewDefaultMemoryGuard = NewMemoryGuard DefaultPolicy 10000"

definition mg_statusOf :: "MemoryGuard \<Rightarrow> Attempts option \<Rightarrow> LockoutStatus" where
  "mg_statusOf g a =
    \<lparr>ls_Failures = (case a of None \<Rightarrow> 0 | Some x \<Rightarrow> at_failures x),
     ls_Threshold = lp_Threshold (mg_policy g), ls_Window = lp_Window (mg_policy g),
     ls_Cooldown = lp_Cooldown (mg_policy g),
     ls_LockedOut = False, ls_Tripped = False, ls_RetryAfter = 0\<rparr>"

definition mg_Status :: "instant \<Rightarrow> string \<Rightarrow> MemoryGuard \<Rightarrow> LockoutStatus \<times> MemoryGuard" where
  "mg_Status now key g =
    (if key = [] then (mg_statusOf g None, g)
     else case map_of (mg_entries g) key of
       None \<Rightarrow> (mg_statusOf g None, g)
     | Some e \<Rightarrow>
         (let ((locked, retryAfter), a') = at_LockedOut now (ge_attempts e);
              g' = g\<lparr>mg_entries := AList.update key \<lparr>ge_attempts = a', ge_lastSeen = now\<rparr> (mg_entries g)\<rparr> in
          ((mg_statusOf g' (Some a'))\<lparr>ls_LockedOut := locked, ls_RetryAfter := retryAfter\<rparr>, g')))"

text \<open>The scan for the least recently seen entry keeps the first of several equally old ones in
  iteration order; the empty key marks that none has been found yet.\<close>

definition mg_oldest :: "(string, guard_entry) gomap \<Rightarrow> string" where
  "mg_oldest m =
    fst (fold (\<lambda>(k, e) (ok, seen).
                 if ok = [] \<or> ge_lastSeen e < seen then (k, ge_lastSeen e) else (ok, seen))
           m ([], 0))"

definition mg_makeRoomLocked :: "instant \<Rightarrow> MemoryGuard \<Rightarrow> MemoryGuard" where
  "mg_makeRoomLocked now g =
    (if length (mg_entries g) < mg_maxEntries g then g
     else
       let kept = filter (\<lambda>(k, e). \<not> at_Idle now (mg_policy g) (ge_attempts e)) (mg_entries g);
           g1 = g\<lparr>mg_entries := kept\<rparr> in
       if length kept < mg_maxEntries g then g1
       else if mg_oldest kept \<noteq> [] then g1\<lparr>mg_entries := AList.delete (mg_oldest kept) kept\<rparr>
       else g1)"

definition mg_RecordFailure :: "instant \<Rightarrow> string \<Rightarrow> MemoryGuard \<Rightarrow> LockoutStatus \<times> MemoryGuard" where
  "mg_RecordFailure now key g =
    (if key = [] then (mg_statusOf g None, g)
     else
       let (a, g1) = (case map_of (mg_entries g) key of
                        Some e \<Rightarrow> (ge_attempts e, g)
                      | None \<Rightarrow> (at_zero, mg_makeRoomLocked now g));
           (tripped, a1) = at_RecordFailure now (mg_policy g1) a;
           ((locked, retryAfter), a2) = at_LockedOut now a1;
           g2 = g1\<lparr>mg_entries := AList.update key \<lparr>ge_attempts = a2, ge_lastSeen = now\<rparr> (mg_entries g1)\<rparr> in
       ((mg_statusOf g2 (Some a2))\<lparr>ls_Tripped := tripped, ls_LockedOut := locked \<and> \<not> tripped,
                                   ls_RetryAfter := retryAfter\<rparr>, g2))"

definition mg_RecordSuccess :: "string \<Rightarrow> MemoryGuard \<Rightarrow> MemoryGuard" where
  "mg_RecordSuccess key g =
    (if key = [] then g
     else case map_of (mg_entries g) key of
       None \<Rightarrow> g
     | Some e \<Rightarrow> g\<lparr>mg_entries := AList.delete key (mg_entries g)\<rparr>)"

datatype guard_call = GuardStatus instant string | GuardFailure instant string | GuardSuccess string

fun mg_step :: "guard_call \<Rightarrow> MemoryGuard \<Rightarrow> MemoryGuard" where
  "mg_step (GuardStatus t k) g = snd (mg_Status t k g)"
| "mg_step (GuardFailure t k) g = snd (mg_RecordFailure t k g)"
| "mg_step (GuardSuccess k) g = mg_RecordSuccess k g"

definition mg_run :: "guard_call list \<Rightarrow> MemoryGuard \<Rightarrow> MemoryGuard" where
  "mg_run cs g = fold mg_step cs g"

subsection \<open>Making room\<close>

lemma mg_oldest_fold:
  assumes "\<forall>x\<in>set m. fst x \<noteq> []"
    and "k0 = [] \<or> (\<exists>e. (k0, e) \<in> M \<and> ge_lastSeen e = s0)"
    and "set m \<subseteq> M"
  shows "(let (k, s) = fold (\<lambda>(k, e) (ok, seen).
              if ok = [] \<or> ge_lastSeen e < seen then (k, ge_lastSeen e) else (ok, seen)) m (k0, s0) in
          (k = [] \<longleftrightarrow> k0 = [] \<and> m = []) \<and>
          (k \<noteq> [] \<longrightarrow> (\<exists>e. (k, e) \<in> M \<and> ge_lastSeen e = s) \<and> (k0 \<noteq> [] \<longrightarrow> s \<le> s0) \<and>
             (\<forall>(k', e')\<in>set m. s \<le> ge_lastSeen e')))"
  using assms
proof (induction m arbitrary: k0 s0)
  case (Cons x m)
  obtain k e where x: "x = (k, e)" by (cases x)
  show ?case
  proof (cases "k0 = [] \<or> ge_lastSeen e < s0")
    case True
    with Cons.IH [of k "ge_lastSeen e"] Cons.prems x show ?thesis
      by (fastforce simp: Let_def split: prod.splits)
  next
    case False
    with Cons.IH [of k0 s0] Cons.prems x show ?thesis
      by (fastforce simp: Let_def split: prod.splits)
  qed
qed (auto simp: Let_def)

lemma mg_oldest_spec:
  assumes "\<forall>x\<in>set m. fst x \<noteq> []" "m \<noteq> []"
  shows "mg_oldest m \<noteq> [] \<and>
    (\<exists>e. (mg_oldest m, e) \<in> set m \<and> (\<forall>(k', e')\<in>set m. ge_lastSeen e \<le> ge_lastSeen e'))"
  using mg_oldest_fold [of m "[]" "set m" 0, OF assms(1)] assms(2)
  by (auto simp: mg_oldest_def Let_def split: prod.splits)

text \<open>The invariant of the table: one entry per key, no empty key, never more than the cap.\<close>

definition mg_wf :: "MemoryGuard \<Rightarrow> bool" where
  "mg_wf g \<longleftrightarrow> gomap_wf (mg_entries g) \<and> [] \<notin> fst ` set (mg_entries g) \<and>
     length (mg_entries g) \<le> mg_maxEntries g \<and> 0 < mg_maxEntries g \<and> lp_Validate (mg_policy g) = None"

lemma mg_wf_new [wf_intro]: "NewMemoryGuard p n = Inr g \<Longrightarrow> mg_wf g"
  by (auto simp: NewMemoryGuard_def mg_wf_def split: option.splits if_splits)

lemma mg_makeRoom_fields [simp]:
  "mg_policy (mg_makeRoomLocked t g) = mg_policy g"
  "mg_maxEntries (mg_makeRoomLocked t g) = mg_maxEntries g"
  by (simp_all add: mg_makeRoomLocked_def Let_def)

lemma mg_makeRoom_id: "length (mg_entries g) < mg_maxEntries g \<Longrightarrow> mg_makeRoomLocked t g = g"
  by (simp add: mg_makeRoomLocked_def)

lemma mg_makeRoom_subset: "set (mg_entries (mg_makeRoomLocked t g)) \<subseteq> set (mg_entries g)"
  by (auto simp: mg_makeRoomLocked_def Let_def dest: subsetD [OF delete_subset])

lemma mg_makeRoom_wf:
  assumes "mg_wf g"
  shows "mg_wf (mg_makeRoomLocked t g) \<and>
    length (mg_entries (mg_makeRoomLocked t g)) < mg_maxEntries g"
proof (cases "length (mg_entries g) < mg_maxEntries g")
  case True
  with assms show ?thesis by (simp add: mg_makeRoom_id)
next
  case False
  let ?kept = "filter (\<lambda>(k, e). \<not> at_Idle t (mg_policy g) (ge_attempts e)) (mg_entries g)"
  have sub: "fst ` set ?kept \<subseteq> fst ` set (mg_entries g)" by auto
  have wf: "gomap_wf ?kept" using assms by (simp add: mg_wf_def)
  have len: "length ?kept \<le> mg_maxEntries g"
    using assms by (meson length_filter_le le_trans mg_wf_def)
  have ne: "[] \<notin> fst ` set ?kept" using assms sub unfolding mg_wf_def by blast
  then have ne': "\<forall>x\<in>set ?kept. fst x \<noteq> []" by (metis imageI)
  have rest: "0 < mg_maxEntries g" "lp_Validate (mg_policy g) = None"
    using assms by (simp_all add: mg_wf_def)
  show ?thesis
  proof (cases "length ?kept < mg_maxEntries g")
    case True
    with False have "mg_makeRoomLocked t g = g\<lparr>mg_entries := ?kept\<rparr>"
      by (simp add: mg_makeRoomLocked_def Let_def)
    with True wf len ne rest show ?thesis by (simp only: mg_wf_def) simp
  next
    case full: False
    then have "?kept \<noteq> []" using rest(1) by (metis list.size(3))
    with mg_oldest_spec [OF ne'] have old: "mg_oldest ?kept \<noteq> []" "mg_oldest ?kept \<in> fst ` set ?kept"
      by force+
    then have "length (AList.delete (mg_oldest ?kept) ?kept) < mg_maxEntries g"
      using len length_delete_less [OF old(2)] by linarith
    moreover have "[] \<notin> fst ` set (AList.delete (mg_oldest ?kept) ?kept)"
      using ne dom_delete_subset [of "mg_oldest ?kept" ?kept] by blast
    moreover have "mg_makeRoomLocked t g =
        g\<lparr>mg_entries := AList.delete (mg_oldest ?kept) ?kept\<rparr>"
      using False full old(1) by (simp add: mg_makeRoomLocked_def Let_def)
    ultimately show ?thesis
      using gomap_wf_delete [OF wf, of "mg_oldest ?kept"] rest by (simp add: mg_wf_def)
  qed
qed

lemma mg_update_wf:
  assumes "mg_wf g" "k \<noteq> []" "k \<in> fst ` set (mg_entries g) \<or> length (mg_entries g) < mg_maxEntries g"
  shows "mg_wf (g\<lparr>mg_entries := AList.update k e (mg_entries g)\<rparr>)"
  using assms by (auto simp: mg_wf_def length_update dom_update)

lemma mg_wf_Status [wf_intro]: "mg_wf g \<Longrightarrow> mg_wf (snd (mg_Status t k g))"
  using mg_update_wf [of g k]
  by (auto simp: mg_Status_def Let_def split: option.splits prod.splits dest!: map_of_SomeD)
     (metis fst_conv image_eqI)

lemma mg_wf_RecordFailure [wf_intro]: "mg_wf g \<Longrightarrow> mg_wf (snd (mg_RecordFailure t k g))"
proof -
  assume g: "mg_wf g"
  show ?thesis
  proof (cases "map_of (mg_entries g) k")
    case None
    with g mg_makeRoom_wf [OF g, of t] show ?thesis
      by (auto simp: mg_RecordFailure_def Let_def split: prod.splits intro!: mg_update_wf)
  next
    case (Some e)
    then have "k \<in> fst ` set (mg_entries g)" by (metis map_of_isSome_iff option.distinct(1))
    with g Some show ?thesis
      by (auto simp: mg_RecordFailure_def Let_def split: prod.splits intro!: mg_update_wf)
  qed
qed

lemma mg_wf_RecordSuccess [wf_intro]: "mg_wf g \<Longrightarrow> mg_wf (mg_RecordSuccess k g)"
  using length_delete_le [of k "mg_entries g"] dom_delete_subset [of k "mg_entries g"]
  by (auto simp: mg_RecordSuccess_def mg_wf_def split: option.splits)

lemma mg_wf_step [wf_intro]: "mg_wf g \<Longrightarrow> mg_wf (mg_step c g)"
  by (cases c) (auto intro: wf_intro)

lemma mg_wf_run [wf_intro]: "mg_wf g \<Longrightarrow> mg_wf (mg_run cs g)"
  unfolding mg_run_def by (induction cs arbitrary: g) (auto intro: mg_wf_step)

lemma mg_fields [simp]:
  "mg_policy (mg_step c g) = mg_policy g" "mg_maxEntries (mg_step c g) = mg_maxEntries g"
  by (cases c; auto simp: mg_Status_def mg_RecordFailure_def mg_RecordSuccess_def Let_def
      split: option.splits prod.splits)+

lemma mg_run_fields [simp]:
  "mg_policy (mg_run cs g) = mg_policy g" "mg_maxEntries (mg_run cs g) = mg_maxEntries g"
  unfolding mg_run_def by (induction cs arbitrary: g) auto

subsection \<open>The table as one machine per key\<close>

definition mg_abs :: "MemoryGuard \<Rightarrow> string \<Rightarrow> Attempts" where
  "mg_abs g k = (case map_of (mg_entries g) k of None \<Rightarrow> at_zero | Some e \<Rightarrow> ge_attempts e)"

fun calls_on :: "string \<Rightarrow> guard_call list \<Rightarrow> at_call list" where
  "calls_on k [] = []"
| "calls_on k (GuardStatus t k' # cs) = (if k' = k then [AtQuery t] else []) @ calls_on k cs"
| "calls_on k (GuardFailure t k' # cs) = (if k' = k then [AtFail t] else []) @ calls_on k cs"
| "calls_on k (GuardSuccess k' # cs) = (if k' = k then [AtSucceed] else []) @ calls_on k cs"

fun failing_keys :: "guard_call list \<Rightarrow> string set" where
  "failing_keys [] = {}"
| "failing_keys (GuardFailure t k # cs) = (if k = [] then {} else {k}) \<union> failing_keys cs"
| "failing_keys (c # cs) = failing_keys cs"

lemma at_LockedOut_after_failure:
  assumes "0 < lp_Cooldown p"
  shows "snd (at_LockedOut t (snd (at_RecordFailure t p a))) = snd (at_RecordFailure t p a)"
  using assms by (cases rule: at_RecordFailure_cases [of t a p])
     (auto simp: at_LockedOut_def split: if_splits)

lemma mg_abs_update [simp]:
  "mg_abs (g\<lparr>mg_entries := AList.update k e (mg_entries g)\<rparr>) = (mg_abs g)(k := ge_attempts e)"
  by (auto simp: mg_abs_def)

lemma mg_abs_Status:
  assumes "k \<noteq> []"
  shows "mg_abs (snd (mg_Status t k g)) = (mg_abs g)(k := at_step (mg_policy g) (AtQuery t) (mg_abs g k))"
  using assms
  by (auto simp: mg_Status_def mg_abs_def at_LockedOut_def at_zero_def Let_def fun_eq_iff
      split: option.splits prod.splits)

lemma mg_abs_RecordSuccess:
  assumes "k \<noteq> []"
  shows "mg_abs (mg_RecordSuccess k g) = (mg_abs g)(k := at_step (mg_policy g) AtSucceed (mg_abs g k))"
  using assms by (auto simp: mg_RecordSuccess_def mg_abs_def fun_eq_iff split: option.splits)

lemma mg_abs_RecordFailure:
  assumes "k \<noteq> []" "mg_wf g"
    and "k \<in> fst ` set (mg_entries g) \<or> length (mg_entries g) < mg_maxEntries g"
  shows "mg_abs (snd (mg_RecordFailure t k g)) =
    (mg_abs g)(k := at_step (mg_policy g) (AtFail t) (mg_abs g k))"
proof -
  have "0 < lp_Cooldown (mg_policy g)" using assms(2) by (simp add: mg_wf_def lp_Validate_None)
  note settle = at_LockedOut_after_failure [OF this, of t]
  show ?thesis
  proof (cases "map_of (mg_entries g) k")
    case None
    with assms(3) have "mg_makeRoomLocked t g = g"
      by (auto simp: mg_makeRoom_id map_of_eq_None_iff)
    moreover from None have "mg_abs g k = at_zero" by (simp add: mg_abs_def)
    ultimately show ?thesis
      using assms(1) None settle [of at_zero] by (simp add: mg_RecordFailure_def Let_def split_def)
  next
    case (Some e)
    then have "mg_abs g k = ge_attempts e" by (simp add: mg_abs_def)
    then show ?thesis
      using assms(1) Some settle [of "ge_attempts e"] by (simp add: mg_RecordFailure_def Let_def split_def)
  qed
qed

lemma mg_keys_step: "fst ` set (mg_entries (mg_step c g)) \<subseteq> fst ` set (mg_entries g) \<union> failing_keys [c]"
proof (cases c)
  case (GuardStatus t k)
  show ?thesis
  proof (cases "map_of (mg_entries g) k")
    case None
    with GuardStatus show ?thesis by (simp add: mg_Status_def)
  next
    case (Some e)
    then have "k \<in> fst ` set (mg_entries g)" by (metis map_of_isSome_iff option.distinct(1))
    with Some GuardStatus show ?thesis
      by (simp add: mg_Status_def Let_def dom_update split_def insert_absorb)
  qed
next
  case (GuardFailure t k)
  have "fst ` set (mg_entries (mg_makeRoomLocked t g)) \<subseteq> fst ` set (mg_entries g)"
    using mg_makeRoom_subset by (rule image_mono)
  moreover have "fst ` set (mg_entries (snd (mg_RecordFailure t k g))) \<subseteq>
      (if k = [] then {} else {k}) \<union> fst ` set (mg_entries g) \<union> fst ` set (mg_entries (mg_makeRoomLocked t g))"
    by (cases "map_of (mg_entries g) k") (auto simp: mg_RecordFailure_def Let_def dom_update split_def)
  ultimately show ?thesis unfolding GuardFailure by (cases "k = []") (simp; blast)+
next
  case (GuardSuccess k)
  then show ?thesis
    using dom_delete_subset [of k "mg_entries g"]
    by (auto simp: mg_RecordSuccess_def split: option.splits)
qed

lemma failing_keys_Cons: "failing_keys (c # cs) = failing_keys [c] \<union> failing_keys cs"
  by (cases c) auto

lemma calls_on_Cons: "calls_on k (c # cs) = calls_on k [c] @ calls_on k cs"
  by (cases c) auto

lemma finite_failing_keys [simp]: "finite (failing_keys cs)"
  by (induction cs rule: failing_keys.induct) auto

lemma mg_abs_empty_key: "mg_step (GuardStatus t []) g = g" "mg_step (GuardFailure t []) g = g"
    "mg_step (GuardSuccess []) g = g"
  by (simp_all add: mg_Status_def mg_RecordFailure_def mg_RecordSuccess_def)

lemma mg_abs_step:
  assumes "mg_wf g" "card (fst ` set (mg_entries g) \<union> failing_keys [c]) \<le> mg_maxEntries g" "k \<noteq> []"
  shows "mg_abs (mg_step c g) k = at_run (mg_policy g) (calls_on k [c]) (mg_abs g k)"
proof (cases c)
  case (GuardStatus t k')
  with assms(3) show ?thesis
    by (cases "k' = []") (auto simp: mg_abs_Status mg_Status_def [of _ "[]"])
next
  case (GuardFailure t k')
  show ?thesis
  proof (cases "k' = []")
    case True
    with GuardFailure assms(3) show ?thesis by (simp add: mg_abs_empty_key del: mg_step.simps)
  next
    case False
    have "k' \<in> fst ` set (mg_entries g) \<or> length (mg_entries g) < mg_maxEntries g"
    proof (rule disjCI)
      assume "\<not> length (mg_entries g) < mg_maxEntries g"
      then have full: "card (fst ` set (mg_entries g)) = mg_maxEntries g"
        using assms(1) distinct_card [of "map fst (mg_entries g)"] by (simp add: mg_wf_def)
      have "fst ` set (mg_entries g) = fst ` set (mg_entries g) \<union> failing_keys [c]"
        using assms(2) full by (intro card_seteq) auto
      then have "failing_keys [c] \<subseteq> fst ` set (mg_entries g)" by blast
      then show "k' \<in> fst ` set (mg_entries g)" using GuardFailure False by auto
    qed
    from mg_abs_RecordFailure [OF False assms(1) this] GuardFailure show ?thesis by simp
  qed
next
  case (GuardSuccess k')
  with assms(3) show ?thesis
    by (cases "k' = []") (auto simp: mg_abs_RecordSuccess mg_RecordSuccess_def [of "[]"])
qed

lemma mg_abs_run:
  assumes "mg_wf g" "card (fst ` set (mg_entries g) \<union> failing_keys cs) \<le> mg_maxEntries g" "k \<noteq> []"
  shows "mg_abs (mg_run cs g) k = at_run (mg_policy g) (calls_on k cs) (mg_abs g k)"
  using assms
proof (induction cs arbitrary: g)
  case Nil
  then show ?case by (simp add: mg_run_def)
next
  case (Cons c cs)
  have sub: "fst ` set (mg_entries (mg_step c g)) \<union> failing_keys cs
      \<subseteq> fst ` set (mg_entries g) \<union> failing_keys (c # cs)"
    using mg_keys_step [of c g] failing_keys_Cons [of c cs] by blast
  have "card (fst ` set (mg_entries g) \<union> failing_keys [c])
      \<le> card (fst ` set (mg_entries g) \<union> failing_keys (c # cs))"
    using failing_keys_Cons [of c cs] by (intro card_mono) auto
  with Cons.prems have step: "mg_abs (mg_step c g) k = at_run (mg_policy g) (calls_on k [c]) (mg_abs g k)"
    by (intro mg_abs_step) auto
  have "card (fst ` set (mg_entries (mg_step c g)) \<union> failing_keys cs) \<le> mg_maxEntries (mg_step c g)"
    using card_mono [OF _ sub] Cons.prems(2) by simp
  from Cons.IH [OF mg_wf_step [OF Cons.prems(1)] this Cons.prems(3)] step show ?case
    using calls_on_Cons [of k c cs] by (simp add: mg_run_def)
qed

lemma mg_Status_abs:
  assumes "k \<noteq> []"
  shows "(ls_LockedOut (fst (mg_Status t k g)), ls_RetryAfter (fst (mg_Status t k g)))
       = fst (at_LockedOut t (mg_abs g k))"
  using assms
  by (auto simp: mg_Status_def mg_abs_def mg_statusOf_def at_LockedOut_def at_zero_def Let_def
      split: option.splits prod.splits)

section \<open>Properties\<close>

text \<open>C3: The call that arms a lockout starts an episode that lasts exactly the cooldown: any
  sequence of status queries and further failures whose clock readings stay before the end (a clock
  that runs backwards included) leaves the state untouched, and at its end a status query is locked
  with the remaining time and a failure does not trip again; the first reading at or after the end
  finds the key released with all failures forgotten.\<close>

theorem lockout_lasts_cooldown:
  assumes "at_RecordFailure t0 p a = (True, a')" "lp_Validate p = None" "0 \<le> t0"
    and "\<forall>c\<in>set cs. \<not> releases (t0 + lp_Cooldown p) c"
  shows "at_run p cs a' = a' \<and>
    at_LockedOut t (at_run p cs a') =
      (if t < t0 + lp_Cooldown p then ((True, time_sub (t0 + lp_Cooldown p) t), a')
       else ((False, 0), at_zero)) \<and>
    (t < t0 + lp_Cooldown p \<longrightarrow> at_RecordFailure t p (at_run p cs a') = (False, a'))"
proof -
  have d: "at_lockedUntil a' = t0 + lp_Cooldown p" "t0 + lp_Cooldown p \<noteq> 0"
    using at_tripped(1) [OF assms(1)] assms(2,3) by (auto simp: lp_Validate_None)
  with at_run_locked [OF d assms(4), of p] show ?thesis
    by (auto simp: at_LockedOut_def at_RecordFailure_def)
qed

theorem lockout_lasts_cooldown_witness:
  "let p = \<lparr>lp_Threshold = 2, lp_Window = 10, lp_Cooldown = 5\<rparr>;
       a = snd (at_RecordFailure 3 p at_zero); a' = snd (at_RecordFailure 4 p a) in
   at_LockedOut 8 (at_run p [AtQuery 2, AtFail 8] a') = ((True, 1), a')"
  using lockout_lasts_cooldown
    [of 4 "\<lparr>lp_Threshold = 2, lp_Window = 10, lp_Cooldown = 5\<rparr>"
        "snd (at_RecordFailure 3 \<lparr>lp_Threshold = 2, lp_Window = 10, lp_Cooldown = 5\<rparr> at_zero)"
        "snd (at_RecordFailure 4 \<lparr>lp_Threshold = 2, lp_Window = 10, lp_Cooldown = 5\<rparr>
           (snd (at_RecordFailure 3 \<lparr>lp_Threshold = 2, lp_Window = 10, lp_Cooldown = 5\<rparr> at_zero)))"
        "[AtQuery 2, AtFail 8]" 8]
  by (simp add: at_ops_defs lp_Validate_def time_sub_def max_duration_def min_duration_def)

text \<open>One event per episode: between two calls that trip the lockout of a key, some call has
  reached the end of the first lockout (or recorded a success), and at least \<^verbatim>\<open>Threshold\<close> failures
  have been recorded since the first trip.\<close>

theorem lockout_trips_spaced:
  assumes "at_RecordFailure t0 p a = (True, a')"
    and "at_RecordFailure t1 p (at_run p cs a') = (True, a2)"
    and "lp_Validate p = None" "0 \<le> t0"
  shows "(\<exists>c\<in>set (cs @ [AtFail t1]). releases (t0 + lp_Cooldown p) c) \<and>
         lp_Threshold p \<le> failure_calls (cs @ [AtFail t1])"
  by (rule at_trips_spaced [OF assms])

theorem lockout_trips_spaced_witness:
  "let p = \<lparr>lp_Threshold = 2, lp_Window = 10, lp_Cooldown = 5\<rparr> in
   lp_Threshold p \<le> failure_calls ([AtFail 6, AtFail 9] @ [AtFail 10])"
  using lockout_trips_spaced
    [of 4 "\<lparr>lp_Threshold = 2, lp_Window = 10, lp_Cooldown = 5\<rparr>"
        "snd (at_RecordFailure 3 \<lparr>lp_Threshold = 2, lp_Window = 10, lp_Cooldown = 5\<rparr> at_zero)"
        "\<lparr>at_failures = 2, at_windowStart = 3, at_lockedUntil = 9\<rparr>" 10 "[AtFail 6, AtFail 9]"
        "\<lparr>at_failures = 2, at_windowStart = 9, at_lockedUntil = 15\<rparr>"]
  by (simp add: at_ops_defs lp_Validate_def time_sub_def max_duration_def min_duration_def)

text \<open>From its construction on, through any sequence of calls on any keys, the guard tracks at
  most \<^verbatim>\<open>maxEntries\<close> keys, one entry each and never the empty key.\<close>

theorem guard_memory_bounded:
  assumes "NewMemoryGuard p n = Inr g"
  shows "length (mg_entries (mg_run cs g)) \<le> nat n \<and> gomap_wf (mg_entries (mg_run cs g)) \<and>
    [] \<notin> fst ` set (mg_entries (mg_run cs g))"
proof -
  have "mg_maxEntries g = nat n" using assms by (auto simp: NewMemoryGuard_def split: option.splits if_splits)
  with mg_wf_run [OF mg_wf_new [OF assms], of cs] show ?thesis by (simp add: mg_wf_def)
qed

theorem guard_memory_bounded_witness:
  "length (mg_entries (mg_run [GuardFailure 1 ''a'', GuardFailure 2 ''b'', GuardFailure 3 ''c'']
     (projr (NewMemoryGuard DefaultPolicy 2)))) \<le> 2"
  using guard_memory_bounded [of DefaultPolicy 2 "projr (NewMemoryGuard DefaultPolicy 2)"]
  by (simp add: NewMemoryGuard_def lp_Validate_def DefaultPolicy_def minute_def second_def)

text \<open>C4: As long as the keys that ever fail fit in the table, the guard is one independent per-key
  machine for each key: what a status query answers after any history is what the entity answers
  after that key's own calls, whatever the other keys did.\<close>

theorem guard_refines_per_key_machine:
  assumes "NewMemoryGuard p n = Inr g" "card (failing_keys cs) \<le> nat n" "k \<noteq> []"
  shows "(ls_LockedOut (fst (mg_Status t k (mg_run cs g))), ls_RetryAfter (fst (mg_Status t k (mg_run cs g))))
    = fst (at_LockedOut t (at_run p (calls_on k cs) at_zero))"
proof -
  have g: "mg_policy g = p" "mg_maxEntries g = nat n" "mg_entries g = []"
    using assms(1) by (auto simp: NewMemoryGuard_def split: option.splits if_splits)
  then have "mg_abs g k = at_zero" by (simp add: mg_abs_def)
  with mg_abs_run [OF mg_wf_new [OF assms(1)] _ assms(3), of cs] g assms(2) show ?thesis
    by (simp add: mg_Status_abs [OF assms(3)])
qed

theorem guard_refines_per_key_machine_witness:
  "let g = projr (NewMemoryGuard \<lparr>lp_Threshold = 1, lp_Window = 10, lp_Cooldown = 5\<rparr> 2) in
   ls_LockedOut (fst (mg_Status 6 ''a'' (mg_run [GuardFailure 3 ''a'', GuardFailure 4 ''b'', GuardSuccess ''b''] g)))"
  using guard_refines_per_key_machine
    [of "\<lparr>lp_Threshold = 1, lp_Window = 10, lp_Cooldown = 5\<rparr>" 2
        "projr (NewMemoryGuard \<lparr>lp_Threshold = 1, lp_Window = 10, lp_Cooldown = 5\<rparr> 2)"
        "[GuardFailure 3 ''a'', GuardFailure 4 ''b'', GuardSuccess ''b'']" "''a''" 6]
  by (simp add: NewMemoryGuard_def lp_Validate_def at_ops_defs)

text \<open>Sweeping an idle entry is unobservable: at that instant the next failure has the same
  verdict and leaves the same state as on a key that was never seen.\<close>

theorem idle_sweep_unobservable:
  assumes "at_Idle now p a" "0 \<le> at_failures a" "lp_Validate p = None"
  shows "at_RecordFailure now p a = at_RecordFailure now p at_zero"
  using assms by (auto simp: at_Idle_def at_ops_defs split: if_splits)

theorem idle_sweep_unobservable_witness:
  "at_RecordFailure 30 \<lparr>lp_Threshold = 2, lp_Window = 10, lp_Cooldown = 5\<rparr>
      \<lparr>at_failures = 1, at_windowStart = 19, at_lockedUntil = 0\<rparr>
   = at_RecordFailure 30 \<lparr>lp_Threshold = 2, lp_Window = 10, lp_Cooldown = 5\<rparr> at_zero"
  using idle_sweep_unobservable
    [of 30 "\<lparr>lp_Threshold = 2, lp_Window = 10, lp_Cooldown = 5\<rparr>"
        "\<lparr>at_failures = 1, at_windowStart = 19, at_lockedUntil = 0\<rparr>"]
  by (simp add: at_Idle_def lp_Validate_def time_sub_def max_duration_def min_duration_def)

text \<open>A full table may drop an active lockout although another tracked key is not locked: the
  eviction takes the least recently seen entry, locked or not.\<close>

theorem eviction_may_drop_active_lockout:
  "let p = \<lparr>lp_Threshold = 2, lp_Window = 100, lp_Cooldown = 100\<rparr>;
       g = mg_run [GuardFailure 10 ''a'', GuardFailure 11 ''a'', GuardFailure 12 ''b'']
             (projr (NewMemoryGuard p 2));
       g' = mg_step (GuardFailure 13 ''c'') g in
   ls_LockedOut (fst (mg_Status 13 ''a'' g)) \<and> \<not> ls_LockedOut (fst (mg_Status 13 ''b'' g)) \<and>
   \<not> ls_LockedOut (fst (mg_Status 13 ''a'' g')) \<and> map_of (mg_entries g') ''b'' \<noteq> None"
  by code_simp

end
