(* ===== verification/GoStrings.thy ===== *)
theory GoStrings
  imports Prelude "HOL-Library.Sublist"
begin

text \<open>The string functions of the Go standard library that the components use, on strings as lists
  of bytes. The case mappings and the blank test are those of ASCII: the code applies them to HTTP
  methods, header names, host names and configuration keywords. \<^verbatim>\<open>strings.HasPrefix\<close> and
  \<^verbatim>\<open>strings.HasSuffix\<close> are \<^const>\<open>prefix\<close> and \<^const>\<open>suffix\<close>.\<close>

section \<open>Bytes\<close>

abbreviation byte_of :: "char \<Rightarrow> nat" where
  "byte_of c \<equiv> of_char c"

definition upper_char :: "char \<Rightarrow> char" where
  "upper_char c = (if 97 \<le> byte_of c \<and> byte_of c \<le> 122 then char_of (byte_of c - 32) else c)"

definition lower_char :: "char \<Rightarrow> char" where
  "lower_char c = (if 65 \<le> byte_of c \<and> byte_of c \<le> 90 then char_of (byte_of c + 32) else c)"

definition is_space :: "char \<Rightarrow> bool" where
  "is_space c \<longleftrightarrow> byte_of c = 32 \<or> (9 \<le> byte_of c \<and> byte_of c \<le> 13)"

definition is_digit :: "char \<Rightarrow> bool" where
  "is_digit c \<longleftrightarrow> 48 \<le> byte_of c \<and> byte_of c \<le> 57"

lemma byte_of_upper: "byte_of (upper_char c) = (if 97 \<le> byte_of c \<and> byte_of c \<le> 122 then byte_of c - 32 else byte_of c)"
  by (auto simp: upper_char_def)

lemma byte_of_lower: "byte_of (lower_char c) = (if 65 \<le> byte_of c \<and> byte_of c \<le> 90 then byte_of c + 32 else byte_of c)"
  by (simp add: lower_char_def)

lemma upper_char_idem [simp]: "upper_char (upper_char c) = upper_char c"
proof -
  have "\<not> (97 \<le> byte_of (upper_char c) \<and> byte_of (upper_char c) \<le> 122)"
    by (auto simp: byte_of_upper)
  then show ?thesis using upper_char_def [of "upper_char c"] by auto
qed

lemma lower_char_idem [simp]: "lower_char (lower_char c) = lower_char c"
proof -
  have "\<not> (65 \<le> byte_of (lower_char c) \<and> byte_of (lower_char c) \<le> 90)"
    by (auto simp: byte_of_lower)
  then show ?thesis using lower_char_def [of "lower_char c"] by auto
qed

lemma lower_upper_char [simp]: "lower_char (upper_char c) = lower_char c"
proof -
  have "byte_of (lower_char (upper_char c)) = byte_of (lower_char c)"
    by (auto simp: byte_of_lower byte_of_upper)
  then show ?thesis by (metis char_of_char)
qed

lemma upper_lower_char [simp]: "upper_char (lower_char c) = upper_char c"
proof -
  have "byte_of (upper_char (lower_char c)) = byte_of (upper_char c)"
    by (auto simp: byte_of_lower byte_of_upper)
  then show ?thesis by (metis char_of_char)
qed

section \<open>Strings\<close>

definition ToUpper :: "string \<Rightarrow> string" where
  "ToUpper s = map upper_char s"

definition ToLower :: "string \<Rightarrow> string" where
  "ToLower s = map lower_char s"

definition EqualFold :: "string \<Rightarrow> string \<Rightarrow> bool" where
  "EqualFold s t \<longleftrightarrow> ToLower s = ToLower t"

definition TrimLeftWhile :: "(char \<Rightarrow> bool) \<Rightarrow> string \<Rightarrow> string" where
  "TrimLeftWhile P s = dropWhile P s"

definition TrimRightWhile :: "(char \<Rightarrow> bool) \<Rightarrow> string \<Rightarrow> string" where
  "TrimRightWhile P s = rev (dropWhile P (rev s))"

definition TrimSpace :: "string \<Rightarrow> string" where
  "TrimSpace s = TrimRightWhile is_space (TrimLeftWhile is_space s)"

definition TrimRightChar :: "char \<Rightarrow> string \<Rightarrow> string" where
  "TrimRightChar c s = TrimRightWhile (\<lambda>x. x = c) s"

definition TrimPrefix :: "string \<Rightarrow> string \<Rightarrow> string" where
  "TrimPrefix p s = (if prefix p s then drop (length p) s else s)"

definition TrimSuffix :: "string \<Rightarrow> string \<Rightarrow> string" where
  "TrimSuffix p s = (if suffix p s then take (length s - length p) s else s)"

text \<open>\<^verbatim>\<open>strings.Cut\<close> at a single byte: the text before and after its first occurrence.\<close>

definition CutByte :: "char \<Rightarrow> string \<Rightarrow> (string \<times> string) option" where
  "CutByte c s =
    (if c \<in> set s then Some (takeWhile (\<lambda>x. x \<noteq> c) s, tl (dropWhile (\<lambda>x. x \<noteq> c) s)) else None)"

text \<open>\<^verbatim>\<open>strings.Split\<close> at a single byte: always at least one piece.\<close>

fun SplitByte :: "char \<Rightarrow> string \<Rightarrow> string list" where
  "SplitByte c [] = [[]]"
| "SplitByte c (x # xs) =
    (if x = c then [] # SplitByte c xs
     else case SplitByte c xs of [] \<Rightarrow> [[x]] | p # ps \<Rightarrow> (x # p) # ps)"

fun JoinByte :: "char \<Rightarrow> string list \<Rightarrow> string" where
  "JoinByte c [] = []"
| "JoinByte c [p] = p"
| "JoinByte c (p # ps) = p @ c # JoinByte c ps"

fun Contains :: "string \<Rightarrow> string \<Rightarrow> bool" where
  "Contains [] sub = (sub = [])"
| "Contains (c # cs) sub = (prefix sub (c # cs) \<or> Contains cs sub)"

text \<open>\<^verbatim>\<open>strings.ReplaceAll\<close> for a non-empty pattern, leftmost occurrences first.\<close>

function ReplaceAll :: "string \<Rightarrow> string \<Rightarrow> string \<Rightarrow> string" where
  "ReplaceAll [] old new = []"
| "ReplaceAll (c # cs) old new =
    (if old \<noteq> [] \<and> prefix old (c # cs) then new @ ReplaceAll (drop (length old) (c # cs)) old new
     else c # ReplaceAll cs old new)"
  by pat_completeness auto
termination
  by (relation "measure (\<lambda>(s, _, _). length s)") auto

lemma ToUpper_idem [simp]: "ToUpper (ToUpper s) = ToUpper s"
  by (simp add: ToUpper_def)

lemma ToLower_idem [simp]: "ToLower (ToLower s) = ToLower s"
  by (simp add: ToLower_def)

lemma EqualFold_iff_upper: "EqualFold s t \<longleftrightarrow> ToUpper s = ToUpper t"
proof
  assume "EqualFold s t"
  then have "map upper_char (map lower_char s) = map upper_char (map lower_char t)"
    by (simp add: EqualFold_def ToLower_def)
  then show "ToUpper s = ToUpper t" by (simp add: ToUpper_def o_def)
next
  assume "ToUpper s = ToUpper t"
  then have "map lower_char (map upper_char s) = map lower_char (map upper_char t)"
    by (simp add: ToUpper_def)
  then show "EqualFold s t" by (simp add: EqualFold_def ToLower_def o_def)
qed

lemma SplitByte_not_Nil [simp]: "SplitByte c s \<noteq> []"
  by (induction s) (auto split: list.splits)

lemma SplitByte_no_sep: "c \<notin> set s \<Longrightarrow> SplitByte c s = [s]"
  by (induction s) auto

lemma SplitByte_append: "c \<notin> set s \<Longrightarrow> SplitByte c (s @ c # t) = s # SplitByte c t"
  by (induction s) auto

lemma JoinByte_SplitByte [simp]: "JoinByte c (SplitByte c s) = s"
proof (induction s)
  case (Cons x xs)
  then show ?case
    by (cases "SplitByte c xs"; cases "tl (SplitByte c xs)") (auto simp: neq_Nil_conv)
qed simp

lemma CutByte_append: "c \<notin> set s \<Longrightarrow> CutByte c (s @ c # t) = Some (s, t)"
  by (simp add: CutByte_def takeWhile_append dropWhile_append)

lemma CutByte_SomeD: "CutByte c s = Some (a, b) \<Longrightarrow> s = a @ c # b \<and> c \<notin> set a"
proof -
  assume *: "CutByte c s = Some (a, b)"
  then have c: "c \<in> set s" and a: "a = takeWhile (\<lambda>x. x \<noteq> c) s" and b: "b = tl (dropWhile (\<lambda>x. x \<noteq> c) s)"
    by (auto simp: CutByte_def split: if_splits)
  from c have "dropWhile (\<lambda>x. x \<noteq> c) s \<noteq> []" by (auto simp: dropWhile_eq_Nil_conv)
  then have "dropWhile (\<lambda>x. x \<noteq> c) s = c # b"
    using b hd_dropWhile [of "\<lambda>x. x \<noteq> c" s] by (cases "dropWhile (\<lambda>x. x \<noteq> c) s") auto
  then show ?thesis using a by (metis takeWhile_dropWhile_id set_takeWhileD)
qed

section \<open>Decimal scanning\<close>

fun dec_value :: "string \<Rightarrow> int \<Rightarrow> int" where
  "dec_value [] acc = acc"
| "dec_value (c # cs) acc = dec_value cs (acc * 10 + int (byte_of c - 48))"

text \<open>\<^verbatim>\<open>fmt.Sscanf(s, "%d", &n)\<close> for a 64-bit \<^verbatim>\<open>n\<close>: blanks before the number are skipped (a newline
  is an error), then an optional sign
  and at least one digit; what follows the digits is ignored; a value out of range is an error.\<close>

fun scan_skip_space :: "string \<Rightarrow> string option" where
  "scan_skip_space [] = Some []"
| "scan_skip_space (c # cs) =
    (if byte_of c = 10 then None
     else if is_space c then scan_skip_space cs
     else Some (c # cs))"

definition Sscanf_d :: "string \<Rightarrow> int option" where
  "Sscanf_d s =
    (case scan_skip_space s of
       None \<Rightarrow> None
     | Some r \<Rightarrow>
         (let neg = (r \<noteq> [] \<and> hd r = CHR ''-'');
              r1 = (if r \<noteq> [] \<and> (hd r = CHR ''-'' \<or> hd r = CHR ''+'') then tl r else r);
              ds = takeWhile is_digit r1;
              v = (if neg then - dec_value ds 0 else dec_value ds 0) in
          if ds = [] then None
          else if v < - (2 ^ 63) \<or> 2 ^ 63 \<le> v then None
          else Some v))"

section \<open>Printing of numbers and joined lists\<close>

fun Itoa :: "nat \<Rightarrow> string" where
  "Itoa n = (if n < 10 then [char_of (48 + n)] else Itoa (n div 10) @ [char_of (48 + n mod 10)])"

declare Itoa.simps [simp del]

text \<open>\<^verbatim>\<open>fmt.Sprintf("%d", i)\<close>.\<close>

definition Sprint_d :: "int \<Rightarrow> string" where
  "Sprint_d i = (if i < 0 then CHR ''-'' # Itoa (nat (- i)) else Itoa (nat i))"

fun Join :: "string \<Rightarrow> string list \<Rightarrow> string" where
  "Join sep [] = []"
| "Join sep [p] = p"
| "Join sep (p # ps) = p @ sep @ Join sep ps"

lemma is_digit_of [simp]: "n < 10 \<Longrightarrow> is_digit (char_of (48 + n :: nat))"
  by (simp add: is_digit_def)

lemma Itoa_digits: "list_all is_digit (Itoa n) \<and> Itoa n \<noteq> []"
proof (induction n rule: Itoa.induct)
  case (1 n)
  then show ?case by (subst (1 2) Itoa.simps) simp
qed

lemma dec_value_append [simp]: "dec_value (xs @ ys) a = dec_value ys (dec_value xs a)"
  by (induction xs arbitrary: a) auto

lemma dec_value_Itoa [simp]: "dec_value (Itoa n) 0 = int n"
proof (induction n rule: Itoa.induct)
  case (1 n)
  show ?case
  proof (cases "n < 10")
    case True
    then show ?thesis by (subst Itoa.simps) simp
  next
    case False
    have "int (n div 10) * 10 + int (n mod 10) = int n" by presburger
    with 1 False show ?thesis by (subst Itoa.simps) simp
  qed
qed

lemma digit_not_space: "is_digit c \<Longrightarrow> \<not> is_space c"
  by (auto simp: is_digit_def is_space_def)

lemma TrimSpace_solid: "s \<noteq> [] \<Longrightarrow> \<not> is_space (hd s) \<Longrightarrow> \<not> is_space (last s) \<Longrightarrow> TrimSpace s = s"
proof -
  assume "s \<noteq> []" "\<not> is_space (hd s)" "\<not> is_space (last s)"
  moreover have "dropWhile is_space t = t" if "t \<noteq> []" "\<not> is_space (hd t)" for t
    using that by (cases t) auto
  ultimately show ?thesis by (simp add: TrimSpace_def TrimLeftWhile_def TrimRightWhile_def hd_rev)
qed

end
