(* ===== verification/PathMatch.thy ===== *)
theory PathMatch
  imports GoStrings
begin

text \<open>\<^verbatim>\<open>path.Match\<close> of the Go standard library, which decides the URL patterns of egress routes, the
  path patterns of API-key scopes and the exempt and public paths. The algorithm follows the
  library's chunk scanner and matcher; a rune is one byte (patterns and names are ASCII here). The
  result is \<^const>\<open>None\<close> for \<^verbatim>\<open>ErrBadPattern\<close>.\<close>

fun scan_body :: "bool \<Rightarrow> string \<Rightarrow> string \<times> string" where
  "scan_body inrange [] = ([], [])"
| "scan_body inrange (c # cs) =
    (if c = CHR 0x5C then
       (case cs of [] \<Rightarrow> ([c], []) | d # ds \<Rightarrow> (let (a, b) = scan_body inrange ds in (c # d # a, b)))
     else if c = CHR ''['' then (let (a, b) = scan_body True cs in (c # a, b))
     else if c = CHR '']'' then (let (a, b) = scan_body False cs in (c # a, b))
     else if c = CHR ''*'' \<and> \<not> inrange then ([], c # cs)
     else (let (a, b) = scan_body inrange cs in (c # a, b)))"

definition scan_chunk :: "string \<Rightarrow> bool \<times> string \<times> string" where
  "scan_chunk pat =
    (let p = dropWhile (\<lambda>c. c = CHR ''*'') pat in
     (pat \<noteq> [] \<and> hd pat = CHR ''*'', scan_body False p))"

fun get_esc :: "string \<Rightarrow> (char \<times> string) option" where
  "get_esc [] = None"
| "get_esc (c # cs) =
    (if c = CHR ''-'' \<or> c = CHR '']'' then None
     else if c = CHR 0x5C then
       (case cs of [] \<Rightarrow> None | d # ds \<Rightarrow> if ds = [] then None else Some (d, ds))
     else if cs = [] then None else Some (c, cs))"

lemma get_esc_length: "get_esc s = Some (r, s') \<Longrightarrow> length s' < length s"
  by (cases s) (auto split: if_splits list.splits)

function match_class :: "nat \<Rightarrow> string \<Rightarrow> nat \<Rightarrow> bool \<Rightarrow> (bool \<times> string) option" where
  "match_class r chunk n m =
    (if chunk \<noteq> [] \<and> hd chunk = CHR '']'' \<and> 0 < n then Some (m, tl chunk)
     else case get_esc chunk of
       None \<Rightarrow> None
     | Some (lo, c1) \<Rightarrow>
         if hd c1 = CHR ''-'' then
           (case get_esc (tl c1) of
              None \<Rightarrow> None
            | Some (hi, c2) \<Rightarrow> match_class r c2 (Suc n) (m \<or> byte_of lo \<le> r \<and> r \<le> byte_of hi))
         else match_class r c1 (Suc n) (m \<or> byte_of lo = r))"
  by pat_completeness auto
termination
proof (relation "measure (\<lambda>(r, chunk, n, m). length chunk)", goal_cases)
  case (2 r chunk n m x2 x y x2a xa ya)
  then have "length ya < length (tl y)" "length y < length chunk" by (metis get_esc_length)+
  then show ?case by simp
next
  case (3 r chunk n m x2 x y)
  then have "length y < length chunk" by (metis get_esc_length)
  then show ?case by simp
qed simp

declare match_class.simps [simp del]

lemma match_class_length: "match_class r chunk n m = Some (m', chunk') \<Longrightarrow> length chunk' < length chunk"
proof (induction r chunk n m arbitrary: m' chunk' rule: match_class.induct)
  case (1 r chunk n m)
  show ?case
  proof (cases "chunk \<noteq> [] \<and> hd chunk = CHR '']'' \<and> 0 < n")
    case True
    with "1.prems" have "chunk' = tl chunk" by (simp add: match_class.simps [of r chunk])
    with True show ?thesis by (cases chunk) auto
  next
    case close: False
    with "1.prems" obtain lo c1 where lo: "get_esc chunk = Some (lo, c1)"
      by (auto simp: match_class.simps [of r chunk] split: option.splits)
    note l1 = get_esc_length [OF lo]
    show ?thesis
    proof (cases "hd c1 = CHR ''-''")
      case True
      with "1.prems" close lo obtain hi c2 where hi: "get_esc (tl c1) = Some (hi, c2)"
        by (auto simp: match_class.simps [of r chunk] split: option.splits)
      have "match_class r c2 (Suc n) (m \<or> byte_of lo \<le> r \<and> r \<le> byte_of hi) = Some (m', chunk')"
        using "1.prems" close lo True hi by (auto simp: match_class.simps [of r chunk])
      from "1.IH"(1) [OF close lo refl True hi refl this] l1 get_esc_length [OF hi] show ?thesis by simp
    next
      case False
      then have "match_class r c1 (Suc n) (m \<or> byte_of lo = r) = Some (m', chunk')"
        using "1.prems" close lo by (auto simp: match_class.simps [of r chunk])
      from "1.IH"(2) [OF close lo refl False this] l1 show ?thesis by simp
    qed
  qed
qed

definition class_negated :: "string \<Rightarrow> bool \<times> string" where
  "class_negated ch = (case ch of d # ds \<Rightarrow> if d = CHR ''^'' then (True, ds) else (False, ch) | [] \<Rightarrow> (False, []))"

lemma class_negated_length: "length (snd (class_negated ch)) \<le> length ch"
  by (auto simp: class_negated_def split: list.splits)

text \<open>The outer option is the bad-pattern error, the inner one the failure to match. Once the match
  has failed, the chunk is still scanned for errors.\<close>

function match_chunk :: "bool \<Rightarrow> string \<Rightarrow> string \<Rightarrow> string option option" where
  "match_chunk failed [] s = Some (if failed then None else Some s)"
| "match_chunk failed (c # ch) s =
    (let f = (failed \<or> s = []); s' = (if f then s else tl s) in
     if c = CHR ''['' then
       (case match_class (if f then 0 else byte_of (hd s)) (snd (class_negated ch)) 0 False of
          None \<Rightarrow> None
        | Some (m, ch2) \<Rightarrow> match_chunk (f \<or> m = fst (class_negated ch)) ch2 s')
     else if c = CHR ''?'' then match_chunk (f \<or> hd s = CHR ''/'') ch s'
     else if c = CHR 0x5C then
       (case ch of [] \<Rightarrow> None | d # ds \<Rightarrow> match_chunk (f \<or> d \<noteq> hd s) ds s')
     else match_chunk (f \<or> c \<noteq> hd s) ch s')"
  by pat_completeness auto
termination
proof (relation "measure (\<lambda>(failed, ch, s). length ch)", goal_cases)
  case (2 failed c ch s f s' x2 m ch2)
  then have "length ch2 < length (snd (class_negated ch))" by (auto dest: match_class_length)
  then show ?case using class_negated_length [of ch] by simp
qed auto

fun star_search :: "string \<Rightarrow> bool \<Rightarrow> string \<Rightarrow> string option option" where
  "star_search chunk final [] = Some None"
| "star_search chunk final (c # cs) =
    (if c = CHR ''/'' then Some None
     else case match_chunk False chunk cs of
       None \<Rightarrow> None
     | Some None \<Rightarrow> star_search chunk final cs
     | Some (Some t) \<Rightarrow> if final \<and> t \<noteq> [] then star_search chunk final cs else Some (Some t))"

declare scan_body.simps(2) [simp del]

lemma scan_body_length: "length (fst (scan_body b s)) + length (snd (scan_body b s)) = length s"
proof (induction b s rule: scan_body.induct)
  case (2 b c cs)
  then show ?case
    by (cases cs) (simp_all add: scan_body.simps(2) [of b c] Let_def split_def)
qed simp

lemma scan_body_empty: "fst (scan_body False (c # cs)) = [] \<Longrightarrow> c = CHR ''*''"
  by (cases cs) (simp_all add: scan_body.simps(2) [of False c] Let_def split_def split: if_splits)

lemma scan_chunk_less:
  assumes "pat \<noteq> []" "scan_chunk pat = (star, chunk, rest)"
  shows "length rest < length pat"
proof -
  let ?p = "dropWhile (\<lambda>c. c = CHR ''*'') pat"
  have sb: "scan_body False ?p = (chunk, rest)" and star: "star = (hd pat = CHR ''*'')"
    using assms by (auto simp: scan_chunk_def Let_def)
  have len: "length chunk + length rest = length ?p" using scan_body_length [of False ?p] sb by simp
  have le: "length ?p \<le> length pat" by (rule length_dropWhile_le)
  show ?thesis
  proof (cases "hd pat = CHR ''*''")
    case True
    then have "length ?p < length pat"
      using assms(1) length_dropWhile_le [of "\<lambda>c. c = CHR ''*''" "tl pat"] by (cases pat) auto
    with len show ?thesis by simp
  next
    case False
    then have "?p = pat" using assms(1) by (cases pat) auto
    moreover from this sb False assms(1) have "chunk \<noteq> []"
      using scan_body_empty by (metis fst_conv list.sel(1) neq_Nil_conv)
    ultimately show ?thesis using len by (cases chunk) auto
  qed
qed

text \<open>The check of the rest of the pattern before a mismatch is reported.\<close>

function pattern_ok :: "string \<Rightarrow> bool" where
  "pattern_ok pat =
    (if pat = [] then True
     else case scan_chunk pat of (star, chunk, rest) \<Rightarrow> match_chunk False chunk [] \<noteq> None \<and> pattern_ok rest)"
  by pat_completeness auto
termination
  by (relation "measure length") (auto dest: scan_chunk_less [OF _ sym])

declare pattern_ok.simps [simp del]

function path_Match :: "string \<Rightarrow> string \<Rightarrow> bool option" where
  "path_Match pat name =
    (if pat = [] then Some (name = [])
     else case scan_chunk pat of (star, chunk, rest) \<Rightarrow>
       if star \<and> chunk = [] then Some (CHR ''/'' \<notin> set name)
       else case match_chunk False chunk name of
         None \<Rightarrow> None
       | Some r \<Rightarrow>
           if r \<noteq> None \<and> (the r = [] \<or> rest \<noteq> []) then path_Match rest (the r)
           else
             case (if star then star_search chunk (rest = []) name else Some None) of
               None \<Rightarrow> None
             | Some (Some t) \<Rightarrow> path_Match rest t
             | Some None \<Rightarrow> if pattern_ok rest then Some False else None)"
  by pat_completeness auto
termination
  by (relation "measure (\<lambda>(pat, name). length pat)") (auto dest: scan_chunk_less [OF _ sym])

declare path_Match.simps [simp del]

declare match_chunk.simps(2) [simp del]

section \<open>Validity does not depend on the name\<close>

lemma match_class_snd:
  "map_option snd (match_class r chunk n m) = map_option snd (match_class r' chunk n m')"
proof (induction r chunk n m arbitrary: r' m' rule: match_class.induct)
  case (1 r chunk n m)
  show ?case
  proof (cases "chunk \<noteq> [] \<and> hd chunk = CHR '']'' \<and> 0 < n")
    case True
    then show ?thesis by (simp add: match_class.simps [of _ chunk])
  next
    case close: False
    show ?thesis
    proof (cases "get_esc chunk")
      case None
      with close show ?thesis by (simp add: match_class.simps [of _ chunk])
    next
      case (Some lc)
      obtain lo c1 where lc: "lc = (lo, c1)" by (cases lc)
      show ?thesis
      proof (cases "hd c1 = CHR ''-''")
        case True
        show ?thesis
        proof (cases "get_esc (tl c1)")
          case None
          with close Some lc True show ?thesis by (simp add: match_class.simps [of _ chunk])
        next
          case (Some hc)
          obtain hi c2 where hc: "hc = (hi, c2)" by (cases hc)
          from "1.IH"(1) [OF close \<open>get_esc chunk = Some lc\<close> lc [symmetric] True Some hc [symmetric]]
          show ?thesis
            using close \<open>get_esc chunk = Some lc\<close> lc True Some hc
            by (auto simp: match_class.simps [of _ chunk])
        qed
      next
        case False
        from "1.IH"(2) [OF close Some lc [symmetric] False] show ?thesis
          using close Some lc False by (auto simp: match_class.simps [of _ chunk])
      qed
    qed
  qed
qed

lemma match_class_valid:
  "match_class r chunk n m = None \<longleftrightarrow> match_class r' chunk n m' = None"
  by (metis match_class_snd option.map_disc_iff)

lemma match_class_valid_Some:
  "match_class r chunk n m = Some (b, c) \<Longrightarrow> \<exists>b'. match_class r' chunk n m' = Some (b', c)"
  by (metis match_class_snd map_option_eq_Some snd_conv surj_pair)

lemma match_chunk_valid:
  "match_chunk f ch s = None \<longleftrightarrow> match_chunk f' ch s' = None"
proof (induction f ch s arbitrary: f' s' rule: match_chunk.induct)
  case (1 failed s)
  then show ?case by simp
next
  case (2 failed c ch s)
  let ?f = "failed \<or> s = []"
  let ?s = "if ?f then s else tl s"
  show ?case
  proof (cases "c = CHR ''[''")
    case True
    let ?r = "if ?f then 0 else byte_of (hd s)"
    let ?r' = "if f' \<or> s' = [] then 0 else byte_of (hd s')"
    let ?body = "snd (class_negated ch)"
    show ?thesis
    proof (cases "match_class ?r ?body 0 False")
      case None
      then have "match_class ?r' ?body 0 False = None" using match_class_valid by blast
      with None True show ?thesis by (simp add: match_chunk.simps(2) Let_def)
    next
      case (Some mc)
      obtain m ch2 where mc: "mc = (m, ch2)" by (cases mc)
      from match_class_valid_Some [OF Some [unfolded mc], of ?r' False]
      obtain m' where m': "match_class ?r' ?body 0 False = Some (m', ch2)" by blast
      from "2.IH"(1) [OF refl refl True Some mc [symmetric]] show ?thesis
        using True Some mc m' by (simp add: match_chunk.simps(2) Let_def)
    qed
  next
    case nbr: False
    show ?thesis
    proof (cases "c = CHR ''?''")
      case True
      from "2.IH"(2) [OF refl refl nbr True] show ?thesis
        using True by (simp add: match_chunk.simps(2) Let_def)
    next
      case nq: False
      show ?thesis
      proof (cases "c = CHR 0x5C")
        case True
        show ?thesis
        proof (cases ch)
          case Nil
          with True show ?thesis by (simp add: match_chunk.simps(2) Let_def)
        next
          case (Cons d ds)
          from "2.IH"(3) [OF refl refl nbr nq True Cons] show ?thesis
            using True Cons by (simp add: match_chunk.simps(2) Let_def)
        qed
      next
        case False
        from "2.IH"(4) [OF refl refl nbr nq False] show ?thesis
          using nbr nq False by (simp add: match_chunk.simps(2) Let_def)
      qed
    qed
  qed
qed

lemma star_search_valid: "star_search chunk final s = None \<Longrightarrow> match_chunk False chunk [] = None"
  by (induction s) (auto split: if_splits option.splits dest: match_chunk_valid [THEN iffD1])

lemma path_Match_None: "path_Match pat name = None \<Longrightarrow> \<not> pattern_ok pat"
proof (induction pat name rule: path_Match.induct)
  case (1 pat name)
  then have ne: "pat \<noteq> []" by (auto simp: path_Match.simps [of "[]"])
  obtain star chunk rest where sc: "scan_chunk pat = (star, chunk, rest)" by (cases "scan_chunk pat") auto
  show ?case
  proof (cases "match_chunk False chunk [] = None \<or> \<not> pattern_ok rest")
    case True
    with ne sc show ?thesis by (auto simp: pattern_ok.simps [of pat])
  next
    case False
    then obtain r where r: "match_chunk False chunk name = Some r"
      using match_chunk_valid [of False chunk "[]" False name] by auto
    from False have ok: "pattern_ok rest" "match_chunk False chunk [] \<noteq> None" by auto
    have nst: "\<not> (star \<and> chunk = [])"
      using "1.prems" ne sc by (auto simp: path_Match.simps [of pat])
    show ?thesis
    proof (cases "r \<noteq> None \<and> (the r = [] \<or> rest \<noteq> [])")
      case True
      then have "path_Match rest (the r) = None"
        using "1.prems" ne sc r nst by (auto simp: path_Match.simps [of pat])
      with "1.IH"(1) [OF ne sc [symmetric] refl nst r True] ok(1) show ?thesis by simp
    next
      case no: False
      let ?q = "if star then star_search chunk (rest = []) name else Some None"
      have "?q \<noteq> None" using star_search_valid [of chunk "rest = []" name] ok(2) by (cases star) auto
      then obtain q where q: "?q = Some q" by auto
      show ?thesis
      proof (cases q)
        case None
        then have "path_Match pat name = Some False"
          using ne sc nst r no q ok(1) by (auto simp: path_Match.simps [of pat])
        with "1.prems" show ?thesis by simp
      next
        case (Some t)
        have "path_Match pat name = path_Match rest t"
          using ne sc nst r no q Some by (auto simp: path_Match.simps [of pat])
        with "1.prems" "1.IH"(2) [OF ne sc [symmetric] refl nst r no q [unfolded Some]] ok(1) show ?thesis by simp
      qed
    qed
  qed
qed

lemma match_chunk_failed: "match_chunk True ch s \<noteq> Some (Some t)"
proof (induction ch arbitrary: s rule: length_induct)
  case (1 ch)
  show ?case
  proof (cases ch)
    case (Cons c ds)
    have IH: "match_chunk True x s' \<noteq> Some (Some t)" if "length x \<le> length ds" for x s'
      using 1 that Cons by simp
    show ?thesis
    proof (cases "c = CHR ''[''")
      case True
      show ?thesis
      proof (cases "match_class 0 (snd (class_negated ds)) 0 False")
        case None
        with Cons True show ?thesis by (simp add: match_chunk.simps(2))
      next
        case (Some mc)
        then have "length (snd mc) < length (snd (class_negated ds))"
          using match_class_length by (metis prod.collapse)
        then have "length (snd mc) \<le> length ds" using class_negated_length [of ds] by simp
        with Cons True Some IH show ?thesis by (simp add: match_chunk.simps(2) split_def)
      qed
    next
      case False
      with Cons IH show ?thesis by (cases ds) (simp_all add: match_chunk.simps(2) [of True c])
    qed
  qed simp
qed

lemma match_chunk_empty: "match_chunk f ch [] = Some (Some t) \<Longrightarrow> ch = []"
proof (cases ch)
  case (Cons c ds)
  assume "match_chunk f ch [] = Some (Some t)"
  moreover have "match_chunk f (c # ds) [] = match_chunk True (c # ds) []"
    by (subst (1 2) match_chunk.simps(2)) (rule arg_cong, simp)
  ultimately show ?thesis using Cons match_chunk_failed by simp
qed

lemma scan_chunk_empty:
  assumes "scan_chunk pat = (star, [], rest)" "pat \<noteq> []"
  shows "star \<and> rest = []"
proof -
  let ?p = "dropWhile (\<lambda>c. c = CHR ''*'') pat"
  from assms(1) have sb: "scan_body False ?p = ([], rest)" and star: "star = (pat \<noteq> [] \<and> hd pat = CHR ''*'')"
    by (auto simp: scan_chunk_def Let_def)
  have "?p = []"
  proof (cases ?p)
    case (Cons c cs)
    with sb scan_body_empty [of c cs] have "c = CHR ''*''" by simp
    with Cons hd_dropWhile [of "\<lambda>c. c = CHR ''*''" pat] show ?thesis by simp
  qed
  with sb star assms(2) show ?thesis by (cases pat) auto
qed

lemma pattern_ok_empty_name: "path_Match pat [] \<noteq> None \<Longrightarrow> pattern_ok pat"
proof -
  assume *: "path_Match pat [] \<noteq> None"
  obtain star chunk rest where sc: "scan_chunk pat = (star, chunk, rest)" by (cases "scan_chunk pat") auto
  show ?thesis
  proof (cases "pat = [] \<or> chunk = []")
    case True
    then show ?thesis
      using sc scan_chunk_empty [of pat star rest] pattern_ok.simps [of pat] pattern_ok.simps [of "[]"] by auto
  next
    case False
    with * sc obtain r where r: "match_chunk False chunk [] = Some r"
      by (auto simp: path_Match.simps [of pat] split: option.splits)
    with False match_chunk_empty [of False chunk] have "r = None" by (cases r) auto
    with * sc r False show ?thesis
      by (auto simp: path_Match.simps [of pat] pattern_ok.simps [of pat] split: if_splits)
  qed
qed

text \<open>A pattern accepted against the empty name never reports a bad pattern for any other name.\<close>

lemma path_Match_valid: "path_Match pat [] \<noteq> None \<Longrightarrow> path_Match pat name \<noteq> None"
  using path_Match_None pattern_ok_empty_name by blast

section \<open>Literal patterns and a final star\<close>

definition plain :: "string \<Rightarrow> bool" where
  "plain s \<longleftrightarrow> (\<forall>c\<in>set s. c \<noteq> CHR ''*'' \<and> c \<noteq> CHR ''?'' \<and> c \<noteq> CHR ''['' \<and> c \<noteq> CHR '']'' \<and> c \<noteq> CHR 0x5C)"

lemma plain_simps [simp]:
  "plain []"
  "plain (c # s) \<longleftrightarrow> c \<noteq> CHR ''*'' \<and> c \<noteq> CHR ''?'' \<and> c \<noteq> CHR ''['' \<and> c \<noteq> CHR '']'' \<and> c \<noteq> CHR 0x5C \<and> plain s"
  by (auto simp: plain_def)

lemma scan_body_plain: "plain s \<Longrightarrow> scan_body False (s @ t) = (let (a, b) = scan_body False t in (s @ a, b))"
  by (induction s) (auto simp: scan_body.simps(2) split_def Let_def)

lemma scan_chunk_plain: "plain s \<Longrightarrow> s \<noteq> [] \<Longrightarrow> t = [] \<or> hd t = CHR ''*'' \<Longrightarrow> scan_chunk (s @ t) = (False, s, t)"
  using scan_body_plain [of s t]
  by (cases s; cases t) (auto simp: scan_chunk_def Let_def scan_body.simps(2))

lemma match_chunk_plain_failed: "plain lit \<Longrightarrow> match_chunk True lit s = Some None"
  by (induction lit arbitrary: s) (auto simp: match_chunk.simps(2))

lemma match_chunk_plain:
  "plain lit \<Longrightarrow> match_chunk False lit s = Some (if prefix lit s then Some (drop (length lit) s) else None)"
proof (induction lit arbitrary: s)
  case (Cons c lit)
  then show ?case
    by (cases s; cases "c = hd s") (auto simp: match_chunk.simps(2) Let_def match_chunk_plain_failed)
qed simp

lemma path_Match_literal: "plain lit \<Longrightarrow> path_Match lit s = Some (s = lit)"
proof (cases "lit = []")
  case False
  assume "plain lit"
  with False scan_chunk_plain [of lit "[]"] match_chunk_plain [of lit s] show ?thesis
    by (auto simp: path_Match.simps [of lit] path_Match.simps [of "[]"] pattern_ok.simps [of "[]"] prefix_def)
qed (simp add: path_Match.simps)

lemma path_Match_star [simp]: "path_Match ''*'' s = Some (CHR ''/'' \<notin> set s)"
  by (simp add: path_Match.simps [of "''*''"] scan_chunk_def)

text \<open>A literal followed by one star matches the literal followed by anything without a slash.\<close>

lemma path_Match_literal_star:
  assumes "plain lit" "lit \<noteq> []"
  shows "path_Match (lit @ ''*'') s = Some (prefix lit s \<and> CHR ''/'' \<notin> set (drop (length lit) s))"
proof -
  have "scan_chunk (lit @ ''*'') = (False, lit, ''*'')" using assms scan_chunk_plain [of lit "''*''"] by simp
  moreover have "pattern_ok ''*''" by (simp add: pattern_ok.simps [of "''*''"] scan_chunk_def pattern_ok.simps [of "[]"])
  ultimately show ?thesis
    using match_chunk_plain [of lit s] assms by (auto simp: path_Match.simps [of "lit @ ''*''"])
qed

end
