(* ===== verification/Headers.thy ===== *)
theory Headers
  imports GoStrings
begin

text \<open>\<^verbatim>\<open>http.Header\<close>: a Go map from header names to lists of values, whose methods canonicalise the
  name they are given (\<^verbatim>\<open>textproto.CanonicalMIMEHeaderKey\<close>). The code edits headers only through
  these methods and by ranging over the map.\<close>

section \<open>Canonical names\<close>

definition token_char :: "char \<Rightarrow> bool" where
  "token_char c \<longleftrightarrow> is_digit c \<or> (65 \<le> byte_of c \<and> byte_of c \<le> 90) \<or> (97 \<le> byte_of c \<and> byte_of c \<le> 122) \<or>
     c \<in> {CHR ''!'', CHR ''#'', CHR ''$'', CHR ''%'', CHR ''&'', CHR 0x27, CHR ''*'', CHR ''+'',
          CHR ''-'', CHR ''.'', CHR ''^'', CHR ''_'', CHR 0x60, CHR ''|'', CHR ''~''}"

fun canon_chars :: "bool \<Rightarrow> string \<Rightarrow> string" where
  "canon_chars up [] = []"
| "canon_chars up (c # cs) = (if up then upper_char c else lower_char c) # canon_chars (c = CHR ''-'') cs"

definition CanonicalHeaderKey :: "string \<Rightarrow> string" where
  "CanonicalHeaderKey s = (if list_all token_char s then canon_chars True s else s)"

lemma byte_dash: "byte_of c = 45 \<longleftrightarrow> c = CHR ''-''"
proof
  assume "byte_of c = 45"
  then have "byte_of c = byte_of CHR ''-''" by simp
  then show "c = CHR ''-''" by (simp only: of_char_eq_iff)
qed simp

lemma upper_char_dash [simp]: "upper_char c = CHR ''-'' \<longleftrightarrow> c = CHR ''-''"
  by (auto simp: byte_dash [symmetric] byte_of_upper)

lemma lower_char_dash [simp]: "lower_char c = CHR ''-'' \<longleftrightarrow> c = CHR ''-''"
  by (auto simp: byte_dash [symmetric] byte_of_lower)

lemma canon_chars_idem [simp]: "canon_chars up (canon_chars up s) = canon_chars up s"
  by (induction up s rule: canon_chars.induct) auto

lemma canon_chars_lower: "canon_chars up (map lower_char s) = canon_chars up s"
  by (induction up s rule: canon_chars.induct) auto

lemma lower_canon_chars: "map lower_char (canon_chars up s) = map lower_char s"
  by (induction up s rule: canon_chars.induct) auto

lemma token_upper [simp]: "token_char c \<Longrightarrow> token_char (upper_char c)"
proof (cases "97 \<le> byte_of c \<and> byte_of c \<le> 122")
  case True
  then have "65 \<le> byte_of (upper_char c) \<and> byte_of (upper_char c) \<le> 90" by (auto simp: byte_of_upper)
  then show ?thesis unfolding token_char_def by blast
qed (auto simp: upper_char_def)

lemma token_lower [simp]: "token_char c \<Longrightarrow> token_char (lower_char c)"
proof (cases "65 \<le> byte_of c \<and> byte_of c \<le> 90")
  case True
  then have "97 \<le> byte_of (lower_char c) \<and> byte_of (lower_char c) \<le> 122" by (auto simp: byte_of_lower)
  then show ?thesis unfolding token_char_def by blast
qed (auto simp: lower_char_def)

lemma token_canon_chars: "list_all token_char s \<Longrightarrow> list_all token_char (canon_chars up s)"
  by (induction up s rule: canon_chars.induct) auto

lemma canonical_idem [simp]: "CanonicalHeaderKey (CanonicalHeaderKey s) = CanonicalHeaderKey s"
  by (simp add: CanonicalHeaderKey_def token_canon_chars)

text \<open>Two token names that differ only in case have the same canonical form, and the canonical form
  differs from the name only in case.\<close>

lemma canonical_case:
  "list_all token_char s \<Longrightarrow> list_all token_char t \<Longrightarrow>
   CanonicalHeaderKey s = CanonicalHeaderKey t \<longleftrightarrow> EqualFold s t"
  by (auto simp: CanonicalHeaderKey_def EqualFold_def ToLower_def)
     (metis lower_canon_chars, metis canon_chars_lower)

section \<open>Headers\<close>

type_synonym header = "(string, string list) gomap"

definition hdr_Values :: "header \<Rightarrow> string \<Rightarrow> string list" where
  "hdr_Values h k = (case map_of h (CanonicalHeaderKey k) of None \<Rightarrow> [] | Some vs \<Rightarrow> vs)"

definition hdr_Get :: "header \<Rightarrow> string \<Rightarrow> string" where
  "hdr_Get h k = (case hdr_Values h k of [] \<Rightarrow> [] | v # _ \<Rightarrow> v)"

definition hdr_Set :: "string \<Rightarrow> string \<Rightarrow> header \<Rightarrow> header" where
  "hdr_Set k v h = AList.update (CanonicalHeaderKey k) [v] h"

definition hdr_Add :: "string \<Rightarrow> string \<Rightarrow> header \<Rightarrow> header" where
  "hdr_Add k v h = AList.update (CanonicalHeaderKey k) (hdr_Values h k @ [v]) h"

definition hdr_Del :: "string \<Rightarrow> header \<Rightarrow> header" where
  "hdr_Del k h = AList.delete (CanonicalHeaderKey k) h"

lemma hdr_Values_Set: "hdr_Values (hdr_Set k v h) k' =
    (if CanonicalHeaderKey k = CanonicalHeaderKey k' then [v] else hdr_Values h k')"
  by (auto simp: hdr_Values_def hdr_Set_def)

lemma hdr_Values_Del: "hdr_Values (hdr_Del k h) k' =
    (if CanonicalHeaderKey k = CanonicalHeaderKey k' then [] else hdr_Values h k')"
  by (auto simp: hdr_Values_def hdr_Del_def)

lemma hdr_Values_Add: "hdr_Values (hdr_Add k v h) k' =
    (if CanonicalHeaderKey k = CanonicalHeaderKey k' then hdr_Values h k' @ [v] else hdr_Values h k')"
  by (auto simp: hdr_Values_def hdr_Add_def)

lemma hdr_Get_Set: "hdr_Get (hdr_Set k v h) k' =
    (if CanonicalHeaderKey k = CanonicalHeaderKey k' then v else hdr_Get h k')"
  by (simp add: hdr_Get_def hdr_Values_Set)

lemmas hdr_simps = hdr_Values_Set hdr_Values_Del hdr_Values_Add hdr_Get_Set

text \<open>Deleting a list of names.\<close>

definition hdr_DelAll :: "string list \<Rightarrow> header \<Rightarrow> header" where
  "hdr_DelAll ks h = fold hdr_Del ks h"

lemma hdr_Values_DelAll:
  "hdr_Values (hdr_DelAll ks h) k' =
    (if CanonicalHeaderKey k' \<in> CanonicalHeaderKey ` set ks then [] else hdr_Values h k')"
  unfolding hdr_DelAll_def by (induction ks arbitrary: h) (auto simp: hdr_Values_Del)

lemma hdr_Del_subset: "set (hdr_Del k h) \<subseteq> set h"
  by (simp add: hdr_Del_def delete_subset)

text \<open>\<^verbatim>\<open>for k, vs := range src { for v := range vs { dst.Add(k, v) } }\<close>\<close>

definition hdr_AddAll :: "header \<Rightarrow> header \<Rightarrow> header" where
  "hdr_AddAll src dst = fold (\<lambda>(k, vs) d. fold (hdr_Add k) vs d) src dst"

text \<open>A header as the HTTP server hands it over: one entry per name, all names canonical.\<close>

definition hdr_ok :: "header \<Rightarrow> bool" where
  "hdr_ok h \<longleftrightarrow> gomap_wf h \<and> list_all (\<lambda>k. CanonicalHeaderKey k = k) (gomap_keys h)"

lemma hdr_ok_Nil [simp, wf_intro]: "hdr_ok []"
  by (simp add: hdr_ok_def)

lemma hdr_ok_update [wf_intro]: "hdr_ok h \<Longrightarrow> CanonicalHeaderKey k = k \<Longrightarrow> hdr_ok (AList.update k v h)"
  by (auto simp: hdr_ok_def list_all_iff dom_update)

lemma hdr_ok_Set [wf_intro]: "hdr_ok h \<Longrightarrow> hdr_ok (hdr_Set k v h)"
  by (simp add: hdr_Set_def hdr_ok_update)

lemma hdr_ok_Add [wf_intro]: "hdr_ok h \<Longrightarrow> hdr_ok (hdr_Add k v h)"
  by (simp add: hdr_Add_def hdr_ok_update)

lemma hdr_ok_Del [wf_intro]: "hdr_ok h \<Longrightarrow> hdr_ok (hdr_Del k h)"
  by (fastforce simp: hdr_ok_def hdr_Del_def list_all_iff dest: subsetD [OF delete_subset])

lemma hdr_ok_DelAll [wf_intro]: "hdr_ok h \<Longrightarrow> hdr_ok (hdr_DelAll ks h)"
  unfolding hdr_DelAll_def by (induction ks arbitrary: h) (simp_all add: hdr_ok_Del)

lemma hdr_Values_AddList:
  "hdr_Values (fold (hdr_Add k) vs d) k' =
    (if CanonicalHeaderKey k = CanonicalHeaderKey k' then hdr_Values d k' @ vs else hdr_Values d k')"
  by (induction vs arbitrary: d) (auto simp: hdr_Values_Add)

lemma hdr_Values_AddAll:
  assumes "hdr_ok h"
  shows "hdr_Values (hdr_AddAll h d) k = hdr_Values d k @ hdr_Values h k"
proof -
  have "hdr_Values (fold (\<lambda>(k, vs) d. fold (hdr_Add k) vs d) h d) k' = hdr_Values d k' @
      (case map_of h (CanonicalHeaderKey k') of None \<Rightarrow> [] | Some vs \<Rightarrow> vs)" for k'
    using assms
  proof (induction h arbitrary: d)
    case (Cons x h)
    obtain n vs where x: "x = (n, vs)" by (cases x)
    have ok: "hdr_ok h" "CanonicalHeaderKey n = n" "n \<notin> fst ` set h"
      using Cons.prems x by (auto simp: hdr_ok_def list_all_iff)
    then have "map_of h n = None" by (simp add: map_of_eq_None_iff)
    with Cons.IH [OF ok(1)] x ok(2) show ?case by (auto simp: hdr_Values_AddList)
  qed simp
  then show ?thesis by (simp add: hdr_AddAll_def hdr_Values_def [of h])
qed

end
