(* ===== verification/EgressRoute.thy ===== *)
theory EgressRoute
  imports PathMatch Headers
begin

text \<open>The domain model of the egress proxy, \<^verbatim>\<open>internal/domain/egress\<close>: the route value object with
  its per-feature configurations, header manipulation, requests, responses, the default policy and
  the route resolver of \<^verbatim>\<open>internal/adapters/egress/resolver.go\<close>.\<close>

section \<open>Per-feature configurations\<close>

record EgressCBConfig =
  ecb_Threshold :: int
  ecb_ResetAfter :: duration

text \<open>A retry backoff is a string type with two named values; any other value behaves as
  exponential.\<close>

type_synonym RetryBackoff = string

abbreviation RetryBackoffExponential :: RetryBackoff where
  "RetryBackoffExponential \<equiv> ''exponential''"

abbreviation RetryBackoffFixed :: RetryBackoff where
  "RetryBackoffFixed \<equiv> ''fixed''"

record RetryConfig =
  rc_Max :: int
  rc_Methods :: "string list"
  rc_Backoff :: RetryBackoff
  rc_InitialBackoff :: duration

definition defaultIdempotentMethods :: "string list" where
  "defaultIdempotentMethods = [''GET'', ''HEAD'', ''PUT'', ''DELETE'']"

definition IsRetryableMethod :: "RetryConfig \<Rightarrow> string \<Rightarrow> bool" where
  "IsRetryableMethod r mth =
    (let upper = ToUpper mth in
     if rc_Methods r = [] then upper \<in> set defaultIdempotentMethods
     else list_ex (\<lambda>m. ToUpper m = upper) (rc_Methods r))"

record MTLSConfig =
  mtls_CertPath :: string
  mtls_KeyPath :: string
  mtls_CAPath :: string

definition mtls_IsZero :: "MTLSConfig \<Rightarrow> bool" where
  "mtls_IsZero m \<longleftrightarrow> mtls_CertPath m = [] \<and> mtls_KeyPath m = [] \<and> mtls_CAPath m = []"

record ResponseValidationConfig =
  rv_StatusCodes :: "string list"
  rv_ContentTypes :: "string list"

definition rv_IsZero :: "ResponseValidationConfig \<Rightarrow> bool" where
  "rv_IsZero v \<longleftrightarrow> rv_StatusCodes v = [] \<and> rv_ContentTypes v = []"

definition matchStatusCodeExpr :: "string \<Rightarrow> int \<Rightarrow> bool" where
  "matchStatusCodeExpr expr code =
    (if expr = ''2xx'' then 200 \<le> code \<and> code < 300
     else if expr = ''3xx'' then 300 \<le> code \<and> code < 400
     else if expr = ''4xx'' then 400 \<le> code \<and> code < 500
     else if expr = ''5xx'' then 500 \<le> code \<and> code < 600
     else case Sscanf_d expr of Some n \<Rightarrow> n = code | None \<Rightarrow> False)"

definition MatchesStatusCode :: "ResponseValidationConfig \<Rightarrow> int \<Rightarrow> bool" where
  "MatchesStatusCode v code =
    (if rv_StatusCodes v = [] then True
     else list_ex (\<lambda>e. matchStatusCodeExpr e code) (rv_StatusCodes v))"

definition mediaTypeOf :: "string \<Rightarrow> string" where
  "mediaTypeOf contentType =
    (let m = ToLower (TrimSpace contentType) in
     case CutByte CHR '';'' m of Some (before, _) \<Rightarrow> TrimSpace before | None \<Rightarrow> m)"

definition MatchesContentType :: "ResponseValidationConfig \<Rightarrow> string \<Rightarrow> bool" where
  "MatchesContentType v contentType =
    (if rv_ContentTypes v = [] then True
     else list_ex (\<lambda>allowed. ToLower (TrimSpace allowed) = mediaTypeOf contentType) (rv_ContentTypes v))"

record CacheConfig =
  cc_Enabled :: bool
  cc_TTL :: duration
  cc_MaxSize :: int

definition cc_IsZero :: "CacheConfig \<Rightarrow> bool" where
  "cc_IsZero c \<longleftrightarrow> \<not> cc_Enabled c"

record SecretConfig =
  sc_Name :: string
  sc_Header :: string
  sc_Format :: string

record SanitizeConfig =
  sz_Headers :: "string list"
  sz_QueryParams :: "string list"
  sz_BodyFields :: "string list"

definition sz_IsZero :: "SanitizeConfig \<Rightarrow> bool" where
  "sz_IsZero s \<longleftrightarrow> sz_Headers s = [] \<and> sz_QueryParams s = [] \<and> sz_BodyFields s = []"

definition RedactedHeaders :: "SanitizeConfig \<Rightarrow> string set" where
  "RedactedHeaders s = set (map ToLower (sz_Headers s))"

section \<open>Header manipulation\<close>

record HeadersConfig =
  hc_Inject :: "(string, string) gomap"
  hc_StripRequest :: "string list"
  hc_StripResponse :: "string list"

definition headerInjectSecret :: string where
  "headerInjectSecret = ''X-Inject-Secret''"

definition defaultSensitiveResponseHeaders :: "string list" where
  "defaultSensitiveResponseHeaders = [''Server'', ''X-Powered-By'']"

definition ApplyToRequest :: "HeadersConfig \<Rightarrow> header \<Rightarrow> header" where
  "ApplyToRequest c h =
    (let out1 = fold (\<lambda>(k, v). hdr_Set k v) (hc_Inject c) h;
         out2 = hdr_DelAll (hc_StripRequest c) out1 in
     hdr_Del headerInjectSecret out2)"

definition ApplyToResponse :: "HeadersConfig \<Rightarrow> header \<Rightarrow> header" where
  "ApplyToResponse c h = hdr_DelAll (hc_StripResponse c) (hdr_DelAll defaultSensitiveResponseHeaders h)"

lemma hdr_Values_inject:
  "hdr_Values (fold (\<lambda>(k, v). hdr_Set k v) kvs h) k' =
    (case List.find (\<lambda>(k, v). CanonicalHeaderKey k = CanonicalHeaderKey k') (rev kvs) of
       Some (k, v) \<Rightarrow> [v] | None \<Rightarrow> hdr_Values h k')"
proof (induction kvs arbitrary: h)
  case (Cons x kvs)
  obtain k v where x: "x = (k, v)" by (cases x)
  have "List.find P (xs @ [y]) = (case List.find P xs of Some z \<Rightarrow> Some z | None \<Rightarrow> if P y then Some y else None)"
    for P :: "string \<times> string \<Rightarrow> bool" and xs y by (induction xs) auto
  with Cons x show ?case
    by (auto simp: hdr_Values_Set split: option.splits)
qed simp

lemma hdr_ok_ApplyToRequest [wf_intro]: "hdr_ok h \<Longrightarrow> hdr_ok (ApplyToRequest c h)"
proof -
  have "hdr_ok h \<Longrightarrow> hdr_ok (fold (\<lambda>(k, v). hdr_Set k v) kvs h)" for kvs
    by (induction kvs arbitrary: h) (auto intro: hdr_ok_Set)
  then show "hdr_ok h \<Longrightarrow> hdr_ok (ApplyToRequest c h)"
    by (simp add: ApplyToRequest_def hdr_ok_Del hdr_ok_DelAll)
qed

section \<open>Routes\<close>

record RouteOptions =
  rt_methods :: "string list"
  rt_timeout :: duration
  rt_secret :: SecretConfig
  rt_headers :: HeadersConfig
  rt_rateLimit :: string
  rt_circuitBreaker :: EgressCBConfig
  rt_retry :: RetryConfig
  rt_bodySizeLimit :: int
  rt_responseSizeLimit :: int
  rt_allowInsecure :: bool
  rt_sanitize :: SanitizeConfig
  rt_mtls :: MTLSConfig
  rt_cache :: CacheConfig
  rt_validateResponse :: ResponseValidationConfig

record Route = RouteOptions +
  rt_name :: string
  rt_pattern :: string

definition zeroRouteOptions :: RouteOptions where
  "zeroRouteOptions =
    \<lparr>rt_methods = [], rt_timeout = 0, rt_secret = \<lparr>sc_Name = [], sc_Header = [], sc_Format = []\<rparr>,
     rt_headers = \<lparr>hc_Inject = [], hc_StripRequest = [], hc_StripResponse = []\<rparr>,
     rt_rateLimit = [], rt_circuitBreaker = \<lparr>ecb_Threshold = 0, ecb_ResetAfter = 0\<rparr>,
     rt_retry = \<lparr>rc_Max = 0, rc_Methods = [], rc_Backoff = [], rc_InitialBackoff = 0\<rparr>,
     rt_bodySizeLimit = 0, rt_responseSizeLimit = 0, rt_allowInsecure = False,
     rt_sanitize = \<lparr>sz_Headers = [], sz_QueryParams = [], sz_BodyFields = []\<rparr>,
     rt_mtls = \<lparr>mtls_CertPath = [], mtls_KeyPath = [], mtls_CAPath = []\<rparr>,
     rt_cache = \<lparr>cc_Enabled = False, cc_TTL = 0, cc_MaxSize = 0\<rparr>,
     rt_validateResponse = \<lparr>rv_StatusCodes = [], rv_ContentTypes = []\<rparr>\<rparr>"

type_synonym RouteOption = "RouteOptions \<Rightarrow> RouteOptions"

definition WithMethods :: "string list \<Rightarrow> RouteOption" where
  "WithMethods ms op = op\<lparr>rt_methods := ms\<rparr>"

definition WithTimeout :: "duration \<Rightarrow> RouteOption" where
  "WithTimeout d op = op\<lparr>rt_timeout := d\<rparr>"

definition WithSecret :: "SecretConfig \<Rightarrow> RouteOption" where
  "WithSecret c op = op\<lparr>rt_secret := c\<rparr>"

definition WithRateLimit :: "string \<Rightarrow> RouteOption" where
  "WithRateLimit e op = op\<lparr>rt_rateLimit := e\<rparr>"

definition WithCircuitBreaker :: "EgressCBConfig \<Rightarrow> RouteOption" where
  "WithCircuitBreaker c op = op\<lparr>rt_circuitBreaker := c\<rparr>"

definition WithRetry :: "RetryConfig \<Rightarrow> RouteOption" where
  "WithRetry c op = op\<lparr>rt_retry := c\<rparr>"

definition WithBodySizeLimit :: "int \<Rightarrow> RouteOption" where
  "WithBodySizeLimit n op = op\<lparr>rt_bodySizeLimit := n\<rparr>"

definition WithResponseSizeLimit :: "int \<Rightarrow> RouteOption" where
  "WithResponseSizeLimit n op = op\<lparr>rt_responseSizeLimit := n\<rparr>"

definition WithHeaders :: "HeadersConfig \<Rightarrow> RouteOption" where
  "WithHeaders c op = op\<lparr>rt_headers := c\<rparr>"

definition WithAllowInsecure :: "bool \<Rightarrow> RouteOption" where
  "WithAllowInsecure b op = op\<lparr>rt_allowInsecure := b\<rparr>"

definition WithSanitize :: "SanitizeConfig \<Rightarrow> RouteOption" where
  "WithSanitize c op = op\<lparr>rt_sanitize := c\<rparr>"

definition WithMTLS :: "MTLSConfig \<Rightarrow> RouteOption" where
  "WithMTLS c op = op\<lparr>rt_mtls := c\<rparr>"

definition WithCache :: "CacheConfig \<Rightarrow> RouteOption" where
  "WithCache c op = op\<lparr>rt_cache := c\<rparr>"

definition WithValidateResponse :: "ResponseValidationConfig \<Rightarrow> RouteOption" where
  "WithValidateResponse c op = op\<lparr>rt_validateResponse := c\<rparr>"

datatype route_error = RouteNameEmpty | RoutePatternEmpty | RouteGlobInvalid | RouteSchemeMissing

definition validatePattern :: "string \<Rightarrow> route_error option" where
  "validatePattern pat =
    (if path_Match pat [] = None then Some RouteGlobInvalid
     else if \<not> prefix ''http://'' pat \<and> \<not> prefix ''https://'' pat then Some RouteSchemeMissing
     else None)"

definition NewRoute :: "string \<Rightarrow> string \<Rightarrow> RouteOption list \<Rightarrow> route_error + Route" where
  "NewRoute name pat opts =
    (if name = [] then Inl RouteNameEmpty
     else if pat = [] then Inl RoutePatternEmpty
     else case validatePattern pat of
       Some e \<Rightarrow> Inl e
     | None \<Rightarrow> Inr (RouteOptions.extend (fold (\<lambda>opt. opt) opts zeroRouteOptions) (Route.fields name pat)))"

definition MatchesMethod :: "Route \<Rightarrow> string \<Rightarrow> bool" where
  "MatchesMethod r mth =
    (if rt_methods r = [] then True
     else list_ex (\<lambda>m. ToUpper m = ToUpper mth) (rt_methods r))"

definition MatchesURL :: "Route \<Rightarrow> string \<Rightarrow> bool" where
  "MatchesURL r rawURL = (case path_Match (rt_pattern r) rawURL of None \<Rightarrow> False | Some b \<Rightarrow> b)"

section \<open>Policy, requests, responses, resolution\<close>

type_synonym Policy = string

abbreviation PolicyAllow :: Policy where "PolicyAllow \<equiv> ''allow''"
abbreviation PolicyDeny :: Policy where "PolicyDeny \<equiv> ''deny''"

datatype policy_err = PolicyEmpty | PolicyUnknown

definition policy_Validate :: "Policy \<Rightarrow> policy_err option" where
  "policy_Validate p =
    (if p = PolicyAllow \<or> p = PolicyDeny then None
     else if p = [] then Some PolicyEmpty else Some PolicyUnknown)"

text \<open>A body stream is the bytes left to read on it and how reading then ends: with the end of the
  stream, with an error, or with the error of the request body limit. \<^const>\<open>None\<close> is a nil
  reference.\<close>

datatype body_end = EndEOF | EndError | EndTooLarge

record Body =
  bd_data :: string
  bd_end :: body_end

text \<open>\<^verbatim>\<open>io.ReadAll\<close>, and \<^verbatim>\<open>io.ReadAll(io.LimitReader(r, n))\<close>, which never looks past \<open>n\<close> bytes: the
  bytes read and how the read ended.\<close>

definition ReadAll :: "Body \<Rightarrow> string \<times> body_end" where
  "ReadAll b = (bd_data b, bd_end b)"

definition ReadAllLimit :: "nat \<Rightarrow> Body \<Rightarrow> string \<times> body_end" where
  "ReadAllLimit n b = (take n (bd_data b), if length (bd_data b) < n then bd_end b else EndEOF)"

definition NewReader :: "string \<Rightarrow> Body" where
  "NewReader s = \<lparr>bd_data = s, bd_end = EndEOF\<rparr>"

record EgressRequest =
  er_Method :: string
  er_URL :: string
  er_Header :: header
  er_Body :: "Body option"

record EgressResponse =
  es_Status :: int
  es_Header :: header
  es_Body :: "Body option"
  es_Attempts :: int

datatype egress_value_error = EmptyMethod | EmptyURL | BadStatusCode

definition NewEgressRequest ::
    "string \<Rightarrow> string \<Rightarrow> header \<Rightarrow> Body option \<Rightarrow> egress_value_error + EgressRequest" where
  "NewEgressRequest mth rawURL h body =
    (if mth = [] then Inl EmptyMethod
     else if rawURL = [] then Inl EmptyURL
     else Inr \<lparr>er_Method = mth, er_URL = rawURL, er_Header = h, er_Body = body\<rparr>)"

definition NewEgressResponse ::
    "int \<Rightarrow> header \<Rightarrow> Body option \<Rightarrow> egress_value_error + EgressResponse" where
  "NewEgressResponse st h body =
    (if st < 100 \<or> 599 < st then Inl BadStatusCode
     else Inr \<lparr>es_Status = st, es_Header = h, es_Body = body, es_Attempts = 0\<rparr>)"

text \<open>\<^verbatim>\<open>RouteMatch\<close>: the matched route, or none.\<close>

record RouteMatch =
  rm_Request :: EgressRequest
  rm_Route :: "Route option"

definition NewRouteMatch :: "EgressRequest \<Rightarrow> Route \<Rightarrow> RouteMatch" where
  "NewRouteMatch req r = \<lparr>rm_Request = req, rm_Route = Some r\<rparr>"

definition NewUnmatchedRouteMatch :: "EgressRequest \<Rightarrow> RouteMatch" where
  "NewUnmatchedRouteMatch req = \<lparr>rm_Request = req, rm_Route = None\<rparr>"

fun Resolve :: "Route list \<Rightarrow> EgressRequest \<Rightarrow> RouteMatch" where
  "Resolve [] req = NewUnmatchedRouteMatch req"
| "Resolve (r # rs) req =
    (if MatchesURL r (er_URL req) \<and> MatchesMethod r (er_Method req) then NewRouteMatch req r
     else Resolve rs req)"

section \<open>Properties\<close>

lemma NewRoute_fields:
  "NewRoute name pat opts = Inr r \<Longrightarrow> rt_name r = name \<and> rt_pattern r = pat \<and> validatePattern pat = None"
  by (auto simp: NewRoute_def RouteOptions.defs Route.defs split: if_splits option.splits)

lemma Resolve_find:
  "Resolve rs req = \<lparr>rm_Request = req,
     rm_Route = List.find (\<lambda>r. MatchesURL r (er_URL req) \<and> MatchesMethod r (er_Method req)) rs\<rparr>"
  by (induction rs) (auto simp: NewUnmatchedRouteMatch_def NewRouteMatch_def)

text \<open>A route that \<^verbatim>\<open>NewRoute\<close> accepts never reports a malformed pattern at match time: checking
  the pattern against the empty string finds every syntax error that any URL could run into.\<close>

theorem route_pattern_always_valid:
  assumes "NewRoute name pat opts = Inr r"
  shows "path_Match (rt_pattern r) url \<noteq> None"
proof -
  from NewRoute_fields [OF assms] have "rt_pattern r = pat" "path_Match pat [] \<noteq> None"
    by (auto simp: validatePattern_def split: if_splits)
  then show ?thesis using path_Match_valid by blast
qed

theorem route_pattern_always_valid_witness:
  "path_Match (rt_pattern (projr (NewRoute ''stripe'' ''https://api.stripe.com/*'' [])))
     ''https://api.stripe.com/v1'' \<noteq> None"
proof -
  have "path_Match (''https://api.stripe.com/'' @ ''*'') [] \<noteq> None"
    by (subst path_Match_literal_star) simp_all
  then have "validatePattern ''https://api.stripe.com/*'' = None" by (simp add: validatePattern_def)
  then show ?thesis
    by (intro route_pattern_always_valid [of "''stripe''" "''https://api.stripe.com/*''" "[]"])
       (simp add: NewRoute_def)
qed

text \<open>A route whose pattern is literal text followed by one star admits exactly the URLs that
  start with that text and go on without a slash, so the scheme, host and path prefix of an admitted
  request are those of the pattern.\<close>

theorem route_literal_star_scope:
  assumes "plain lit" "NewRoute name (lit @ ''*'') opts = Inr r"
  shows "MatchesURL r url \<longleftrightarrow> prefix lit url \<and> CHR ''/'' \<notin> set (drop (length lit) url)"
proof -
  from NewRoute_fields [OF assms(2)] have pat: "rt_pattern r = lit @ ''*''"
    and "validatePattern (lit @ ''*'') = None" by auto
  then have "lit \<noteq> []" by (cases lit) (auto simp: validatePattern_def split: if_splits)
  with pat path_Match_literal_star [OF assms(1)] show ?thesis by (simp add: MatchesURL_def)
qed

theorem route_literal_star_scope_witness:
  "\<not> MatchesURL (projr (NewRoute ''stripe'' ''https://api.stripe.com/*'' [])) ''https://api.stripe.com/v1/charges''"
proof -
  have "path_Match (''https://api.stripe.com/'' @ ''*'') [] \<noteq> None"
    by (subst path_Match_literal_star) simp_all
  then have "validatePattern ''https://api.stripe.com/*'' = None" by (simp add: validatePattern_def)
  then have "NewRoute ''stripe'' (''https://api.stripe.com/'' @ ''*'') []
      = Inr (projr (NewRoute ''stripe'' ''https://api.stripe.com/*'' []))"
    by (simp add: NewRoute_def)
  from route_literal_star_scope [OF _ this, of "''https://api.stripe.com/v1/charges''"]
  show ?thesis by simp
qed

text \<open>Resolution is first match in declaration order: the resolver picks a route exactly when it
  is the first whose pattern and method constraints both hold, and reports no match exactly when
  there is none.\<close>

theorem resolve_first_match:
  "(rm_Route (Resolve rs req) = Some r \<longleftrightarrow>
     (\<exists>i<length rs. rs ! i = r \<and> MatchesURL r (er_URL req) \<and> MatchesMethod r (er_Method req) \<and>
        (\<forall>j<i. \<not> (MatchesURL (rs ! j) (er_URL req) \<and> MatchesMethod (rs ! j) (er_Method req))))) \<and>
   (rm_Route (Resolve rs req) = None \<longleftrightarrow>
     (\<forall>r\<in>set rs. \<not> (MatchesURL r (er_URL req) \<and> MatchesMethod r (er_Method req))))"
  by (auto simp: Resolve_find find_Some_iff find_None_iff)

theorem resolve_first_match_witness:
  "let r1 = projr (NewRoute ''a'' ''https://h/*'' [WithMethods [''POST'']]);
       r2 = projr (NewRoute ''b'' ''https://h/*'' []);
       req = \<lparr>er_Method = ''GET'', er_URL = ''https://h/x'', er_Header = [], er_Body = None\<rparr> in
   rm_Route (Resolve [r1, r2] req) = Some r2"
proof -
  let ?r1 = "projr (NewRoute ''a'' ''https://h/*'' [WithMethods [''POST'']])"
  let ?r2 = "projr (NewRoute ''b'' ''https://h/*'' [])"
  let ?req = "\<lparr>er_Method = ''GET'', er_URL = ''https://h/x'', er_Header = [], er_Body = None\<rparr>"
  have m: "path_Match ''https://h/*'' s = Some (prefix ''https://h/'' s \<and> CHR ''/'' \<notin> set (drop (length ''https://h/'') s))" for s
    using path_Match_literal_star [of "''https://h/''" s] by simp
  then have ok: "validatePattern ''https://h/*'' = None" by (simp add: validatePattern_def)
  have r1: "rt_pattern ?r1 = ''https://h/*''" "rt_methods ?r1 = [''POST'']"
    using ok by (simp_all add: NewRoute_def WithMethods_def zeroRouteOptions_def RouteOptions.defs Route.defs)
  have r2: "rt_pattern ?r2 = ''https://h/*''" "rt_methods ?r2 = []"
    using ok by (simp_all add: NewRoute_def zeroRouteOptions_def RouteOptions.defs Route.defs)
  have "\<not> MatchesMethod ?r1 ''GET''"
    using r1 by (simp add: MatchesMethod_def ToUpper_def upper_char_def)
  moreover have "MatchesURL ?r2 ''https://h/x'' \<and> MatchesMethod ?r2 ''GET''"
    using r2 m by (simp add: MatchesURL_def MatchesMethod_def)
  ultimately have "\<exists>i<length [?r1, ?r2]. [?r1, ?r2] ! i = ?r2 \<and> MatchesURL ?r2 (er_URL ?req) \<and>
      MatchesMethod ?r2 (er_Method ?req) \<and>
      (\<forall>j<i. \<not> (MatchesURL ([?r1, ?r2] ! j) (er_URL ?req) \<and> MatchesMethod ([?r1, ?r2] ! j) (er_Method ?req)))"
    by (intro exI [of _ 1]) simp
  with resolve_first_match [of "[?r1, ?r2]" ?req ?r2] show ?thesis by (simp only: Let_def simp_thms)
qed

text \<open>The outbound header of a matched request, name by name: the dynamic secret header and every
  name the route strips are gone, whatever their case and even when the route also injects them;
  otherwise an injected name carries exactly its configured value; every other name keeps the values
  the application sent.\<close>

theorem apply_to_request_values:
  "hdr_Values (ApplyToRequest c h) k =
    (if CanonicalHeaderKey k = CanonicalHeaderKey headerInjectSecret \<or>
        CanonicalHeaderKey k \<in> CanonicalHeaderKey ` set (hc_StripRequest c) then []
     else case List.find (\<lambda>(k', v). CanonicalHeaderKey k' = CanonicalHeaderKey k) (rev (hc_Inject c)) of
            Some (k', v) \<Rightarrow> [v]
          | None \<Rightarrow> hdr_Values h k)"
  by (auto simp: ApplyToRequest_def hdr_Values_Del hdr_Values_DelAll hdr_Values_inject)

lemma apply_to_response_values:
  "hdr_Values (ApplyToResponse c h) k =
    (if CanonicalHeaderKey k \<in> CanonicalHeaderKey ` (set (hc_StripResponse c) \<union> {''Server'', ''X-Powered-By''})
     then [] else hdr_Values h k)"
  by (auto simp: ApplyToResponse_def hdr_Values_DelAll defaultSensitiveResponseHeaders_def)

end
