(* ===== verification/EgressBreakers.thy ===== *)
theory EgressBreakers
  imports CircuitBreaker EgressRoute
begin

text \<open>The per-route circuit breakers of the egress proxy,
  \<^verbatim>\<open>internal/adapters/egress/circuit_breakers.go\<close>: a registry of domain breakers keyed by route name,
  created on first use.\<close>

section \<open>The registry\<close>

record circuitBreakerEntry =
  ce_cb :: CircuitBreaker
  ce_routeName :: string
  ce_cfg :: CircuitBreakerConfig

type_synonym registry = "(string, circuitBreakerEntry) gomap"

definition NewCircuitBreakerRegistry :: registry where
  "NewCircuitBreakerRegistry = []"

text \<open>The result is the entry, if the route has a breaker, and the registry; the error of the
  constructor is passed on.\<close>

definition reg_getOrCreate :: "Route \<Rightarrow> registry \<Rightarrow> cb_error + circuitBreakerEntry option \<times> registry" where
  "reg_getOrCreate r g =
    (let c = rt_circuitBreaker r in
     if ecb_Threshold c \<le> 0 \<or> ecb_ResetAfter c \<le> 0 then Inr (None, g)
     else case map_of g (rt_name r) of
       Some e \<Rightarrow> Inr (Some e, g)
     | None \<Rightarrow>
         let domainCfg = \<lparr>cbc_Threshold = ecb_Threshold c, cbc_Timeout = ecb_ResetAfter c\<rparr> in
         (case NewCircuitBreaker domainCfg of
            Inl e \<Rightarrow> Inl e
          | Inr cb \<Rightarrow>
              let entry = \<lparr>ce_cb = cb, ce_routeName = rt_name r, ce_cfg = domainCfg\<rparr> in
              Inr (Some entry, AList.update (rt_name r) entry g)))"

text \<open>The entries are pointers, so a method call on an entry updates the entry the registry holds.\<close>

definition reg_IsOpen :: "instant \<Rightarrow> Route \<Rightarrow> registry \<Rightarrow> (cb_error + bool) \<times> registry" where
  "reg_IsOpen now r g =
    (case reg_getOrCreate r g of
       Inl e \<Rightarrow> (Inl e, g)
     | Inr (None, g1) \<Rightarrow> (Inr False, g1)
     | Inr (Some e, g1) \<Rightarrow>
         (let (isopen, cb') = cb_IsOpen now (ce_cb e) in
          (Inr isopen, AList.update (rt_name r) (e\<lparr>ce_cb := cb'\<rparr>) g1)))"

datatype reg_event = EgressCBClosed string | EgressCBOpened string int duration

definition reg_RecordSuccess :: "Route \<Rightarrow> registry \<Rightarrow> reg_event list \<times> registry" where
  "reg_RecordSuccess r g =
    (case reg_getOrCreate r g of
       Inl e \<Rightarrow> ([], g)
     | Inr (None, g1) \<Rightarrow> ([], g1)
     | Inr (Some e, g1) \<Rightarrow>
         (let (previous, cb') = cb_RecordSuccess (ce_cb e);
              g2 = AList.update (rt_name r) (e\<lparr>ce_cb := cb'\<rparr>) g1 in
          (if previous = StateHalfOpen then [EgressCBClosed (rt_name r)] else [], g2)))"

definition reg_RecordFailure :: "instant \<Rightarrow> Route \<Rightarrow> registry \<Rightarrow> reg_event list \<times> registry" where
  "reg_RecordFailure now r g =
    (case reg_getOrCreate r g of
       Inl e \<Rightarrow> ([], g)
     | Inr (None, g1) \<Rightarrow> ([], g1)
     | Inr (Some e, g1) \<Rightarrow>
         (let ((_, transitioned), cb') = cb_RecordFailure now (ce_cb e);
              g2 = AList.update (rt_name r) (e\<lparr>ce_cb := cb'\<rparr>) g1 in
          (if transitioned
           then [EgressCBOpened (rt_name r) (cbc_Threshold (ce_cfg e)) (cbc_Timeout (ce_cfg e))] else [], g2)))"

lemmas reg_defs = reg_IsOpen_def reg_RecordSuccess_def reg_RecordFailure_def reg_getOrCreate_def

section \<open>Abstraction: one breaker per route\<close>

definition has_breaker :: "Route \<Rightarrow> bool" where
  "has_breaker r \<longleftrightarrow> 0 < ecb_Threshold (rt_circuitBreaker r) \<and> 0 < ecb_ResetAfter (rt_circuitBreaker r)"

definition fresh_breaker :: "Route \<Rightarrow> CircuitBreaker" where
  "fresh_breaker r =
    \<lparr>cb_cfg = \<lparr>cbc_Threshold = ecb_Threshold (rt_circuitBreaker r), cbc_Timeout = ecb_ResetAfter (rt_circuitBreaker r)\<rparr>,
     cb_st = StateClosed, cb_failures = 0, cb_openedAt = 0\<rparr>"

definition reg_breaker :: "registry \<Rightarrow> Route \<Rightarrow> CircuitBreaker" where
  "reg_breaker g r = (case map_of g (rt_name r) of Some e \<Rightarrow> ce_cb e | None \<Rightarrow> fresh_breaker r)"

lemma reg_getOrCreate_none: "\<not> has_breaker r \<Longrightarrow> reg_getOrCreate r g = Inr (None, g)"
  by (auto simp: reg_getOrCreate_def has_breaker_def Let_def)

lemma reg_getOrCreate_some:
  assumes "has_breaker r"
  obtains e g1 where "reg_getOrCreate r g = Inr (Some e, g1)" "ce_cb e = reg_breaker g r"
    "\<And>n. n \<noteq> rt_name r \<Longrightarrow> map_of g1 n = map_of g n"
proof (cases "map_of g (rt_name r)")
  case None
  have "reg_getOrCreate r g =
      Inr (Some \<lparr>ce_cb = fresh_breaker r, ce_routeName = rt_name r, ce_cfg = cb_cfg (fresh_breaker r)\<rparr>,
           AList.update (rt_name r) \<lparr>ce_cb = fresh_breaker r, ce_routeName = rt_name r, ce_cfg = cb_cfg (fresh_breaker r)\<rparr> g)"
    using assms None
    by (simp add: reg_getOrCreate_def has_breaker_def NewCircuitBreaker_def cb_Validate_def fresh_breaker_def Let_def)
  then show thesis by (rule that) (simp_all add: reg_breaker_def None)
next
  case (Some e)
  then have "reg_getOrCreate r g = Inr (Some e, g)"
    using assms by (simp add: reg_getOrCreate_def has_breaker_def Let_def)
  then show thesis by (rule that) (simp_all add: reg_breaker_def Some)
qed

text \<open>Each registry operation is the domain operation on the route's own breaker, creates it when
  needed, and touches no other route.\<close>

lemma reg_IsOpen_breaker:
  assumes "has_breaker r"
  shows "fst (reg_IsOpen now r g) = Inr (fst (cb_IsOpen now (reg_breaker g r)))"
    and "reg_breaker (snd (reg_IsOpen now r g)) r = snd (cb_IsOpen now (reg_breaker g r))"
    and "rt_name r' \<noteq> rt_name r \<Longrightarrow> reg_breaker (snd (reg_IsOpen now r g)) r' = reg_breaker g r'"
  by (rule reg_getOrCreate_some [OF assms, of g];
      simp add: reg_IsOpen_def split_def reg_breaker_def Let_def)+

lemma reg_RecordSuccess_breaker:
  assumes "has_breaker r"
  shows "reg_breaker (snd (reg_RecordSuccess r g)) r = snd (cb_RecordSuccess (reg_breaker g r))"
    and "rt_name r' \<noteq> rt_name r \<Longrightarrow> reg_breaker (snd (reg_RecordSuccess r g)) r' = reg_breaker g r'"
  by (rule reg_getOrCreate_some [OF assms, of g];
      simp add: reg_RecordSuccess_def split_def reg_breaker_def Let_def)+

lemma reg_RecordFailure_breaker:
  assumes "has_breaker r"
  shows "reg_breaker (snd (reg_RecordFailure now r g)) r = snd (cb_RecordFailure now (reg_breaker g r))"
    and "rt_name r' \<noteq> rt_name r \<Longrightarrow> reg_breaker (snd (reg_RecordFailure now r g)) r' = reg_breaker g r'"
  by (rule reg_getOrCreate_some [OF assms, of g];
      simp add: reg_RecordFailure_def split_def reg_breaker_def Let_def)+

lemma reg_no_breaker:
  assumes "\<not> has_breaker r"
  shows "reg_IsOpen now r g = (Inr False, g)" "reg_RecordSuccess r g = ([], g)" "reg_RecordFailure now r g = ([], g)"
  using reg_getOrCreate_none [OF assms] by (simp_all add: reg_IsOpen_def reg_RecordSuccess_def reg_RecordFailure_def)

text \<open>A history of calls on the registry, each for a route.\<close>

fun reg_step :: "Route \<times> cb_call \<Rightarrow> registry \<Rightarrow> registry" where
  "reg_step (r, CallIsOpen t) g = snd (reg_IsOpen t r g)"
| "reg_step (r, CallSuccess) g = snd (reg_RecordSuccess r g)"
| "reg_step (r, CallFailure t) g = snd (reg_RecordFailure t r g)"

definition reg_run :: "(Route \<times> cb_call) list \<Rightarrow> registry \<Rightarrow> registry" where
  "reg_run cs g = fold reg_step cs g"

lemma reg_step_breaker:
  assumes "has_breaker r" "rt_name r' = rt_name r \<Longrightarrow> r' = r"
  shows "reg_breaker (reg_step (r', c) g) r = (if r' = r then cb_step c (reg_breaker g r) else reg_breaker g r)"
proof (cases "has_breaker r'")
  case True
  show ?thesis
  proof (cases "r' = r")
    case True
    with assms(1) show ?thesis
      by (cases c) (simp_all add: reg_IsOpen_breaker reg_RecordSuccess_breaker reg_RecordFailure_breaker)
  next
    case False
    with assms(2) have "rt_name r \<noteq> rt_name r'" by auto
    with True False show ?thesis
      by (cases c) (simp_all add: reg_IsOpen_breaker reg_RecordSuccess_breaker reg_RecordFailure_breaker)
  qed
next
  case False
  with assms show ?thesis by (cases c) (auto simp: reg_no_breaker)
qed

definition calls_for :: "Route \<Rightarrow> (Route \<times> cb_call) list \<Rightarrow> cb_call list" where
  "calls_for r cs = map snd (filter (\<lambda>(r', c). r' = r) cs)"

lemma reg_run_breaker:
  assumes "has_breaker r" "\<And>r' c. (r', c) \<in> set cs \<Longrightarrow> rt_name r' = rt_name r \<Longrightarrow> r' = r"
  shows "reg_breaker (reg_run cs g) r = cb_run (calls_for r cs) (reg_breaker g r)"
  using assms(2)
proof (induction cs arbitrary: g)
  case Nil
  then show ?case by (simp add: reg_run_def calls_for_def)
next
  case (Cons x cs)
  obtain r' c where x: "x = (r', c)" by (cases x)
  with Cons.prems have "rt_name r' = rt_name r \<Longrightarrow> r' = r" by auto
  note step = reg_step_breaker [OF assms(1) this, of c g]
  have "reg_breaker (reg_run cs (reg_step x g)) r = cb_run (calls_for r cs) (reg_breaker (reg_step x g) r)"
    using Cons.prems by (intro Cons.IH) auto
  with step x show ?case by (simp add: reg_run_def calls_for_def)
qed

section \<open>Properties\<close>

text \<open>C5: The registry refines one independent breaker per route: after any interleaving of calls for
  any routes (distinct routes having distinct names), the breaker of a route is the domain breaker
  run on that route's own calls, and the admission decision is that breaker's.\<close>

theorem registry_refines_breakers:
  assumes "has_breaker r" "\<And>r' c. (r', c) \<in> set cs \<Longrightarrow> rt_name r' = rt_name r \<Longrightarrow> r' = r"
  shows "fst (reg_IsOpen now r (reg_run cs NewCircuitBreakerRegistry))
    = Inr (fst (cb_IsOpen now (cb_run (calls_for r cs) (fresh_breaker r))))"
proof -
  have "reg_breaker NewCircuitBreakerRegistry r = fresh_breaker r"
    by (simp add: reg_breaker_def NewCircuitBreakerRegistry_def)
  with reg_run_breaker [OF assms, where g = NewCircuitBreakerRegistry] reg_IsOpen_breaker(1) [OF assms(1)]
  show ?thesis by simp
qed

definition sample_route :: "string \<Rightarrow> int \<Rightarrow> Route" where
  "sample_route n th = RouteOptions.extend
     (zeroRouteOptions\<lparr>rt_circuitBreaker := \<lparr>ecb_Threshold = th, ecb_ResetAfter = 5\<rparr>\<rparr>) (Route.fields n ''https://h/'')"

theorem registry_refines_breakers_witness:
  "let r = sample_route ''a'' 1; r2 = sample_route ''b'' 2 in
   fst (reg_IsOpen 12 r (reg_run [(r2, CallFailure 9), (r, CallFailure 10), (r2, CallSuccess)] NewCircuitBreakerRegistry))
   = Inr True"
proof -
  let ?r = "sample_route ''a'' 1" and ?r2 = "sample_route ''b'' 2"
  let ?cs = "[(?r2, CallFailure 9), (?r, CallFailure 10), (?r2, CallSuccess)]"
  have n: "rt_name ?r = ''a''" "rt_name ?r2 = ''b''" "has_breaker ?r"
    by (simp_all add: sample_route_def RouteOptions.defs Route.defs zeroRouteOptions_def has_breaker_def)
  then have names: "rt_name ?r2 \<noteq> rt_name ?r" by simp
  have ne: "?r2 \<noteq> ?r"
  proof
    assume "?r2 = ?r"
    with names show False by (simp only: simp_thms)
  qed
  have c: "calls_for ?r ?cs = [CallFailure 10]" using ne by (simp only: calls_for_def filter.simps split list.map snd_conv simp_thms if_True if_False)
  have "fst (reg_IsOpen 12 ?r (reg_run ?cs NewCircuitBreakerRegistry))
      = Inr (fst (cb_IsOpen 12 (cb_run (calls_for ?r ?cs) (fresh_breaker ?r))))"
  proof (rule registry_refines_breakers [OF n(3)])
    fix r' c assume "(r', c) \<in> set ?cs" "rt_name r' = rt_name ?r"
    then have "r' = ?r2 \<or> r' = ?r" by (simp only: set_simps insert_iff prod.inject) blast
    with \<open>rt_name r' = rt_name ?r\<close> names show "r' = ?r" by (elim disjE) (simp_all only: simp_thms)
  qed
  then show ?thesis
    unfolding Let_def c
    by (simp add: cb_ops_defs fresh_breaker_def sample_route_def RouteOptions.defs Route.defs zeroRouteOptions_def)
qed

end
