(* ===== verification/EgressCache.thy ===== *)
theory EgressCache
  imports EgressRoute
begin

text \<open>The in-memory response cache of the egress proxy: \<^verbatim>\<open>internal/adapters/egress/cache.go\<close> (a least
  recently used cache with a lifetime per entry) and \<^verbatim>\<open>cache_registry.go\<close> (one cache per route).
  The cache keeps a map from keys to list elements beside a doubly linked list; an element is its
  address and the entry it holds.\<close>

section \<open>Entries\<close>

type_synonym cacheKey = "string \<times> string"

record CacheEntry =
  en_key :: cacheKey
  en_Status :: int
  en_Header :: header
  en_Body :: string
  en_ExpiresAt :: instant

definition NewCacheEntry :: "string \<Rightarrow> string \<Rightarrow> int \<Rightarrow> instant \<Rightarrow> CacheEntry" where
  "NewCacheEntry mth url st ex =
    \<lparr>en_key = (mth, url), en_Status = st, en_Header = [], en_Body = [], en_ExpiresAt = ex\<rparr>"

definition isExpired :: "CacheEntry \<Rightarrow> instant \<Rightarrow> bool" where
  "isExpired e now \<longleftrightarrow> (if is_zero_time (en_ExpiresAt e) then False else en_ExpiresAt e < now)"

section \<open>The cache\<close>

type_synonym element = "nat \<times> CacheEntry"

record ResponseCache =
  ca_maxEntries :: nat
  ca_items :: "(cacheKey, element) gomap"
  ca_lru :: "element list"
  ca_next :: nat

definition NewResponseCache :: "int \<Rightarrow> ResponseCache" where
  "NewResponseCache n =
    \<lparr>ca_maxEntries = (if n \<le> 0 then 1 else nat n), ca_items = [], ca_lru = [], ca_next = 0\<rparr>"

definition lru_Remove :: "element \<Rightarrow> element list \<Rightarrow> element list" where
  "lru_Remove el l = filter (\<lambda>x. fst x \<noteq> fst el) l"

definition lru_MoveToFront :: "element \<Rightarrow> element list \<Rightarrow> element list" where
  "lru_MoveToFront el l = el # lru_Remove el l"

definition ca_Get :: "string \<Rightarrow> string \<Rightarrow> instant \<Rightarrow> ResponseCache \<Rightarrow> CacheEntry option \<times> ResponseCache" where
  "ca_Get mth url now c =
    (let k = (mth, url) in
     case map_of (ca_items c) k of
       None \<Rightarrow> (None, c)
     | Some el \<Rightarrow>
         let entry = snd el in
         if isExpired entry now
         then (None, c\<lparr>ca_lru := lru_Remove el (ca_lru c), ca_items := AList.delete k (ca_items c)\<rparr>)
         else (Some entry, c\<lparr>ca_lru := lru_MoveToFront el (ca_lru c)\<rparr>))"

text \<open>The eviction loop of \<^verbatim>\<open>Set\<close>.\<close>

function ca_evict :: "ResponseCache \<Rightarrow> ResponseCache" where
  "ca_evict c =
    (if length (ca_lru c) < ca_maxEntries c then c
     else if ca_lru c = [] then c
     else let oldest = last (ca_lru c) in
       ca_evict (c\<lparr>ca_lru := lru_Remove oldest (ca_lru c),
                   ca_items := AList.delete (en_key (snd oldest)) (ca_items c)\<rparr>))"
  by pat_completeness auto
termination
proof (relation "measure (\<lambda>c. length (ca_lru c))", goal_cases)
  case (2 c oldest)
  then have "oldest \<in> set (ca_lru c)" by simp
  then have "length (lru_Remove oldest (ca_lru c)) < length (ca_lru c)"
    unfolding lru_Remove_def by (intro length_filter_less) auto
  then show ?case by simp
qed simp

declare ca_evict.simps [simp del]

definition ca_Set :: "CacheEntry \<Rightarrow> ResponseCache \<Rightarrow> ResponseCache" where
  "ca_Set entry c =
    (let c1 = (case map_of (ca_items c) (en_key entry) of
                 Some el \<Rightarrow> c\<lparr>ca_lru := lru_Remove el (ca_lru c),
                              ca_items := AList.delete (en_key entry) (ca_items c)\<rparr>
               | None \<Rightarrow> c);
         c2 = ca_evict c1;
         el = (ca_next c2, entry) in
     c2\<lparr>ca_lru := el # ca_lru c2, ca_items := AList.update (en_key entry) el (ca_items c2),
        ca_next := Suc (ca_next c2)\<rparr>)"

definition ca_Len :: "ResponseCache \<Rightarrow> nat" where
  "ca_Len c = length (ca_lru c)"

section \<open>Invariant and abstraction\<close>

text \<open>The map and the list hold the same elements, one per key, with distinct addresses, and there
  are at most \<^verbatim>\<open>maxEntries\<close> of them. The abstraction forgets the map and the addresses.\<close>

definition ca_consistent :: "ResponseCache \<Rightarrow> bool" where
  "ca_consistent c \<longleftrightarrow>
     distinct (map fst (ca_lru c)) \<and> distinct (map (en_key \<circ> snd) (ca_lru c)) \<and>
     (\<forall>el\<in>set (ca_lru c). fst el < ca_next c) \<and>
     (\<forall>k. map_of (ca_items c) k = List.find (\<lambda>el. en_key (snd el) = k) (ca_lru c))"

definition ca_wf :: "ResponseCache \<Rightarrow> bool" where
  "ca_wf c \<longleftrightarrow> ca_consistent c \<and> length (ca_lru c) \<le> ca_maxEntries c \<and> 0 < ca_maxEntries c"

definition ca_abs :: "ResponseCache \<Rightarrow> CacheEntry list" where
  "ca_abs c = map snd (ca_lru c)"

text \<open>The abstract cache: the entries, most recently used first.\<close>

definition drop_key :: "cacheKey \<Rightarrow> CacheEntry list \<Rightarrow> CacheEntry list" where
  "drop_key k es = filter (\<lambda>e. en_key e \<noteq> k) es"

definition spec_Get :: "cacheKey \<Rightarrow> instant \<Rightarrow> CacheEntry list \<Rightarrow> CacheEntry option \<times> CacheEntry list" where
  "spec_Get k now es =
    (case List.find (\<lambda>e. en_key e = k) es of
       None \<Rightarrow> (None, es)
     | Some e \<Rightarrow> if isExpired e now then (None, drop_key k es) else (Some e, e # drop_key k es))"

definition spec_Set :: "nat \<Rightarrow> CacheEntry \<Rightarrow> CacheEntry list \<Rightarrow> CacheEntry list" where
  "spec_Set n e es = take n (e # drop_key (en_key e) es)"

lemma ca_consistent_new: "ca_wf (NewResponseCache n)"
  by (simp add: ca_wf_def ca_consistent_def NewResponseCache_def)

lemma ca_find_abs: "List.find (\<lambda>e. en_key e = k) (map snd l) = map_option snd (List.find (\<lambda>el. en_key (snd el) = k) l)"
  by (induction l) auto

lemma lru_Remove_key:
  assumes "distinct (map fst l)" "distinct (map (en_key \<circ> snd) l)" "el \<in> set l"
  shows "lru_Remove el l = filter (\<lambda>x. en_key (snd x) \<noteq> en_key (snd el)) l"
  unfolding lru_Remove_def using assms
  by (intro filter_cong refl) (metis comp_apply distinct_map inj_onD)

lemma find_filter_key:
  "List.find (\<lambda>el. en_key (snd el) = k) (filter (\<lambda>x. en_key (snd x) \<noteq> k') l) =
     (if k = k' then None else List.find (\<lambda>el. en_key (snd el) = k) l)"
  by (induction l) auto

lemma distinct_map_filter: "distinct (map f l) \<Longrightarrow> distinct (map f (filter P l))"
  by (induction l) auto

lemma ca_delete_consistent:
  assumes "ca_consistent c" "el \<in> set (ca_lru c)"
  shows "ca_consistent (c\<lparr>ca_lru := lru_Remove el (ca_lru c),
           ca_items := AList.delete (en_key (snd el)) (ca_items c)\<rparr>)"
proof -
  have r: "lru_Remove el (ca_lru c) = filter (\<lambda>x. en_key (snd x) \<noteq> en_key (snd el)) (ca_lru c)"
    using assms by (intro lru_Remove_key) (auto simp: ca_consistent_def)
  show ?thesis
    using assms(1) by (auto simp: ca_consistent_def r find_filter_key distinct_map_filter)
qed

lemma ca_lookup:
  "ca_consistent c \<Longrightarrow> map_of (ca_items c) k = List.find (\<lambda>el. en_key (snd el) = k) (ca_lru c)"
  unfolding ca_consistent_def by blast

lemma ca_lookup_mem:
  assumes "ca_consistent c" "map_of (ca_items c) k = Some el"
  shows "el \<in> set (ca_lru c)" "en_key (snd el) = k"
  using find_SomeD [of "\<lambda>el. en_key (snd el) = k" "ca_lru c" el] ca_lookup [OF assms(1), of k] assms(2) by auto

lemma ca_remove_abs:
  assumes "ca_consistent c" "el \<in> set (ca_lru c)"
  shows "map snd (lru_Remove el (ca_lru c)) = drop_key (en_key (snd el)) (map snd (ca_lru c))"
proof -
  have "lru_Remove el (ca_lru c) = filter (\<lambda>x. en_key (snd x) \<noteq> en_key (snd el)) (ca_lru c)"
    using assms by (intro lru_Remove_key) (auto simp: ca_consistent_def)
  then show ?thesis by (simp add: drop_key_def filter_map o_def)
qed

text \<open>The eviction loop keeps the most recently used entries that leave room for one more.\<close>

lemma drop_key_last:
  assumes "distinct (map en_key (es @ [e]))"
  shows "drop_key (en_key e) (es @ [e]) = es"
  using assms by (auto simp: drop_key_def filter_id_conv) (metis image_eqI)

lemma ca_evict_step:
  assumes "ca_consistent c" "ca_lru c \<noteq> []"
  defines "el \<equiv> last (ca_lru c)"
  shows "map snd (lru_Remove el (ca_lru c)) = butlast (map snd (ca_lru c))"
    and "length (lru_Remove el (ca_lru c)) = length (ca_lru c) - 1"
proof -
  have el: "el \<in> set (ca_lru c)" using assms by simp
  have l: "map snd (ca_lru c) = butlast (map snd (ca_lru c)) @ [snd el]"
  proof -
    have "map snd (butlast (ca_lru c) @ [last (ca_lru c)]) = map snd (ca_lru c)"
      using append_butlast_last_id [OF assms(2)] by simp
    then show ?thesis by (simp add: el_def map_butlast)
  qed
  have d: "distinct (map en_key (map snd (ca_lru c)))"
    using assms(1) by (simp add: ca_consistent_def o_def)
  have "drop_key (en_key (snd el)) (map snd (ca_lru c)) = butlast (map snd (ca_lru c))"
    using d drop_key_last [of "butlast (map snd (ca_lru c))" "snd el"] l by metis
  with ca_remove_abs [OF assms(1) el]
  show "map snd (lru_Remove el (ca_lru c)) = butlast (map snd (ca_lru c))" by simp
  then have "length (map snd (lru_Remove el (ca_lru c))) = length (butlast (map snd (ca_lru c)))" by simp
  then show "length (lru_Remove el (ca_lru c)) = length (ca_lru c) - 1" by simp
qed

lemma ca_evict_spec:
  assumes "ca_consistent c" "0 < ca_maxEntries c"
  shows "ca_consistent (ca_evict c) \<and> ca_maxEntries (ca_evict c) = ca_maxEntries c \<and>
    ca_next (ca_evict c) = ca_next c \<and>
    map snd (ca_lru (ca_evict c)) = take (ca_maxEntries c - 1) (map snd (ca_lru c))"
  using assms
proof (induction c rule: ca_evict.induct)
  case (1 c)
  show ?case
  proof (cases "length (ca_lru c) < ca_maxEntries c")
    case True
    then show ?thesis using 1 by (simp add: ca_evict.simps [of c])
  next
    case False
    then have ne: "ca_lru c \<noteq> []" using "1.prems" by auto
    let ?el = "last (ca_lru c)"
    let ?c = "c\<lparr>ca_lru := lru_Remove ?el (ca_lru c), ca_items := AList.delete (en_key (snd ?el)) (ca_items c)\<rparr>"
    have cons: "ca_consistent ?c" using ca_delete_consistent "1.prems"(1) ne by simp
    have ev: "ca_evict c = ca_evict ?c" using False ne by (simp add: ca_evict.simps [of c] Let_def)
    note IH = "1.IH" [OF False ne refl cons]
    have "take (ca_maxEntries c - 1) (butlast (map snd (ca_lru c))) = take (ca_maxEntries c - 1) (map snd (ca_lru c))"
      using False "1.prems"(2) by (simp add: take_butlast)
    with IH "1.prems"(2) ev ca_evict_step(1) [OF "1.prems"(1) ne] show ?thesis by simp
  qed
qed

lemma ca_push_consistent:
  assumes "ca_consistent c" "map_of (ca_items c) (en_key entry) = None"
  shows "ca_consistent (c\<lparr>ca_lru := (ca_next c, entry) # ca_lru c,
     ca_items := AList.update (en_key entry) (ca_next c, entry) (ca_items c), ca_next := Suc (ca_next c)\<rparr>)"
proof -
  have none: "\<forall>el\<in>set (ca_lru c). en_key (snd el) \<noteq> en_key entry"
    by (rule find_NoneD) (use ca_lookup [OF assms(1), of "en_key entry"] assms(2) in simp)
  have lt: "\<forall>el\<in>set (ca_lru c). fst el < ca_next c" using assms(1) by (simp add: ca_consistent_def)
  have fresh: "ca_next c \<notin> fst ` set (ca_lru c)" using lt by auto
  have keys: "en_key entry \<notin> (en_key \<circ> snd) ` set (ca_lru c)" using none by auto
  have "\<forall>el\<in>set (ca_lru c). fst el < Suc (ca_next c)" using lt less_SucI by blast
  moreover have "distinct (map fst (ca_lru c))" "distinct (map (en_key \<circ> snd) (ca_lru c))"
    using assms(1) by (simp_all add: ca_consistent_def)
  moreover have "map_of (AList.update (en_key entry) (ca_next c, entry) (ca_items c)) k
      = List.find (\<lambda>el. en_key (snd el) = k) ((ca_next c, entry) # ca_lru c)" for k
    using ca_lookup [OF assms(1), of k] by simp
  ultimately show ?thesis
    using fresh keys unfolding ca_consistent_def by simp
qed

lemma ca_Set_refines:
  assumes "ca_wf c"
  shows "ca_wf (ca_Set e c)" "ca_abs (ca_Set e c) = spec_Set (ca_maxEntries c) e (ca_abs c)"
    "ca_maxEntries (ca_Set e c) = ca_maxEntries c"
proof -
  let ?c1 = "case map_of (ca_items c) (en_key e) of
      Some el \<Rightarrow> c\<lparr>ca_lru := lru_Remove el (ca_lru c), ca_items := AList.delete (en_key e) (ca_items c)\<rparr> | None \<Rightarrow> c"
  have cc: "ca_consistent c" and pos: "0 < ca_maxEntries c" using assms by (simp_all add: ca_wf_def)
  have c1: "ca_consistent ?c1 \<and> map snd (ca_lru ?c1) = drop_key (en_key e) (map snd (ca_lru c)) \<and>
      ca_maxEntries ?c1 = ca_maxEntries c"
  proof (cases "map_of (ca_items c) (en_key e)")
    case None
    then have "\<forall>el\<in>set (ca_lru c). en_key (snd el) \<noteq> en_key e"
      by (intro find_NoneD) (use ca_lookup [OF cc, of "en_key e"] in simp)
    with None cc show ?thesis by (simp add: drop_key_def filter_id_conv)
  next
    case (Some el)
    note mem = ca_lookup_mem [OF cc Some]
    from mem(2) ca_delete_consistent [OF cc mem(1)] ca_remove_abs [OF cc mem(1)] Some
    show ?thesis by simp
  qed
  let ?c2 = "ca_evict ?c1"
  have c2: "ca_consistent ?c2" "ca_maxEntries ?c2 = ca_maxEntries c"
    "map snd (ca_lru ?c2) = take (ca_maxEntries c - 1) (drop_key (en_key e) (map snd (ca_lru c)))"
    using ca_evict_spec [of ?c1] c1 pos by auto
  have "\<forall>x\<in>set (map snd (ca_lru ?c2)). en_key x \<noteq> en_key e"
    unfolding c2(3) by (auto simp: drop_key_def dest: in_set_takeD)
  then have "map_of (ca_items ?c2) (en_key e) = None"
    unfolding ca_lookup [OF c2(1), of "en_key e"] by (intro find_NoneI) auto
  note push = ca_push_consistent [OF c2(1) this]
  have set: "ca_Set e c = ?c2\<lparr>ca_lru := (ca_next ?c2, e) # ca_lru ?c2,
      ca_items := AList.update (en_key e) (ca_next ?c2, e) (ca_items ?c2), ca_next := Suc (ca_next ?c2)\<rparr>"
    by (simp add: ca_Set_def Let_def)
  show "ca_maxEntries (ca_Set e c) = ca_maxEntries c" using c2(2) by (simp add: set)
  show abs: "ca_abs (ca_Set e c) = spec_Set (ca_maxEntries c) e (ca_abs c)"
    using c2(3) pos by (simp add: set ca_abs_def spec_Set_def take_Cons')
  have "length (ca_lru (ca_Set e c)) = length (ca_abs (ca_Set e c))" by (simp add: ca_abs_def)
  also have "\<dots> \<le> ca_maxEntries c" unfolding abs spec_Set_def by simp
  finally show "ca_wf (ca_Set e c)" using push pos c2(2) by (simp add: ca_wf_def set)
qed

lemma ca_move_consistent:
  assumes "ca_consistent c" "el \<in> set (ca_lru c)"
  shows "ca_consistent (c\<lparr>ca_lru := lru_MoveToFront el (ca_lru c)\<rparr>)"
proof -
  have r: "lru_Remove el (ca_lru c) = filter (\<lambda>x. en_key (snd x) \<noteq> en_key (snd el)) (ca_lru c)"
    using assms by (intro lru_Remove_key) (auto simp: ca_consistent_def)
  have f: "List.find (\<lambda>x. en_key (snd x) = en_key (snd el)) (ca_lru c) = Some el"
  proof (cases "List.find (\<lambda>x. en_key (snd x) = en_key (snd el)) (ca_lru c)")
    case None
    from find_NoneD [OF this] assms(2) show ?thesis by blast
  next
    case (Some x)
    then have "x \<in> set (ca_lru c)" "en_key (snd x) = en_key (snd el)" by (auto dest: find_SomeD)
    with assms have "x = el" unfolding ca_consistent_def by (metis comp_apply distinct_map inj_onD)
    with Some show ?thesis by simp
  qed
  have look: "map_of (ca_items c) k = List.find (\<lambda>x. en_key (snd x) = k) (lru_MoveToFront el (ca_lru c))" for k
    using ca_lookup [OF assms(1), of k] f by (auto simp: lru_MoveToFront_def r find_filter_key)
  have d1: "distinct (map fst (lru_MoveToFront el (ca_lru c)))"
    using assms(1) by (auto simp: lru_MoveToFront_def lru_Remove_def ca_consistent_def distinct_map_filter)
  have d2: "distinct (map (en_key \<circ> snd) (lru_MoveToFront el (ca_lru c)))"
    using assms(1) by (auto simp: lru_MoveToFront_def r ca_consistent_def distinct_map_filter)
  have d3: "\<forall>x\<in>set (lru_MoveToFront el (ca_lru c)). fst x < ca_next c"
    using assms by (auto simp: lru_MoveToFront_def lru_Remove_def ca_consistent_def)
  from look d1 d2 d3 show ?thesis unfolding ca_consistent_def by simp
qed

lemma ca_Get_refines:
  assumes "ca_wf c"
  shows "ca_wf (snd (ca_Get m u now c))"
    "fst (ca_Get m u now c) = fst (spec_Get (m, u) now (ca_abs c))"
    "ca_abs (snd (ca_Get m u now c)) = snd (spec_Get (m, u) now (ca_abs c))"
    "ca_maxEntries (snd (ca_Get m u now c)) = ca_maxEntries c"
proof -
  have cc: "ca_consistent c" using assms by (simp add: ca_wf_def)
  note look = ca_lookup [OF cc, of "(m, u)"]
  have fa: "List.find (\<lambda>e. en_key e = (m, u)) (ca_abs c) = map_option snd (map_of (ca_items c) (m, u))"
    by (simp add: ca_abs_def ca_find_abs look)
  have "ca_wf (snd (ca_Get m u now c)) \<and> fst (ca_Get m u now c) = fst (spec_Get (m, u) now (ca_abs c)) \<and>
    ca_abs (snd (ca_Get m u now c)) = snd (spec_Get (m, u) now (ca_abs c)) \<and>
    ca_maxEntries (snd (ca_Get m u now c)) = ca_maxEntries c"
  proof (cases "map_of (ca_items c) (m, u)")
    case None
    with assms fa show ?thesis by (simp add: ca_Get_def spec_Get_def)
  next
    case (Some el)
    note mem = ca_lookup_mem [OF cc Some]
    have len: "length (lru_Remove el (ca_lru c)) < length (ca_lru c)"
      unfolding lru_Remove_def using mem(1) by (intro length_filter_less) auto
    show ?thesis
    proof (cases "isExpired (snd el) now")
      case True
      with Some fa mem assms len ca_delete_consistent [OF cc mem(1)] ca_remove_abs [OF cc mem(1)] show ?thesis
        by (simp add: ca_Get_def spec_Get_def ca_wf_def ca_abs_def)
    next
      case False
      with Some fa mem assms len ca_move_consistent [OF cc mem(1)] ca_remove_abs [OF cc mem(1)] show ?thesis
        by (simp add: ca_Get_def spec_Get_def ca_wf_def ca_abs_def lru_MoveToFront_def)
    qed
  qed
  then show "ca_wf (snd (ca_Get m u now c))"
    "fst (ca_Get m u now c) = fst (spec_Get (m, u) now (ca_abs c))"
    "ca_abs (snd (ca_Get m u now c)) = snd (spec_Get (m, u) now (ca_abs c))"
    "ca_maxEntries (snd (ca_Get m u now c)) = ca_maxEntries c" by blast+
qed

subsection \<open>Histories\<close>

datatype cache_op = OpGet string string instant | OpSet CacheEntry

fun op_key :: "cache_op \<Rightarrow> cacheKey" where
  "op_key (OpGet m u t) = (m, u)"
| "op_key (OpSet e) = en_key e"

fun ca_step :: "cache_op \<Rightarrow> ResponseCache \<Rightarrow> ResponseCache" where
  "ca_step (OpGet m u t) c = snd (ca_Get m u t c)"
| "ca_step (OpSet e) c = ca_Set e c"

definition ca_run :: "cache_op list \<Rightarrow> ResponseCache \<Rightarrow> ResponseCache" where
  "ca_run ops c = fold ca_step ops c"

fun spec_step :: "nat \<Rightarrow> cache_op \<Rightarrow> CacheEntry list \<Rightarrow> CacheEntry list" where
  "spec_step n (OpGet m u t) es = snd (spec_Get (m, u) t es)"
| "spec_step n (OpSet e) es = spec_Set n e es"

lemma ca_step_refines:
  assumes "ca_wf c"
  shows "ca_wf (ca_step op c)" "ca_maxEntries (ca_step op c) = ca_maxEntries c"
    "ca_abs (ca_step op c) = spec_step (ca_maxEntries c) op (ca_abs c)"
  using assms by (cases op; simp add: ca_Get_refines ca_Set_refines)+

lemma ca_run_refines:
  assumes "ca_wf c"
  shows "ca_wf (ca_run ops c) \<and> ca_maxEntries (ca_run ops c) = ca_maxEntries c \<and>
    ca_abs (ca_run ops c) = fold (spec_step (ca_maxEntries c)) ops (ca_abs c)"
  using assms unfolding ca_run_def
  by (induction ops arbitrary: c) (simp_all add: ca_step_refines)

text \<open>The entries that are more recent than the one with key \<open>k\<close>.\<close>

definition newer :: "cacheKey \<Rightarrow> CacheEntry list \<Rightarrow> CacheEntry list" where
  "newer k es = takeWhile (\<lambda>e. en_key e \<noteq> k) es"

definition kept :: "CacheEntry \<Rightarrow> cacheKey set \<Rightarrow> CacheEntry list \<Rightarrow> bool" where
  "kept e T es \<longleftrightarrow> List.find (\<lambda>x. en_key x = en_key e) es = Some e \<and> distinct (map en_key es) \<and>
     en_key ` set (newer (en_key e) es) \<subseteq> T"

lemma newer_simps [simp]:
  "newer k [] = []"
  "newer k (e # es) = (if en_key e = k then [] else e # newer k es)"
  by (simp_all add: newer_def)

lemma newer_drop_key: "k' \<noteq> k \<Longrightarrow> newer k (drop_key k' es) = drop_key k' (newer k es)"
  by (induction es) (auto simp: drop_key_def)

lemma find_drop_key: "k' \<noteq> k \<Longrightarrow> List.find (\<lambda>x. en_key x = k) (drop_key k' es) = List.find (\<lambda>x. en_key x = k) es"
  by (induction es) (auto simp: drop_key_def)

lemma distinct_drop_key: "distinct (map en_key es) \<Longrightarrow> distinct (map en_key (drop_key k es))"
  by (simp add: drop_key_def distinct_map_filter)

lemma drop_key_keys: "en_key ` set (drop_key k es) = en_key ` set es - {k}"
  by (auto simp: drop_key_def)

lemma find_take_newer:
  "List.find (\<lambda>x. en_key x = k) es = Some e \<Longrightarrow> length (newer k es) < n \<Longrightarrow>
   List.find (\<lambda>x. en_key x = k) (take n es) = Some e \<and> newer k (take n es) = newer k es"
proof (induction es arbitrary: n)
  case (Cons x es)
  then show ?case by (cases n) (auto split: if_splits)
qed simp

lemma newer_subset: "set (newer k es) \<subseteq> set es"
  by (auto simp: newer_def dest: set_takeWhileD)

lemma distinct_newer: "distinct (map en_key es) \<Longrightarrow> distinct (map en_key (newer k es))"
  by (induction es) (auto dest: subsetD [OF newer_subset])

lemma kept_other_front:
  assumes "kept e T es" "en_key x \<noteq> en_key e"
  shows "kept e (insert (en_key x) T) (x # drop_key (en_key x) es)"
  using assms
  by (auto simp: kept_def find_drop_key newer_drop_key distinct_drop_key drop_key_keys)

lemma kept_take:
  assumes "kept e T es" "finite T" "card T < n"
  shows "kept e T (take n es)"
proof -
  let ?nw = "newer (en_key e) es"
  have "length ?nw = card (en_key ` set ?nw)"
    using assms(1) distinct_newer distinct_card unfolding kept_def by (metis length_map list.set_map)
  also have "\<dots> \<le> card T" using assms(1,2) by (intro card_mono) (auto simp: kept_def)
  finally have "length ?nw < n" using assms(3) by simp
  with assms(1) find_take_newer [of "en_key e" es e n] show ?thesis
    by (auto simp: kept_def take_map [symmetric] distinct_take)
qed

lemma kept_step:
  assumes "kept e T es" "finite T" "card (insert (op_key op) T - {en_key e}) < n" "en_key e \<notin> T"
    and "\<And>x. op = OpSet x \<Longrightarrow> en_key x \<noteq> en_key e"
    and "\<And>m u t. op = OpGet m u t \<Longrightarrow> (m, u) = en_key e \<Longrightarrow> \<not> isExpired e t"
  shows "kept e (insert (op_key op) T - {en_key e}) (spec_step n op es)"
proof (cases op)
  case (OpGet m u t)
  show ?thesis
  proof (cases "(m, u) = en_key e")
    case True
    with assms OpGet show ?thesis
      by (auto simp: kept_def spec_Get_def distinct_drop_key drop_key_keys)
  next
    case False
    then have T: "insert (op_key op) T - {en_key e} = insert (m, u) T" using OpGet assms(4) by auto
    have mono: "kept e (insert (m, u) T) es" using assms(1) by (auto simp: kept_def)
    show ?thesis
    proof (cases "List.find (\<lambda>x. en_key x = (m, u)) es")
      case None
      with mono T OpGet show ?thesis by (simp add: spec_Get_def)
    next
      case (Some x)
      then have x: "en_key x = (m, u)" by (auto dest: find_SomeD)
      have "kept e (insert (m, u) T) (drop_key (m, u) es)"
        using mono False by (auto simp: kept_def find_drop_key newer_drop_key distinct_drop_key drop_key_keys)
      moreover have "kept e (insert (m, u) T) (x # drop_key (m, u) es)"
        using kept_other_front [OF assms(1), of x] x False by simp
      ultimately show ?thesis using T OpGet Some by (simp add: spec_Get_def)
    qed
  qed
next
  case (OpSet x)
  with assms(5) have ne: "en_key x \<noteq> en_key e" by simp
  then have T: "insert (op_key op) T - {en_key e} = insert (en_key x) T" using OpSet assms(4) by auto
  with kept_take [OF kept_other_front [OF assms(1) ne]] assms(2,3) OpSet show ?thesis
    by (simp add: spec_Set_def)
qed

definition touched :: "CacheEntry \<Rightarrow> cache_op list \<Rightarrow> cacheKey set" where
  "touched e ops = op_key ` set ops - {en_key e}"

text \<open>A history spares \<open>e\<close> when it does not replace it and reads it only while it is fresh.\<close>

fun spares :: "CacheEntry \<Rightarrow> cache_op \<Rightarrow> bool" where
  "spares e (OpSet x) = (en_key x \<noteq> en_key e)"
| "spares e (OpGet m u t) = (\<not> ((m, u) = en_key e \<and> isExpired e t))"

lemma kept_run:
  assumes "kept e T es" "finite T" "en_key e \<notin> T" "card (T \<union> touched e ops) < n" "list_all (spares e) ops"
  shows "kept e (T \<union> touched e ops) (fold (spec_step n) ops es)"
  using assms
proof (induction ops arbitrary: T es)
  case Nil
  then show ?case by (simp add: touched_def)
next
  case (Cons op ops)
  let ?T = "insert (op_key op) T - {en_key e}"
  have U: "?T \<union> touched e ops = T \<union> touched e (op # ops)" using Cons.prems(3) by (auto simp: touched_def)
  have fin: "finite (T \<union> touched e (op # ops))" using Cons.prems(2) by (simp add: touched_def)
  have "card ?T \<le> card (T \<union> touched e (op # ops))" using fin U by (intro card_mono) auto
  then have "card ?T < n" using Cons.prems(4) by simp
  with Cons.prems have "kept e ?T (spec_step n op es)"
    by (intro kept_step) auto
  from Cons.IH [OF this] Cons.prems U show ?case by simp
qed

section \<open>The cache as the proxy sees it\<close>

text \<open>What the proxy needs of a cache: a hit is an entry the cache contains, under the requested key
  and still fresh; only \<open>put\<close> adds entries, and only the one it is given.\<close>

locale response_cache =
  fixes get :: "string \<Rightarrow> string \<Rightarrow> instant \<Rightarrow> 'c \<Rightarrow> CacheEntry option \<times> 'c"
    and put :: "CacheEntry \<Rightarrow> 'c \<Rightarrow> 'c"
    and invar :: "'c \<Rightarrow> bool"
    and contents :: "'c \<Rightarrow> CacheEntry set"
  assumes get_invar: "invar c \<Longrightarrow> invar (snd (get m u t c))"
    and put_invar: "invar c \<Longrightarrow> invar (put e c)"
    and get_hit: "invar c \<Longrightarrow> fst (get m u t c) = Some e \<Longrightarrow> e \<in> contents c \<and> en_key e = (m, u) \<and> \<not> isExpired e t"
    and get_contents: "invar c \<Longrightarrow> contents (snd (get m u t c)) \<subseteq> contents c"
    and put_contents: "invar c \<Longrightarrow> contents (put e c) \<subseteq> insert e (contents c)"
begin

definition exec :: "cache_op \<Rightarrow> 'c \<Rightarrow> 'c" where
  "exec op c = (case op of OpGet m u t \<Rightarrow> snd (get m u t c) | OpSet e \<Rightarrow> put e c)"

lemma exec_run:
  assumes "invar c"
  shows "invar (fold exec ops c) \<and> contents (fold exec ops c) \<subseteq> contents c \<union> {e. OpSet e \<in> set ops}"
  using assms
proof (induction ops arbitrary: c)
  case (Cons op ops)
  have "invar (exec op c)" "contents (exec op c) \<subseteq> contents c \<union> {e. op = OpSet e}"
    using Cons.prems get_invar put_invar get_contents put_contents
    by (auto simp: exec_def split: cache_op.splits dest: subsetD)
  with Cons.IH [of "exec op c"] show ?case by auto
qed simp

lemma hit_was_put:
  assumes "invar c" "contents c = {}" "fst (get m u t (fold exec ops c)) = Some e"
  shows "OpSet e \<in> set ops \<and> en_key e = (m, u) \<and> \<not> isExpired e t"
  using exec_run [OF assms(1), of ops] get_hit [OF _ assms(3)] assms(2) by auto

end

lemma spec_Get_hit:
  "fst (spec_Get k t es) = Some e \<Longrightarrow> e \<in> set es \<and> en_key e = k \<and> \<not> isExpired e t"
  by (auto simp: spec_Get_def split: option.splits if_splits dest: find_SomeD)

lemma spec_Get_set: "set (snd (spec_Get k t es)) \<subseteq> set es"
  by (auto simp: spec_Get_def drop_key_def split: option.splits if_splits dest: find_SomeD)

lemma spec_Set_set: "set (spec_Set n e es) \<subseteq> insert e (set es)"
  by (auto simp: spec_Set_def drop_key_def dest: in_set_takeD)

interpretation lru: response_cache ca_Get ca_Set ca_wf "\<lambda>c. set (ca_abs c)"
proof
  fix c :: ResponseCache and m u t e
  assume wf: "ca_wf c"
  show "ca_wf (snd (ca_Get m u t c))" by (rule ca_Get_refines(1) [OF wf])
  show "ca_wf (ca_Set e c)" by (rule ca_Set_refines(1) [OF wf])
  show "set (ca_abs (snd (ca_Get m u t c))) \<subseteq> set (ca_abs c)"
    using spec_Get_set by (simp add: ca_Get_refines(3) [OF wf])
  show "set (ca_abs (ca_Set e c)) \<subseteq> insert e (set (ca_abs c))"
    using spec_Set_set by (simp add: ca_Set_refines(2) [OF wf])
  assume "fst (ca_Get m u t c) = Some e"
  then show "e \<in> set (ca_abs c) \<and> en_key e = (m, u) \<and> \<not> isExpired e t"
    using spec_Get_hit by (simp add: ca_Get_refines(2) [OF wf])
qed

lemma lru_exec: "lru.exec = ca_step"
  by (intro ext) (auto simp: lru.exec_def split: cache_op.splits)

section \<open>Caching responses\<close>

definition headerEgressCache :: string where
  "headerEgressCache = ''X-Egress-Cache''"

definition isCacheable :: "string \<Rightarrow> int \<Rightarrow> bool" where
  "isCacheable mth st \<longleftrightarrow>
    (if mth \<noteq> ''GET'' \<and> mth \<noteq> ''HEAD'' then False else 200 \<le> st \<and> st \<le> 299)"

text \<open>The result is the read error, or the entry to cache (none when the body is over the limit) and
  the reader the caller gets.\<close>

definition cacheableResponse ::
    "EgressResponse \<Rightarrow> CacheConfig \<Rightarrow> cacheKey \<Rightarrow> instant \<Rightarrow> (CacheEntry option \<times> Body) option" where
  "cacheableResponse resp cfg key now =
    (let (raw, err) = (case es_Body resp of
                         None \<Rightarrow> ([], EndEOF)
                       | Some b \<Rightarrow> if 0 < cc_MaxSize cfg then ReadAllLimit (nat (cc_MaxSize cfg) + 1) b else ReadAll b) in
     if err \<noteq> EndEOF then None
     else if 0 < cc_MaxSize cfg \<and> cc_MaxSize cfg < int (length raw) then Some (None, NewReader raw)
     else Some (Some \<lparr>en_key = key, en_Status = es_Status resp, en_Header = es_Header resp, en_Body = raw,
                       en_ExpiresAt = (if 0 < cc_TTL cfg then now + cc_TTL cfg else 0)\<rparr>, NewReader raw))"

definition egressResponseFromCache :: "CacheEntry \<Rightarrow> EgressResponse" where
  "egressResponseFromCache e =
    (case NewEgressResponse (en_Status e) (hdr_Set headerEgressCache ''HIT'' (en_Header e)) (Some (NewReader (en_Body e))) of
       Inr r \<Rightarrow> r
     | Inl _ \<Rightarrow> \<lparr>es_Status = 0, es_Header = [], es_Body = None, es_Attempts = 0\<rparr>)"

text \<open>The registry: one cache per route with caching enabled, created on first use. The caches are
  pointers, so what is done with the cache of a route is stored back under its name.\<close>

type_synonym cache_registry = "(string, ResponseCache) gomap"

definition defaultCacheMaxEntries :: int where
  "defaultCacheMaxEntries = 256"

definition CacheFor :: "Route \<Rightarrow> cache_registry \<Rightarrow> ResponseCache option \<times> cache_registry" where
  "CacheFor r g =
    (if cc_IsZero (rt_cache r) then (None, g)
     else case map_of g (rt_name r) of
       Some c \<Rightarrow> (Some c, g)
     | None \<Rightarrow>
         let c = NewResponseCache defaultCacheMaxEntries in (Some c, AList.update (rt_name r) c g))"

section \<open>Properties\<close>

text \<open>C6: The cache with its map, list and eviction loop refines the abstract least-recently-used
  list: after any history of reads and writes on a new cache, a read answers and leaves the contents
  as the list specification says, and there are never more entries than the (clamped) capacity.\<close>

theorem cache_refines_lru:
  "fst (ca_Get m u t (ca_run ops (NewResponseCache n))) =
     fst (spec_Get (m, u) t (fold (spec_step (if n \<le> 0 then 1 else nat n)) ops [])) \<and>
   ca_abs (snd (ca_Get m u t (ca_run ops (NewResponseCache n)))) =
     snd (spec_Get (m, u) t (fold (spec_step (if n \<le> 0 then 1 else nat n)) ops [])) \<and>
   ca_Len (ca_run ops (NewResponseCache n)) \<le> (if n \<le> 0 then 1 else nat n)"
proof -
  let ?c = "ca_run ops (NewResponseCache n)"
  have c0: "ca_abs (NewResponseCache n) = []" "ca_maxEntries (NewResponseCache n) = (if n \<le> 0 then 1 else nat n)"
    by (simp_all add: ca_abs_def NewResponseCache_def)
  have wf: "ca_wf ?c" "ca_maxEntries ?c = (if n \<le> 0 then 1 else nat n)"
    "ca_abs ?c = fold (spec_step (if n \<le> 0 then 1 else nat n)) ops []"
    using ca_run_refines [OF ca_consistent_new [of n], of ops] by (simp_all only: c0)
  have "ca_Len ?c \<le> ca_maxEntries ?c" using wf(1) by (simp add: ca_wf_def ca_Len_def)
  with wf ca_Get_refines(2,3) [OF wf(1), of m u t] show ?thesis by (simp only: simp_thms)
qed

text \<open>C7: Retention: an entry that is stored stays available, unchanged, until it expires, as long as
  the later reads and writes touch fewer other keys than the cache has room for and none replaces it.\<close>

theorem cache_retains_recent:
  assumes "ca_wf c" "en_key e = (m, u)" "list_all (spares e) ops"
    and "card (touched e ops) < ca_maxEntries c" "\<not> isExpired e now"
  shows "fst (ca_Get m u now (ca_run ops (ca_Set e c))) = Some e"
proof -
  let ?n = "ca_maxEntries c"
  note set = ca_Set_refines [OF assms(1), of e]
  have dist: "distinct (map en_key (ca_abs c))"
    using assms(1) by (simp add: ca_wf_def ca_consistent_def ca_abs_def)
  have pos: "0 < ?n" using assms(1) by (simp add: ca_wf_def)
  have "kept e {} (e # drop_key (en_key e) (ca_abs c))"
    using dist by (auto simp: kept_def distinct_drop_key drop_key_keys)
  then have "kept e {} (spec_Set ?n e (ca_abs c))"
    unfolding spec_Set_def by (rule kept_take) (simp_all add: pos)
  then have "kept e (touched e ops) (fold (spec_step ?n) ops (spec_Set ?n e (ca_abs c)))"
    using kept_run [of e "{}" _ ops ?n] assms(3,4) by simp
  moreover have "ca_abs (ca_run ops (ca_Set e c)) = fold (spec_step ?n) ops (spec_Set ?n e (ca_abs c))"
    "ca_wf (ca_run ops (ca_Set e c))"
    using ca_run_refines [OF set(1), of ops] set by simp_all
  ultimately show ?thesis
    using ca_Get_refines(2) [of "ca_run ops (ca_Set e c)" m u now] assms(2,5)
    by (simp add: kept_def spec_Get_def)
qed

theorem cache_retains_recent_witness:
  "let e = NewCacheEntry ''GET'' ''https://h/a'' 200 50; x = NewCacheEntry ''GET'' ''https://h/b'' 200 50 in
   fst (ca_Get ''GET'' ''https://h/a'' 20
     (ca_run [OpSet x, OpGet ''GET'' ''https://h/b'' 5] (ca_Set e (NewResponseCache 2)))) = Some e"
proof -
  let ?e = "NewCacheEntry ''GET'' ''https://h/a'' 200 50" and ?x = "NewCacheEntry ''GET'' ''https://h/b'' 200 50"
  have "touched ?e [OpSet ?x, OpGet ''GET'' ''https://h/b'' 5] \<subseteq> {(''GET'', ''https://h/b'')}"
    by (auto simp: touched_def NewCacheEntry_def)
  then have "card (touched ?e [OpSet ?x, OpGet ''GET'' ''https://h/b'' 5]) \<le> 1"
    by (metis card.empty card_insert_disjoint card_mono empty_iff finite.emptyI finite.insertI One_nat_def)
  then show ?thesis
    unfolding Let_def
    by (intro cache_retains_recent)
       (simp_all add: ca_consistent_new, simp_all add: NewCacheEntry_def NewResponseCache_def isExpired_def)
qed

text \<open>No stale or foreign answers: whatever the history on a new cache, a hit is an entry that was
  stored under exactly the requested method and URL and has not expired at the time of the read.\<close>

theorem cache_hit_fresh:
  assumes "fst (ca_Get m u t (ca_run ops (NewResponseCache n))) = Some e"
  shows "OpSet e \<in> set ops \<and> en_key e = (m, u) \<and> \<not> isExpired e t"
  using lru.hit_was_put [OF ca_consistent_new [of n], of m u t ops e] assms
  by (simp add: lru_exec ca_run_def ca_abs_def NewResponseCache_def)

theorem cache_hit_fresh_witness:
  "let e = NewCacheEntry ''GET'' ''u'' 200 50; ops = [OpSet e] in \<not> isExpired e 20 \<and> OpSet e \<in> set ops"
  using cache_hit_fresh [of "''GET''" "''u''" 20 "[OpSet (NewCacheEntry ''GET'' ''u'' 200 50)]" 2
      "NewCacheEntry ''GET'' ''u'' 200 50"]
  by (simp add: ca_run_def ca_Set_def ca_Get_def NewResponseCache_def NewCacheEntry_def ca_evict.simps isExpired_def Let_def)

text \<open>A response whose body is longer than the cache limit reaches the caller cut to one byte more
  than the limit: the reader handed back holds only what was read to detect the excess, and the rest
  of the upstream body is dropped.\<close>

theorem oversized_response_truncated:
  assumes "es_Body resp = Some b" "0 < cc_MaxSize cfg" "nat (cc_MaxSize cfg) < length (bd_data b)"
  shows "cacheableResponse resp cfg key now =
    Some (None, NewReader (take (nat (cc_MaxSize cfg) + 1) (bd_data b)))"
  using assms by (auto simp: cacheableResponse_def ReadAllLimit_def)

theorem oversized_response_truncated_witness:
  "cacheableResponse \<lparr>es_Status = 200, es_Header = [], es_Body = Some (NewReader ''abcdefgh''), es_Attempts = 1\<rparr>
     \<lparr>cc_Enabled = True, cc_TTL = 10, cc_MaxSize = 4\<rparr> (''GET'', ''u'') 0 = Some (None, NewReader ''abcde'')"
  using oversized_response_truncated
    [of "\<lparr>es_Status = 200, es_Header = [], es_Body = Some (NewReader ''abcdefgh''), es_Attempts = 1\<rparr>"
        "NewReader ''abcdefgh''" "\<lparr>cc_Enabled = True, cc_TTL = 10, cc_MaxSize = 4\<rparr>" "(''GET'', ''u'')" 0]
  by (simp add: NewReader_def)

end
