(* ===== verification/EgressPrepare.thy ===== *)
theory EgressPrepare
  imports EgressRoute
begin

text \<open>What the egress proxy does to a request before it is sent: the redaction rules of
  \<^verbatim>\<open>internal/adapters/egress/sanitizer.go\<close> and the secret injection of
  \<^verbatim>\<open>internal/adapters/egress/secret_injector.go\<close>.\<close>

section \<open>Redaction of JSON fields\<close>

text \<open>The code builds the regular expression \<^verbatim>\<open>("field"\s*:\s*)"[^"]*"\<close> from the quoted field name and
  replaces what follows the group. The expression can match at a position in one way only, so the
  match is a deterministic scan: the group and the text after the closing quote.\<close>

definition re_space :: "char \<Rightarrow> bool" where
  "re_space c \<longleftrightarrow> byte_of c \<in> {9, 10, 12, 13, 32}"

definition dquote :: char where
  "dquote = CHR 0x22"

definition match_field :: "string \<Rightarrow> string \<Rightarrow> (string \<times> string) option" where
  "match_field f s =
    (let lit = dquote # f @ [dquote]; r = drop (length lit) s;
         r1 = dropWhile re_space r; r2 = dropWhile re_space (tl r1); r4 = dropWhile (\<lambda>c. c \<noteq> dquote) (tl r2) in
     if prefix lit s \<and> r1 \<noteq> [] \<and> hd r1 = CHR '':'' \<and> r2 \<noteq> [] \<and> hd r2 = dquote \<and> r4 \<noteq> []
     then Some (lit @ takeWhile re_space r @ CHR '':'' # takeWhile re_space (tl r1), tl r4)
     else None)"

lemma length_tl_dropWhile: "length (tl (dropWhile P s)) \<le> length s"
  by (metis diff_le_self le_trans length_dropWhile_le length_tl)

lemma match_field_less: "match_field f s = Some (g, rest) \<Longrightarrow> length rest < length s"
proof -
  assume *: "match_field f s = Some (g, rest)"
  let ?r = "drop (length (dquote # f @ [dquote])) s"
  let ?r1 = "dropWhile re_space ?r"
  let ?r2 = "dropWhile re_space (tl ?r1)"
  have rest: "rest = tl (dropWhile (\<lambda>c. c \<noteq> dquote) (tl ?r2))" and "?r1 \<noteq> []"
    using * by (auto simp: match_field_def Let_def split: if_splits)
  have "length rest \<le> length (tl ?r2)" unfolding rest by (rule length_tl_dropWhile)
  also have "\<dots> \<le> length (tl ?r1)" by (rule length_tl_dropWhile)
  also have "\<dots> < length ?r1" using \<open>?r1 \<noteq> []\<close> by (cases ?r1) auto
  also have "\<dots> \<le> length ?r" by (rule length_dropWhile_le)
  also have "\<dots> \<le> length s" by simp
  finally show ?thesis .
qed

definition redacted :: string where
  "redacted = ''[REDACTED]''"

text \<open>Replacement of all matches, from left to right without overlap, and whether there was one.\<close>

function redact_field :: "string \<Rightarrow> string \<Rightarrow> string \<times> bool" where
  "redact_field f s =
    (case match_field f s of
       Some (g, rest) \<Rightarrow> (g @ dquote # redacted @ dquote # fst (redact_field f rest), True)
     | None \<Rightarrow>
         (case s of [] \<Rightarrow> ([], False)
          | c # cs \<Rightarrow> (let (out, m) = redact_field f cs in (c # out, m))))"
  by pat_completeness auto
termination
  by (relation "measure (\<lambda>(f, s). length s)") (auto dest: match_field_less)

declare redact_field.simps [simp del]

definition redactJSONFields :: "string \<Rightarrow> string list \<Rightarrow> string \<times> int" where
  "redactJSONFields body names =
    fold (\<lambda>f (result, total).
            let (result', matched) = redact_field f result in
            (result', if matched then total + 1 else total)) names (body, 0)"

definition isJSONContentType :: "string \<Rightarrow> bool" where
  "isJSONContentType ct \<longleftrightarrow> prefix ''application/json'' (TrimSpace ct)"

section \<open>Sanitising a request\<close>

record SanitizeResult =
  sr_RedactedHeaders :: int
  sr_StrippedQueryParams :: int
  sr_RedactedBodyFields :: int

definition sr_Total :: "SanitizeResult \<Rightarrow> int" where
  "sr_Total r = sr_RedactedHeaders r + sr_StrippedQueryParams r + sr_RedactedBodyFields r"

text \<open>\<^verbatim>\<open>net/url\<close> is the pair of parameters \<open>url_query\<close> (the query values of a URL, \<^const>\<open>None\<close> when it
  does not parse) and \<open>url_set_query\<close> (the URL printed with other query values).\<close>

type_synonym url_values = "(string, string list) gomap"

definition stripQueryParams ::
    "(string \<Rightarrow> url_values option) \<Rightarrow> (string \<Rightarrow> url_values \<Rightarrow> string) \<Rightarrow> string \<Rightarrow> string list \<Rightarrow> string \<times> int" where
  "stripQueryParams url_query url_set_query rawURL params =
    (case url_query rawURL of
       None \<Rightarrow> (rawURL, 0)
     | Some q \<Rightarrow>
         (let (q', count) = fold (\<lambda>p (q, n). if map_of q p \<noteq> None then (AList.delete p q, n + 1) else (q, n)) params (q, 0::int) in
          if count = 0 then (rawURL, 0) else (url_set_query rawURL q', count)))"

definition redact_log_headers :: "string set \<Rightarrow> header \<Rightarrow> header \<times> int" where
  "redact_log_headers sensitive h =
    (map (\<lambda>(name, vs). if ToLower name \<in> sensitive then (name, [redacted]) else (name, vs)) h,
     int (length (filter (\<lambda>(name, vs). ToLower name \<in> sensitive) h)))"

text \<open>The result is the error that reading the body ended with, or the request to forward, the header
  for the log and the counts.\<close>

definition sanitizeRequest ::
    "(string \<Rightarrow> url_values option) \<Rightarrow> (string \<Rightarrow> url_values \<Rightarrow> string) \<Rightarrow> EgressRequest \<Rightarrow> SanitizeConfig \<Rightarrow>
     body_end + EgressRequest \<times> header \<times> SanitizeResult" where
  "sanitizeRequest url_query url_set_query req cfg =
    (let (url, nq) = (if sz_QueryParams cfg \<noteq> [] then stripQueryParams url_query url_set_query (er_URL req) (sz_QueryParams cfg)
                      else (er_URL req, 0));
         req1 = req\<lparr>er_URL := url\<rparr>;
         (logh, nh) = (if sz_Headers cfg \<noteq> [] then redact_log_headers (RedactedHeaders cfg) (er_Header req1)
                       else (er_Header req1, 0)) in
     if sz_BodyFields cfg \<noteq> [] \<and> isJSONContentType (hdr_Get (er_Header req1) ''Content-Type'') then
       (case er_Body req1 of
          None \<Rightarrow> Inr (req1, logh, \<lparr>sr_RedactedHeaders = nh, sr_StrippedQueryParams = nq, sr_RedactedBodyFields = 0\<rparr>)
        | Some b \<Rightarrow>
            (case ReadAll b of
               (raw, EndEOF) \<Rightarrow>
                 (let (body', nb) = redactJSONFields raw (sz_BodyFields cfg) in
                  Inr (req1\<lparr>er_Body := Some (NewReader body')\<rparr>, logh,
                       \<lparr>sr_RedactedHeaders = nh, sr_StrippedQueryParams = nq, sr_RedactedBodyFields = nb\<rparr>))
             | (raw, err) \<Rightarrow> Inl err))
     else Inr (req1, logh, \<lparr>sr_RedactedHeaders = nh, sr_StrippedQueryParams = nq, sr_RedactedBodyFields = 0\<rparr>))"

lemma sanitizeRequest_header:
  "sanitizeRequest uq us req cfg = Inr (req', logh, res) \<Longrightarrow>
   er_Header req' = er_Header req \<and> er_Method req' = er_Method req"
  by (auto simp: sanitizeRequest_def Let_def split: if_splits prod.splits option.splits body_end.splits)

section \<open>Secrets\<close>

definition defaultSecretTTL :: duration where
  "defaultSecretTTL = 5 * minute"

type_synonym cachedSecret = "string \<times> instant"

record SecretInjector =
  si_ttl :: duration
  si_cache :: "(string, cachedSecret) gomap"

definition NewSecretInjector :: "duration \<Rightarrow> SecretInjector" where
  "NewSecretInjector ttl = \<lparr>si_ttl = (if ttl \<le> 0 then defaultSecretTTL else ttl), si_cache = []\<rparr>"

datatype secret_error = SecretFetchFailed bool | SecretNoUsableKey

text \<open>The secret store is a parameter: the map it returns for a name at this moment, or an
  error (with whether it is a timeout). A
  range over that map visits its entries in the order of the list. \<open>t\<close> and \<open>t'\<close> are the clock
  readings before and after the fetch.\<close>

definition si_pick :: "(string, string) gomap \<Rightarrow> string option" where
  "si_pick data =
    (case map_of data ''value'' of
       Some v \<Rightarrow> Some v
     | None \<Rightarrow> (case data of [] \<Rightarrow> None | (_, v) # _ \<Rightarrow> Some v))"

definition si_fetch ::
    "(string \<Rightarrow> bool + (string, string) gomap) \<Rightarrow> instant \<Rightarrow> string \<Rightarrow> SecretInjector \<Rightarrow>
     (secret_error + string) \<times> SecretInjector" where
  "si_fetch store_get t' name s =
    (case store_get name of
       Inl timeout \<Rightarrow> (Inl (SecretFetchFailed timeout), s)
     | Inr data \<Rightarrow>
         (case si_pick data of
            None \<Rightarrow> (Inl SecretNoUsableKey, s)
          | Some v \<Rightarrow> (Inr v, s\<lparr>si_cache := AList.update name (v, t' + si_ttl s) (si_cache s)\<rparr>)))"

definition si_resolve ::
    "(string \<Rightarrow> bool + (string, string) gomap) \<Rightarrow> instant \<Rightarrow> instant \<Rightarrow> string \<Rightarrow> SecretInjector \<Rightarrow>
     (secret_error + string) \<times> SecretInjector" where
  "si_resolve store_get t t' name s =
    (case map_of (si_cache s) name of
       Some (v, expiresAt) \<Rightarrow> if t < expiresAt then (Inr v, s) else si_fetch store_get t' name s
     | None \<Rightarrow> si_fetch store_get t' name s)"

definition formatSecretValue :: "string \<Rightarrow> string \<Rightarrow> string" where
  "formatSecretValue fmt v = (if fmt = [] then v else ReplaceAll fmt ''{value}'' v)"

definition si_Inject ::
    "(string \<Rightarrow> bool + (string, string) gomap) \<Rightarrow> instant \<Rightarrow> instant \<Rightarrow> SecretConfig \<Rightarrow> SecretInjector \<Rightarrow>
     (secret_error + string \<times> string) \<times> SecretInjector" where
  "si_Inject store_get t t' cfg s =
    (case si_resolve store_get t t' (sc_Name cfg) s of
       (Inl e, s') \<Rightarrow> (Inl e, s')
     | (Inr raw, s') \<Rightarrow> (Inr (sc_Header cfg, formatSecretValue (sc_Format cfg) raw), s'))"

text \<open>A history of resolutions: the clock before and after, the name, and the store at that moment.\<close>

record resolution =
  rs_before :: instant
  rs_after :: instant
  rs_name :: string
  rs_store :: "string \<Rightarrow> bool + (string, string) gomap"

definition si_step :: "resolution \<Rightarrow> SecretInjector \<Rightarrow> SecretInjector" where
  "si_step r s = snd (si_resolve (rs_store r) (rs_before r) (rs_after r) (rs_name r) s)"

definition fetched :: "resolution \<Rightarrow> string option" where
  "fetched r = (case rs_store r (rs_name r) of Inl _ \<Rightarrow> None | Inr data \<Rightarrow> si_pick data)"

text \<open>Every cached value was fetched in the history, and expires one lifetime after that fetch.\<close>

definition si_backed :: "resolution list \<Rightarrow> SecretInjector \<Rightarrow> bool" where
  "si_backed h s \<longleftrightarrow> (\<forall>n v x. map_of (si_cache s) n = Some (v, x) \<longrightarrow>
     (\<exists>r\<in>set h. rs_name r = n \<and> fetched r = Some v \<and> x = rs_after r + si_ttl s))"

lemma si_resolve_cases:
  "si_resolve st t t' n s = (res, s') \<Longrightarrow>
     si_ttl s' = si_ttl s \<and>
     ((s' = s \<and> (\<forall>v. res = Inr v \<longrightarrow> (\<exists>x. map_of (si_cache s) n = Some (v, x) \<and> t < x))) \<or>
      (\<exists>v data. res = Inr v \<and> st n = Inr data \<and> si_pick data = Some v \<and>
         s' = s\<lparr>si_cache := AList.update n (v, t' + si_ttl s) (si_cache s)\<rparr>))"
  by (auto simp: si_resolve_def si_fetch_def split: option.splits sum.splits if_splits)

lemma si_backed_step:
  assumes "si_backed h s"
  shows "si_backed (h @ [r]) (si_step r s) \<and> si_ttl (si_step r s) = si_ttl s"
proof -
  obtain res s' where res: "si_resolve (rs_store r) (rs_before r) (rs_after r) (rs_name r) s = (res, s')"
    by fastforce
  have keep: "si_backed (h @ [r]) s" using assms by (fastforce simp: si_backed_def)
  from si_resolve_cases [OF res] consider "s' = s"
    | v data where "rs_store r (rs_name r) = Inr data" "si_pick data = Some v"
        "s' = s\<lparr>si_cache := AList.update (rs_name r) (v, rs_after r + si_ttl s) (si_cache s)\<rparr>" by blast
  then show ?thesis
  proof cases
    case 1
    with keep show ?thesis by (simp add: si_step_def res)
  next
    case 2
    then have "fetched r = Some v" by (simp add: fetched_def)
    with keep 2(3) show ?thesis
      unfolding si_step_def res si_backed_def by (auto split: if_splits)
  qed
qed

lemma si_backed_run:
  "si_backed h (fold si_step h (NewSecretInjector ttl)) \<and>
   si_ttl (fold si_step h (NewSecretInjector ttl)) = si_ttl (NewSecretInjector ttl)"
proof (induction h rule: rev_induct)
  case Nil
  then show ?case by (simp add: si_backed_def NewSecretInjector_def)
next
  case (snoc r h)
  with si_backed_step [of h "fold si_step h (NewSecretInjector ttl)" r] show ?case by simp
qed

section \<open>Properties\<close>

lemma match_field_no_quote: "s = [] \<or> hd s \<noteq> dquote \<Longrightarrow> match_field f s = None"
  by (cases s) (auto simp: match_field_def Let_def)

lemma redact_field_skip:
  "dquote \<notin> set pre \<Longrightarrow> redact_field f (pre @ s) = (pre @ fst (redact_field f s), snd (redact_field f s))"
proof (induction pre)
  case (Cons c pre)
  then have "match_field f (c # pre @ s) = None" by (intro match_field_no_quote) auto
  with Cons show ?case by (simp add: redact_field.simps [of f "c # pre @ s"] split_def Let_def)
qed simp

lemma match_field_value:
  assumes "dquote \<notin> set v"
  shows "match_field f (dquote # f @ dquote # CHR '':'' # dquote # v @ dquote # post)
    = Some (dquote # f @ dquote # '':'', post)"
proof -
  have "prefix (dquote # f @ [dquote]) (dquote # f @ dquote # CHR '':'' # dquote # v @ dquote # post)"
    by (simp add: prefix_def)
  moreover have "drop (length (dquote # f @ [dquote])) (dquote # f @ dquote # CHR '':'' # dquote # v @ dquote # post)
      = CHR '':'' # dquote # v @ dquote # post" by simp
  moreover have "dropWhile (\<lambda>c. c \<noteq> dquote) (v @ dquote # post) = dquote # post"
    using assms by (simp add: dropWhile_append)
  ultimately show ?thesis by (simp add: match_field_def Let_def re_space_def dquote_def)
qed

lemma redact_field_value:
  assumes "dquote \<notin> set pre" "dquote \<notin> set v"
  shows "fst (redact_field f (pre @ dquote # f @ dquote # CHR '':'' # dquote # v @ dquote # post))
    = pre @ dquote # f @ dquote # CHR '':'' # dquote # redacted @ dquote # fst (redact_field f post)"
  using match_field_value [OF assms(2), of f post] redact_field_skip [OF assms(1)]
  by (simp add: redact_field.simps [of f "dquote # f @ dquote # CHR '':'' # dquote # v @ dquote # post"])

text \<open>Redaction stops at the first quote character inside the value, escaped or not: when the
  secret value contains an escaped quote, what follows it is forwarded in clear.\<close>

theorem redaction_leaks_after_escaped_quote:
  assumes "dquote \<notin> set pre" "dquote \<notin> set a" "dquote \<notin> set b"
  shows "fst (redact_field f (pre @ dquote # f @ dquote # CHR '':'' # dquote # a @ CHR 0x5C # dquote # b @ rest))
    = pre @ dquote # f @ dquote # CHR '':'' # dquote # redacted @ dquote # b @ fst (redact_field f rest)"
proof -
  have "dquote \<notin> set (a @ [CHR 0x5C])" using assms(2) by (simp add: dquote_def)
  from redact_field_value [OF assms(1) this, of f "b @ rest"] redact_field_skip [OF assms(3), of f rest]
  show ?thesis by simp
qed

theorem redaction_leaks_after_escaped_quote_witness:
  "fst (redact_field ''pin'' (''{'' @ dquote # ''pin'' @ dquote # CHR '':'' # dquote # ''12'' @ CHR 0x5C # dquote # ''34'' @ []))
   = ''{'' @ dquote # ''pin'' @ dquote # CHR '':'' # dquote # redacted @ dquote # ''34'' @ fst (redact_field ''pin'' [])"
  by (rule redaction_leaks_after_escaped_quote) (simp_all add: dquote_def)

text \<open>C8: The injector never serves a stale secret: a value it resolves at clock reading \<open>t\<close> is either
  fetched from the store in that call, or was fetched from the store under the same name by an
  earlier call that finished less than one lifetime before \<open>t\<close>.\<close>

theorem secret_never_stale:
  assumes "fst (si_resolve store t t' name (fold si_step h (NewSecretInjector ttl))) = Inr v"
  shows "(\<exists>data. store name = Inr data \<and> si_pick data = Some v) \<or>
    (\<exists>r\<in>set h. rs_name r = name \<and> fetched r = Some v \<and>
       t < rs_after r + (if ttl \<le> 0 then defaultSecretTTL else ttl))"
proof -
  let ?s = "fold si_step h (NewSecretInjector ttl)"
  obtain res s' where res: "si_resolve store t t' name ?s = (res, s')" by fastforce
  have bk: "si_backed h ?s" "si_ttl ?s = (if ttl \<le> 0 then defaultSecretTTL else ttl)"
    using si_backed_run [of h ttl] by (simp_all add: NewSecretInjector_def)
  from si_resolve_cases [OF res] assms res
  consider x where "map_of (si_cache ?s) name = Some (v, x)" "t < x"
    | "\<exists>data. store name = Inr data \<and> si_pick data = Some v" by auto
  then show ?thesis
  proof cases
    case 1
    with bk(1) obtain r where "r \<in> set h" "rs_name r = name" "fetched r = Some v" "x = rs_after r + si_ttl ?s"
      unfolding si_backed_def by blast
    with 1 bk(2) show ?thesis by auto
  qed blast
qed

theorem secret_never_stale_witness:
  "let r = \<lparr>rs_before = 1, rs_after = 2, rs_name = ''k'', rs_store = (\<lambda>_. Inr [(''value'', ''old'')])\<rparr> in
   (\<exists>data. Inr [(''value'', ''new'')] = (Inr data :: bool + (string, string) gomap) \<and> si_pick data = Some ''old'') \<or>
   (\<exists>r\<in>set [r]. rs_name r = ''k'' \<and> fetched r = Some ''old'' \<and> 5 < rs_after r + (if (10::int) \<le> 0 then defaultSecretTTL else 10))"
  unfolding Let_def
  by (rule secret_never_stale [of "\<lambda>_. Inr [(''value'', ''new'')]" 5 6 "''k''"])
     (simp add: si_step_def si_resolve_def si_fetch_def si_pick_def NewSecretInjector_def)

text \<open>A secret without a \<^verbatim>\<open>value\<close> key and with several entries is resolved to whichever entry the
  map iteration visits first, so the injected credential depends on the iteration order.\<close>

theorem secret_pick_depends_on_order:
  "si_pick [(''user'', ''u''), (''pass'', ''p'')] = Some ''u'' \<and>
   si_pick [(''pass'', ''p''), (''user'', ''u'')] = Some ''p'' \<and>
   map_of [(''user'', ''u''), (''pass'', ''p'')] = map_of [(''pass'', ''p''), (''user'', ''u'')]"
  by (auto simp: si_pick_def fun_eq_iff)

end
