(* ===== verification/EgressProxy.thy ===== *)
theory EgressProxy
  imports EgressBreakers EgressCache EgressPrepare
begin

text \<open>The egress proxy: \<^verbatim>\<open>HandleRequest\<close> and its stages in \<^verbatim>\<open>internal/adapters/egress/proxy.go\<close> and the
  forwarding with retries in \<^verbatim>\<open>internal/adapters/egress/proxy_forward.go\<close>. Logging, metrics and
  tracing are not modelled; the \<^verbatim>\<open>egress.blocked\<close> events are.\<close>

section \<open>Configuration, environment and state\<close>

record ProxyConfig =
  pc_DefaultPolicy :: Policy
  pc_DefaultTimeout :: duration
  pc_DefaultBodySizeLimit :: int
  pc_DefaultResponseSizeLimit :: int
  pc_Routes :: "Route list"
  pc_AllowInsecure :: bool
  pc_SecretInjector :: bool
  pc_CircuitBreakers :: bool
  pc_RateLimiters :: bool
  pc_ResponseCaches :: bool
  pc_MTLSClients :: "string list"

definition defaultTimeout :: duration where
  "defaultTimeout = 30 * second"

text \<open>The defaults of \<^verbatim>\<open>NewProxy\<close>.\<close>

definition NewProxy :: "ProxyConfig \<Rightarrow> ProxyConfig" where
  "NewProxy cfg =
    (let cfg1 = (if pc_DefaultTimeout cfg = 0 then cfg\<lparr>pc_DefaultTimeout := defaultTimeout\<rparr> else cfg) in
     if pc_DefaultPolicy cfg1 = [] then cfg1\<lparr>pc_DefaultPolicy := PolicyDeny\<rparr> else cfg1)"

text \<open>What goes to the network: the client that is used (the one of a route with a client
  certificate, or the default one) and the request.\<close>

record upstream_request =
  ur_Client :: "string option"
  ur_Method :: string
  ur_URL :: string
  ur_Header :: header
  ur_Body :: "Body option"

text \<open>What the code asks of a transport error: whether it wraps the body-limit error or the SSRF
  error, whether its text names a TLS failure, and whether it is a timeout or a cancellation.\<close>

record transport_error =
  te_TooLarge :: bool
  te_SSRF :: bool
  te_TLS :: bool
  te_Timeout :: bool

datatype do_result = DoResponse int header Body | DoError transport_error

text \<open>The environment: the clock (the reading of the \<open>n\<close>-th look at it), the token bucket of a route
  (\<^const>\<open>None\<close> when its expression is malformed), whether a request can be built for a method and URL,
  the HTTP client (its answer and what it left of the request body), the interruptible sleep, the
  secret store and the URL library. \<open>'w\<close> is the state of the world these depend on.\<close>

record 'w env =
  env_clock :: "nat \<Rightarrow> instant"
  env_allow :: "Route \<Rightarrow> 'w \<Rightarrow> bool option \<times> 'w"
  env_newreq :: "string \<Rightarrow> string \<Rightarrow> bool"
  env_do :: "upstream_request \<Rightarrow> 'w \<Rightarrow> do_result \<times> Body option \<times> 'w"
  env_sleep :: "duration \<Rightarrow> 'w \<Rightarrow> bool \<times> 'w"
  env_store :: "'w \<Rightarrow> string \<Rightarrow> bool + (string, string) gomap"
  env_url_query :: "string \<Rightarrow> url_values option"
  env_url_set_query :: "string \<Rightarrow> url_values \<Rightarrow> string"

record 'w px =
  px_tick :: nat
  px_breakers :: registry
  px_caches :: cache_registry
  px_injector :: SecretInjector
  px_world :: 'w
  px_sent :: "upstream_request list"
  px_blocked :: "(string \<times> string) list"

datatype egress_error =
    ErrDeniedByPolicy | ErrInsecureURL | ErrBreakerCheck cb_error | ErrCircuitOpen
  | ErrRateCheck | ErrRateLimitExceeded | ErrRequestBodyTooLarge | ErrSanitize body_end
  | ErrNoInjector | ErrSecret secret_error | ErrBuildRequest | ErrMTLSHandshakeFailed transport_error
  | ErrForward transport_error | ErrBadResponse | ErrResponseValidationFailed

text \<open>A stage either fails with an error or yields a value, and always yields the new state.\<close>

type_synonym ('w, 'a) act = "'w px \<Rightarrow> (egress_error + 'a) \<times> 'w px"

definition ret :: "'a \<Rightarrow> ('w, 'a) act" where
  "ret a px = (Inr a, px)"

definition fail :: "egress_error \<Rightarrow> ('w, 'a) act" where
  "fail e px = (Inl e, px)"

definition seqn :: "('w, 'a) act \<Rightarrow> ('a \<Rightarrow> ('w, 'b) act) \<Rightarrow> ('w, 'b) act" where
  "seqn f g px = (case f px of (Inl e, px') \<Rightarrow> (Inl e, px') | (Inr a, px') \<Rightarrow> g a px')"

definition tick :: "'w env \<Rightarrow> 'w px \<Rightarrow> instant \<times> 'w px" where
  "tick env px = (env_clock env (px_tick px), px\<lparr>px_tick := Suc (px_tick px)\<rparr>)"

section \<open>Checks before the upstream call\<close>

definition routeNameOf :: "Route option \<Rightarrow> string" where
  "routeNameOf m = (case m of Some r \<Rightarrow> rt_name r | None \<Rightarrow> ''unmatched'')"

definition emitBlocked :: "Route option \<Rightarrow> string \<Rightarrow> 'w px \<Rightarrow> 'w px" where
  "emitBlocked m reason px = px\<lparr>px_blocked := px_blocked px @ [(routeNameOf m, reason)]\<rparr>"

definition check_policy :: "ProxyConfig \<Rightarrow> Route option \<Rightarrow> ('w, unit) act" where
  "check_policy cfg m px =
    (if m = None \<and> pc_DefaultPolicy cfg = PolicyDeny
     then (Inl ErrDeniedByPolicy, emitBlocked m ''no route matched default deny policy'' px)
     else (Inr (), px))"

definition check_tls :: "ProxyConfig \<Rightarrow> Route option \<Rightarrow> EgressRequest \<Rightarrow> ('w, unit) act" where
  "check_tls cfg m req px =
    (if prefix ''http://'' (er_URL req) \<and>
        \<not> (case m of Some r \<Rightarrow> rt_allowInsecure r | None \<Rightarrow> False) \<and> \<not> pc_AllowInsecure cfg
     then (Inl ErrInsecureURL, emitBlocked m ''plain HTTP not allowed'' px)
     else (Inr (), px))"

definition check_breaker :: "'w env \<Rightarrow> ProxyConfig \<Rightarrow> Route option \<Rightarrow> ('w, unit) act" where
  "check_breaker env cfg m px =
    (case m of
       Some r \<Rightarrow>
         if pc_CircuitBreakers cfg then
           (let (t, px1) = tick env px; (res, g) = reg_IsOpen t r (px_breakers px1); px2 = px1\<lparr>px_breakers := g\<rparr> in
            case res of
              Inl e \<Rightarrow> (Inl (ErrBreakerCheck e), px2)
            | Inr True \<Rightarrow> (Inl ErrCircuitOpen, emitBlocked m ''circuit breaker open'' px2)
            | Inr False \<Rightarrow> (Inr (), px2))
         else (Inr (), px)
     | None \<Rightarrow> (Inr (), px))"

definition check_rate :: "'w env \<Rightarrow> ProxyConfig \<Rightarrow> Route option \<Rightarrow> ('w, unit) act" where
  "check_rate env cfg m px =
    (case m of
       Some r \<Rightarrow>
         if pc_RateLimiters cfg then
           (let (res, w) = env_allow env r (px_world px); px1 = px\<lparr>px_world := w\<rparr> in
            case res of
              None \<Rightarrow> (Inl ErrRateCheck, px1)
            | Some True \<Rightarrow> (Inr (), px1)
            | Some False \<Rightarrow> (Inl ErrRateLimitExceeded, px1))
         else (Inr (), px)
     | None \<Rightarrow> (Inr (), px))"

definition lookup_cache :: "'w env \<Rightarrow> ProxyConfig \<Rightarrow> Route option \<Rightarrow> EgressRequest \<Rightarrow> ('w, EgressResponse option) act" where
  "lookup_cache env cfg m req px =
    (case m of
       Some r \<Rightarrow>
         if pc_ResponseCaches cfg then
           (case CacheFor r (px_caches px) of
              (None, g) \<Rightarrow> (Inr None, px\<lparr>px_caches := g\<rparr>)
            | (Some c, g) \<Rightarrow>
                (let (t, px1) = tick env px; (hit, c') = ca_Get (er_Method req) (er_URL req) t c;
                     px2 = px1\<lparr>px_caches := AList.update (rt_name r) c' g\<rparr> in
                 (Inr (map_option egressResponseFromCache hit), px2)))
         else (Inr None, px)
     | None \<Rightarrow> (Inr None, px))"

definition limitedBody :: "int \<Rightarrow> Body \<Rightarrow> Body" where
  "limitedBody limit b =
    (if limit < int (length (bd_data b))
     then \<lparr>bd_data = take (nat limit + 1) (bd_data b), bd_end = EndTooLarge\<rparr> else b)"

definition enforceRequestBodyLimit :: "EgressRequest \<Rightarrow> int \<Rightarrow> ('w, EgressRequest) act" where
  "enforceRequestBodyLimit req limit px =
    (let cl = hdr_Get (er_Header req) ''Content-Length'' in
     if cl \<noteq> [] \<and> (case Sscanf_d cl of Some n \<Rightarrow> limit < n | None \<Rightarrow> False)
     then (Inl ErrRequestBodyTooLarge, px)
     else (Inr (req\<lparr>er_Body := map_option (limitedBody limit) (er_Body req)\<rparr>), px))"

definition bodySizeLimitFor :: "ProxyConfig \<Rightarrow> Route option \<Rightarrow> int" where
  "bodySizeLimitFor cfg m =
    (case m of Some r \<Rightarrow> if 0 < rt_bodySizeLimit r then rt_bodySizeLimit r else pc_DefaultBodySizeLimit cfg
     | None \<Rightarrow> pc_DefaultBodySizeLimit cfg)"

definition limit_body :: "ProxyConfig \<Rightarrow> Route option \<Rightarrow> EgressRequest \<Rightarrow> ('w, EgressRequest) act" where
  "limit_body cfg m req =
    (if 0 < bodySizeLimitFor cfg m then enforceRequestBodyLimit req (bodySizeLimitFor cfg m) else ret req)"

section \<open>Preparing the outbound request\<close>

definition applyHeaderManipulation :: "EgressRequest \<Rightarrow> Route option \<Rightarrow> header" where
  "applyHeaderManipulation req m =
    (case m of Some r \<Rightarrow> ApplyToRequest (rt_headers r) (er_Header req)
     | None \<Rightarrow> hdr_Del headerInjectSecret (er_Header req))"

text \<open>Which injection applies: the route's own secret, else the one the application names, with the
  header and format the route may override.\<close>

definition injection_for :: "header \<Rightarrow> Route option \<Rightarrow> SecretConfig option" where
  "injection_for original m =
    (let dynamicName = hdr_Get original headerInjectSecret in
     case m of
       Some r \<Rightarrow>
         if sc_Name (rt_secret r) \<noteq> [] then Some (rt_secret r)
         else if dynamicName \<noteq> [] then
           Some \<lparr>sc_Name = dynamicName,
                 sc_Header = (if sc_Header (rt_secret r) \<noteq> [] then sc_Header (rt_secret r) else ''Authorization''),
                 sc_Format = (if sc_Format (rt_secret r) \<noteq> [] then sc_Format (rt_secret r) else [])\<rparr>
         else None
     | None \<Rightarrow>
         if dynamicName \<noteq> [] then Some \<lparr>sc_Name = dynamicName, sc_Header = ''Authorization'', sc_Format = []\<rparr>
         else None)"

definition applySecretInjection ::
    "'w env \<Rightarrow> ProxyConfig \<Rightarrow> header \<Rightarrow> Route option \<Rightarrow> header \<Rightarrow> ('w, header) act" where
  "applySecretInjection env cfg original m outHeaders px =
    (let out1 = hdr_Del headerInjectSecret outHeaders in
     case injection_for original m of
       None \<Rightarrow> (Inr out1, px)
     | Some sc \<Rightarrow>
         if \<not> pc_SecretInjector cfg then (Inl ErrNoInjector, px)
         else
           (let (t, px1) = tick env px; (t', px2) = tick env px1;
                (res, inj) = si_Inject (env_store env (px_world px2)) t t' sc (px_injector px2);
                px3 = px2\<lparr>px_injector := inj\<rparr> in
            case res of
              Inl e \<Rightarrow> (Inl (ErrSecret e), px3)
            | Inr (h, v) \<Rightarrow> (Inr (hdr_Set h v out1), px3)))"

definition prepareOutboundRequest ::
    "'w env \<Rightarrow> ProxyConfig \<Rightarrow> EgressRequest \<Rightarrow> Route option \<Rightarrow> ('w, EgressRequest \<times> header) act" where
  "prepareOutboundRequest env cfg req m =
    (let outHeaders = applyHeaderManipulation req m;
         inject = (\<lambda>req'. seqn (applySecretInjection env cfg (er_Header req') m outHeaders) (\<lambda>h. ret (req', h))) in
     case m of
       Some r \<Rightarrow>
         if \<not> sz_IsZero (rt_sanitize r) then
           (case sanitizeRequest (env_url_query env) (env_url_set_query env) req (rt_sanitize r) of
              Inl e \<Rightarrow> fail (ErrSanitize e)
            | Inr (req', logHeaders, result) \<Rightarrow> inject req')
         else inject req
     | None \<Rightarrow> inject req)"

section \<open>The upstream call\<close>

definition buildUpstreamRequest :: "ProxyConfig \<Rightarrow> Route option \<Rightarrow> EgressRequest \<Rightarrow> header \<Rightarrow> upstream_request" where
  "buildUpstreamRequest cfg m req outHeaders =
    \<lparr>ur_Client = (case m of Some r \<Rightarrow> if rt_name r \<in> set (pc_MTLSClients cfg) then Some (rt_name r) else None
                  | None \<Rightarrow> None),
     ur_Method = er_Method req, ur_URL = er_URL req, ur_Header = hdr_AddAll outHeaders [], ur_Body = er_Body req\<rparr>"

definition retryableStatusCodes :: "int list" where
  "retryableStatusCodes = [408, 429, 500, 502, 503, 504]"

definition shouldRetryStatus :: "int \<Rightarrow> bool" where
  "shouldRetryStatus code \<longleftrightarrow> code \<in> set retryableStatusCodes"

definition wrap64 :: "int \<Rightarrow> int" where
  "wrap64 x = (x + 2 ^ 63) mod 2 ^ 64 - 2 ^ 63"

definition computeBackoff :: "RetryBackoff \<Rightarrow> duration \<Rightarrow> nat \<Rightarrow> duration" where
  "computeBackoff strategy base attempt =
    (if strategy = RetryBackoffFixed then base
     else let shift = (if 30 < attempt - 1 then 30 else attempt - 1) in wrap64 (base * 2 ^ shift))"

definition record_failure :: "'w env \<Rightarrow> ProxyConfig \<Rightarrow> Route option \<Rightarrow> 'w px \<Rightarrow> 'w px" where
  "record_failure env cfg m px =
    (case m of
       Some r \<Rightarrow>
         if pc_CircuitBreakers cfg then
           (let (t, px1) = tick env px; (evs, g) = reg_RecordFailure t r (px_breakers px1) in px1\<lparr>px_breakers := g\<rparr>)
         else px
     | None \<Rightarrow> px)"

definition isFailureStatus :: "int \<Rightarrow> bool" where
  "isFailureStatus code \<longleftrightarrow> 500 \<le> code"

definition recordCircuitOutcome :: "'w env \<Rightarrow> ProxyConfig \<Rightarrow> Route option \<Rightarrow> int \<Rightarrow> 'w px \<Rightarrow> 'w px" where
  "recordCircuitOutcome env cfg m st px =
    (case m of
       Some r \<Rightarrow>
         if pc_CircuitBreakers cfg then
           (if isFailureStatus st then record_failure env cfg m px
            else px\<lparr>px_breakers := snd (reg_RecordSuccess r (px_breakers px))\<rparr>)
         else px
     | None \<Rightarrow> px)"

text \<open>A fatal transport error, with what it does to the breaker, or \<^const>\<open>None\<close> when the attempt may
  be retried.\<close>

definition classifyTransportError ::
    "'w env \<Rightarrow> ProxyConfig \<Rightarrow> Route option \<Rightarrow> transport_error \<Rightarrow> 'w px \<Rightarrow> egress_error option \<times> 'w px" where
  "classifyTransportError env cfg m e px =
    (if (case m of Some r \<Rightarrow> \<not> mtls_IsZero (rt_mtls r) | None \<Rightarrow> False) \<and> te_TLS e
     then (Some (ErrMTLSHandshakeFailed e), px)
     else if te_Timeout e then (Some (ErrForward e), record_failure env cfg m px)
     else (None, px))"

definition cancelled :: transport_error where
  "cancelled = \<lparr>te_TooLarge = False, te_SSRF = False, te_TLS = False, te_Timeout = True\<rparr>"

record retry_plan =
  rp_enabled :: bool
  rp_max :: nat
  rp_backoff :: RetryBackoff
  rp_initial :: duration

definition retry_plan_for :: "Route option \<Rightarrow> string \<Rightarrow> retry_plan" where
  "retry_plan_for m mth =
    (let rc = (case m of
                 Some r \<Rightarrow> if 0 < rc_Max (rt_retry r) \<and> IsRetryableMethod (rt_retry r) mth then Some (rt_retry r) else None
               | None \<Rightarrow> None) in
     case rc of
       Some c \<Rightarrow> \<lparr>rp_enabled = True, rp_max = 1 + nat (rc_Max c), rp_backoff = rc_Backoff c,
                  rp_initial = (if rc_InitialBackoff c \<le> 0 then 100 * millisecond else rc_InitialBackoff c)\<rparr>
     | None \<Rightarrow> \<lparr>rp_enabled = False, rp_max = 1, rp_backoff = [], rp_initial = 100 * millisecond\<rparr>)"

record upstream_response =
  up_Status :: int
  up_Header :: header
  up_Body :: Body
  up_Attempts :: nat

definition do_sleep :: "'w env \<Rightarrow> duration \<Rightarrow> 'w px \<Rightarrow> bool \<times> 'w px" where
  "do_sleep env d px = (let (ok, w) = env_sleep env d (px_world px) in (ok, px\<lparr>px_world := w\<rparr>))"

definition do_request :: "'w env \<Rightarrow> upstream_request \<Rightarrow> 'w px \<Rightarrow> do_result \<times> Body option \<times> 'w px" where
  "do_request env u px =
    (let (res, left, w) = env_do env u (px_world px) in
     (res, left, px\<lparr>px_world := w, px_sent := px_sent px @ [u]\<rparr>))"

text \<open>The retry loop, from attempt number \<open>n\<close> on. The request body is one stream for all attempts:
  each attempt sends what the previous one left of it.\<close>

function retry_loop ::
    "'w env \<Rightarrow> ProxyConfig \<Rightarrow> Route option \<Rightarrow> header \<Rightarrow> retry_plan \<Rightarrow> nat \<Rightarrow> EgressRequest \<Rightarrow> ('w, upstream_response) act" where
  "retry_loop env cfg m hs rp n req px =
    (if \<not> env_newreq env (er_Method req) (er_URL req) then (Inl ErrBuildRequest, px)
     else
       let (res, left, px1) = do_request env (buildUpstreamRequest cfg m req hs) px;
           req1 = req\<lparr>er_Body := left\<rparr> in
       case res of
         DoError e \<Rightarrow>
           (case classifyTransportError env cfg m e px1 of
              (Some err, px2) \<Rightarrow> (Inl err, px2)
            | (None, px2) \<Rightarrow>
                if rp_enabled rp \<and> n < rp_max rp then
                  (case do_sleep env (computeBackoff (rp_backoff rp) (rp_initial rp) n) px2 of
                     (False, px3) \<Rightarrow> (Inl (ErrForward cancelled), record_failure env cfg m px3)
                   | (True, px3) \<Rightarrow> retry_loop env cfg m hs rp (Suc n) req1 px3)
                else (Inl (ErrForward e), record_failure env cfg m px2))
       | DoResponse st h b \<Rightarrow>
           if rp_enabled rp \<and> n < rp_max rp \<and> shouldRetryStatus st then
             (case do_sleep env (computeBackoff (rp_backoff rp) (rp_initial rp) n) px1 of
                (False, px3) \<Rightarrow> (Inl (ErrForward cancelled), px3)
              | (True, px3) \<Rightarrow> retry_loop env cfg m hs rp (Suc n) req1 px3)
           else (Inr \<lparr>up_Status = st, up_Header = h, up_Body = b, up_Attempts = n\<rparr>, px1))"
  by pat_completeness auto
termination
  by (relation "measure (\<lambda>(env, cfg, m, hs, rp, n, req, px). rp_max rp - n)") auto

declare retry_loop.simps [simp del]

definition executeWithRetries ::
    "'w env \<Rightarrow> ProxyConfig \<Rightarrow> Route option \<Rightarrow> EgressRequest \<Rightarrow> header \<Rightarrow> ('w, upstream_response) act" where
  "executeWithRetries env cfg m req hs = retry_loop env cfg m hs (retry_plan_for m (er_Method req)) 1 req"

definition buildEgressResponse :: "Route option \<Rightarrow> upstream_response \<Rightarrow> egress_error + EgressResponse" where
  "buildEgressResponse m up =
    (let hs = ApplyToResponse (case m of Some r \<Rightarrow> rt_headers r
                               | None \<Rightarrow> \<lparr>hc_Inject = [], hc_StripRequest = [], hc_StripResponse = []\<rparr>) (up_Header up) in
     case NewEgressResponse (up_Status up) hs (Some (up_Body up)) of
       Inl e \<Rightarrow> Inl ErrBadResponse
     | Inr resp \<Rightarrow> Inr (resp\<lparr>es_Attempts := int (up_Attempts up)\<rparr>))"

definition forward :: "'w env \<Rightarrow> ProxyConfig \<Rightarrow> EgressRequest \<Rightarrow> Route option \<Rightarrow> ('w, EgressResponse) act" where
  "forward env cfg req m =
    seqn (prepareOutboundRequest env cfg req m) (\<lambda>(req', hs).
    seqn (executeWithRetries env cfg m req' hs) (\<lambda>up px.
      (buildEgressResponse m up, recordCircuitOutcome env cfg m (up_Status up) px)))"

section \<open>After the upstream call\<close>

text \<open>\<^verbatim>\<open>errors.Is(err, ErrRequestBodyTooLarge)\<close>.\<close>

definition wraps_too_large :: "egress_error \<Rightarrow> bool" where
  "wraps_too_large e =
    (case e of
       ErrRequestBodyTooLarge \<Rightarrow> True
     | ErrSanitize b \<Rightarrow> b = EndTooLarge
     | ErrMTLSHandshakeFailed t \<Rightarrow> te_TooLarge t
     | ErrForward t \<Rightarrow> te_TooLarge t
     | _ \<Rightarrow> False)"

definition forward_checked :: "'w env \<Rightarrow> ProxyConfig \<Rightarrow> EgressRequest \<Rightarrow> Route option \<Rightarrow> ('w, EgressResponse) act" where
  "forward_checked env cfg req m px =
    (case forward env cfg req m px of
       (Inl e, px') \<Rightarrow> (Inl (if wraps_too_large e then ErrRequestBodyTooLarge else e), px')
     | (Inr r, px') \<Rightarrow> (Inr r, px'))"

definition validateResponse :: "Route option \<Rightarrow> EgressResponse \<Rightarrow> ('w, unit) act" where
  "validateResponse m resp px =
    (case m of
       Some r \<Rightarrow>
         (let v = rt_validateResponse r in
          if rv_IsZero v then (Inr (), px)
          else if \<not> MatchesStatusCode v (es_Status resp) then (Inl ErrResponseValidationFailed, px)
          else if \<not> MatchesContentType v (hdr_Get (es_Header resp) ''Content-Type'') then (Inl ErrResponseValidationFailed, px)
          else (Inr (), px))
     | None \<Rightarrow> (Inr (), px))"

text \<open>A body that could not be read for the cache has been closed: reading it again fails.\<close>

definition closed_body :: Body where
  "closed_body = \<lparr>bd_data = [], bd_end = EndError\<rparr>"

definition store_cache :: "'w env \<Rightarrow> ProxyConfig \<Rightarrow> Route option \<Rightarrow> EgressRequest \<Rightarrow> EgressResponse \<Rightarrow> ('w, EgressResponse) act" where
  "store_cache env cfg m req resp px =
    (case m of
       Some r \<Rightarrow>
         if pc_ResponseCaches cfg \<and> isCacheable (er_Method req) (es_Status resp) then
           (case CacheFor r (px_caches px) of
              (None, g) \<Rightarrow> (Inr resp, px\<lparr>px_caches := g\<rparr>)
            | (Some c, g) \<Rightarrow>
                (let (t, px1) = tick env px in
                 case cacheableResponse resp (rt_cache r) (er_Method req, er_URL req) t of
                   None \<Rightarrow> (Inr (resp\<lparr>es_Body := Some closed_body\<rparr>), px1\<lparr>px_caches := g\<rparr>)
                 | Some (entry, fresh) \<Rightarrow>
                     (Inr (resp\<lparr>es_Body := Some fresh, es_Header := hdr_Set headerEgressCache ''MISS'' (es_Header resp)\<rparr>),
                      px1\<lparr>px_caches := (case entry of Some e \<Rightarrow> AList.update (rt_name r) (ca_Set e c) g | None \<Rightarrow> g)\<rparr>)))
         else (Inr resp, px)
     | None \<Rightarrow> (Inr resp, px))"

definition HandleRequest :: "'w env \<Rightarrow> ProxyConfig \<Rightarrow> EgressRequest \<Rightarrow> ('w, EgressResponse) act" where
  "HandleRequest env cfg req =
    (let m = rm_Route (Resolve (pc_Routes cfg) req) in
     seqn (check_policy cfg m) (\<lambda>_.
     seqn (check_tls cfg m req) (\<lambda>_.
     seqn (check_breaker env cfg m) (\<lambda>_.
     seqn (check_rate env cfg m) (\<lambda>_.
     seqn (lookup_cache env cfg m req) (\<lambda>hit.
       case hit of
         Some resp \<Rightarrow> ret resp
       | None \<Rightarrow>
           seqn (limit_body cfg m req) (\<lambda>req1.
           seqn (forward_checked env cfg req1 m) (\<lambda>resp.
           seqn (validateResponse m resp) (\<lambda>_.
             store_cache env cfg m req1 resp)))))))))"

section \<open>What is sent\<close>

text \<open>\<open>emits P k f\<close>: running \<open>f\<close> appends at most \<open>k\<close> requests to those sent upstream, all satisfying
  \<open>P\<close>.\<close>

definition emits :: "(upstream_request \<Rightarrow> bool) \<Rightarrow> nat \<Rightarrow> ('w, 'a) act \<Rightarrow> bool" where
  "emits P k f \<longleftrightarrow> (\<forall>px. \<exists>us. px_sent (snd (f px)) = px_sent px @ us \<and> length us \<le> k \<and> list_all P us)"

lemma emits_silent: "(\<And>px. px_sent (snd (f px)) = px_sent px) \<Longrightarrow> emits P 0 f"
  by (simp add: emits_def)

lemma emits_mono: "emits P i f \<Longrightarrow> i \<le> k \<Longrightarrow> (\<And>u. P u \<Longrightarrow> Q u) \<Longrightarrow> emits Q k f"
  unfolding emits_def by (meson le_trans list.pred_mono_strong)

lemma emits_seqn:
  assumes "emits P i f" "\<And>a px px'. f px = (Inr a, px') \<Longrightarrow> emits P j (g a)"
  shows "emits P (i + j) (seqn f g)"
  unfolding emits_def
proof
  fix px
  obtain us where us: "px_sent (snd (f px)) = px_sent px @ us" "length us \<le> i" "list_all P us"
    using assms(1) unfolding emits_def by blast
  show "\<exists>us. px_sent (snd (seqn f g px)) = px_sent px @ us \<and> length us \<le> i + j \<and> list_all P us"
  proof (cases "f px")
    case (Pair r px')
    show ?thesis
    proof (cases r)
      case (Inl e)
      with Pair us show ?thesis by (intro exI [of _ us]) (simp add: seqn_def)
    next
      case (Inr a)
      with Pair assms(2) have "emits P j (g a)" by simp
      then obtain vs where "px_sent (snd (g a px')) = px_sent px' @ vs" "length vs \<le> j" "list_all P vs"
        unfolding emits_def by blast
      with Pair Inr us show ?thesis by (intro exI [of _ "us @ vs"]) (simp add: seqn_def)
    qed
  qed
qed

lemma emits_seqn0:
  assumes "emits P 0 f" "\<And>a px px'. f px = (Inr a, px') \<Longrightarrow> emits P j (g a)"
  shows "emits P j (seqn f g)"
  using emits_seqn [OF assms] by simp

lemma sent_record_failure [simp]: "px_sent (record_failure env cfg m px) = px_sent px"
  by (auto simp: record_failure_def tick_def Let_def split: option.splits prod.splits)

lemma sent_recordCircuitOutcome [simp]: "px_sent (recordCircuitOutcome env cfg m st px) = px_sent px"
  by (auto simp: recordCircuitOutcome_def split: option.splits)

lemma sent_classify [simp]: "px_sent (snd (classifyTransportError env cfg m e px)) = px_sent px"
  by (auto simp: classifyTransportError_def)

lemma sent_do_sleep [simp]: "px_sent (snd (do_sleep env d px)) = px_sent px"
  by (auto simp: do_sleep_def split: prod.splits)

lemma emits_checks:
  "emits P 0 (check_policy cfg m)"
  "emits P 0 (check_tls cfg m req)"
  "emits P 0 (check_breaker env cfg m)"
  "emits P 0 (check_rate env cfg m)"
  "emits P 0 (lookup_cache env cfg m req)"
  "emits P 0 (limit_body cfg m req)"
  "emits P 0 (validateResponse m resp)"
  "emits P 0 (store_cache env cfg m req resp)"
  "emits P 0 (ret a)"
  "emits P 0 (fail e)"
  by (intro emits_silent; auto simp: check_policy_def check_tls_def check_breaker_def check_rate_def lookup_cache_def
      limit_body_def enforceRequestBodyLimit_def validateResponse_def store_cache_def ret_def fail_def
      emitBlocked_def tick_def Let_def split: option.splits prod.splits sum.splits bool.splits)+

lemma emits_secret: "emits P 0 (applySecretInjection env cfg original m hs)"
  by (intro emits_silent)
     (auto simp: applySecretInjection_def tick_def Let_def split: option.splits prod.splits sum.splits)

lemma emits_prepare: "emits P 0 (prepareOutboundRequest env cfg req m)"
proof -
  have "emits P 0 (seqn (applySecretInjection env cfg h m hs) (\<lambda>h'. ret (req', h')))" for h hs req'
    by (rule emits_seqn0 [OF emits_secret]) (rule emits_checks)
  then show ?thesis
    by (auto simp: prepareOutboundRequest_def Let_def emits_checks split: option.splits sum.splits prod.splits)
qed

definition upstream_of :: "ProxyConfig \<Rightarrow> Route option \<Rightarrow> EgressRequest \<Rightarrow> header \<Rightarrow> upstream_request \<Rightarrow> bool" where
  "upstream_of cfg m req hs u \<longleftrightarrow> (\<exists>left. u = buildUpstreamRequest cfg m (req\<lparr>er_Body := left\<rparr>) hs)"

lemma emits_retry_loop:
  "n \<le> rp_max rp \<Longrightarrow> \<exists>us. px_sent (snd (retry_loop env cfg m hs rp n req px)) = px_sent px @ us \<and>
     length us \<le> Suc (rp_max rp) - n \<and> list_all (upstream_of cfg m req hs) us"
proof (induction env cfg m hs rp n req px rule: retry_loop.induct)
  case (1 env cfg m hs rp n req px)
  let ?u = "buildUpstreamRequest cfg m req hs"
  show ?case
  proof (cases "env_newreq env (er_Method req) (er_URL req)")
    case False
    then show ?thesis by (simp add: retry_loop.simps [of env cfg m hs rp n req px])
  next
    case new: True
    obtain res left px1 where d: "do_request env ?u px = (res, left, px1)" by (metis prod_cases3)
    have s1: "px_sent px1 = px_sent px @ [?u]"
      using d by (auto simp: do_request_def Let_def split: prod.splits)
    have u: "upstream_of cfg m req hs ?u"
      unfolding upstream_of_def by (rule exI [of _ "er_Body req"]) simp
    let ?req1 = "req\<lparr>er_Body := left\<rparr>"
    have lift: "upstream_of cfg m ?req1 hs = upstream_of cfg m req hs" by (simp add: upstream_of_def fun_eq_iff)
    have one: "\<exists>us. px_sent px2 = px_sent px @ us \<and> length us \<le> Suc (rp_max rp) - n \<and> list_all (upstream_of cfg m req hs) us"
      if "px_sent px2 = px_sent px1" for px2
      using that s1 u "1.prems" by (intro exI [of _ "[?u]"]) simp
    have more: "\<exists>us. px_sent (snd (retry_loop env cfg m hs rp (Suc n) ?req1 px3)) = px_sent px @ us \<and>
        length us \<le> Suc (rp_max rp) - n \<and> list_all (upstream_of cfg m req hs) us"
      if ih: "\<exists>us. px_sent (snd (retry_loop env cfg m hs rp (Suc n) ?req1 px3)) = px_sent px3 @ us \<and>
          length us \<le> Suc (rp_max rp) - Suc n \<and> list_all (upstream_of cfg m ?req1 hs) us"
        and "px_sent px3 = px_sent px1" "n < rp_max rp" for px3
    proof -
      from ih obtain us where "px_sent (snd (retry_loop env cfg m hs rp (Suc n) ?req1 px3)) = px_sent px3 @ us"
        "length us \<le> Suc (rp_max rp) - Suc n" "list_all (upstream_of cfg m req hs) us"
        unfolding lift by blast
      with that(2,3) s1 u show ?thesis by (intro exI [of _ "?u # us"]) simp
    qed
    show ?thesis
    proof (cases res)
      case (DoError e)
      obtain c px2 where c: "classifyTransportError env cfg m e px1 = (c, px2)" by fastforce
      have s2: "px_sent px2 = px_sent px1" using sent_classify [of env cfg m e px1] c by simp
      show ?thesis
      proof (cases "c = None \<and> rp_enabled rp \<and> n < rp_max rp")
        case True
        obtain ok px3 where sl: "do_sleep env (computeBackoff (rp_backoff rp) (rp_initial rp) n) px2 = (ok, px3)"
          by fastforce
        have s3: "px_sent px3 = px_sent px1" using sent_do_sleep sl s2 by (metis snd_conv)
        show ?thesis
        proof (cases ok)
          case ok: True
          have lt: "rp_enabled rp \<and> n < rp_max rp" using True by simp
          have "\<exists>us. px_sent (snd (retry_loop env cfg m hs rp (Suc n) ?req1 px3)) = px_sent px3 @ us \<and>
              length us \<le> Suc (rp_max rp) - Suc n \<and> list_all (upstream_of cfg m ?req1 hs) us"
            by (rule "1.IH"(2))
               (use new d DoError c True sl ok in auto)
          from more [OF this s3] lt
          show ?thesis using new d DoError c True sl ok by (simp add: retry_loop.simps [of env cfg m hs rp n req px])
        next
          case False
          with new d DoError c True sl one [of "record_failure env cfg m px3"] s3 show ?thesis
            by (simp add: retry_loop.simps [of env cfg m hs rp n req px])
        qed
      next
        case False
        with new d DoError c one [of px2] one [of "record_failure env cfg m px2"] s2 show ?thesis
          by (cases c) (auto simp: retry_loop.simps [of env cfg m hs rp n req px])
      qed
    next
      case (DoResponse st h b)
      show ?thesis
      proof (cases "rp_enabled rp \<and> n < rp_max rp \<and> shouldRetryStatus st")
        case True
        obtain ok px3 where sl: "do_sleep env (computeBackoff (rp_backoff rp) (rp_initial rp) n) px1 = (ok, px3)"
          by fastforce
        have s3: "px_sent px3 = px_sent px1" using sent_do_sleep sl by (metis snd_conv)
        show ?thesis
        proof (cases ok)
          case ok: True
          have "\<exists>us. px_sent (snd (retry_loop env cfg m hs rp (Suc n) ?req1 px3)) = px_sent px3 @ us \<and>
              length us \<le> Suc (rp_max rp) - Suc n \<and> list_all (upstream_of cfg m ?req1 hs) us"
            by (rule "1.IH"(1))
               (use new d DoResponse True sl ok in auto)
          from more [OF this s3] True
          show ?thesis using new d DoResponse sl ok by (simp add: retry_loop.simps [of env cfg m hs rp n req px])
        next
          case False
          with new d DoResponse True sl one [of px3] s3 show ?thesis
            by (simp add: retry_loop.simps [of env cfg m hs rp n req px])
        qed
      next
        case False
        with new d DoResponse one [of px1] show ?thesis
          by (auto simp: retry_loop.simps [of env cfg m hs rp n req px])
      qed
    qed
  qed
qed

lemma rp_max_pos: "1 \<le> rp_max (retry_plan_for m mth)"
  by (auto simp: retry_plan_for_def Let_def split: option.splits if_splits)

lemma emits_execute:
  "emits (upstream_of cfg m req hs) (rp_max (retry_plan_for m (er_Method req))) (executeWithRetries env cfg m req hs)"
  unfolding emits_def executeWithRetries_def
proof
  fix px
  from emits_retry_loop [OF rp_max_pos, of env cfg m hs m "er_Method req" req px]
  show "\<exists>us. px_sent (snd (retry_loop env cfg m hs (retry_plan_for m (er_Method req)) 1 req px)) = px_sent px @ us \<and>
      length us \<le> rp_max (retry_plan_for m (er_Method req)) \<and> list_all (upstream_of cfg m req hs) us"
    by simp
qed

text \<open>What preparation yields: the same method and header, and an outbound header that is the
  manipulated one without the dynamic secret header, with the injected secret set when there is one.\<close>

lemma secret_result:
  assumes "applySecretInjection env cfg original m hs px = (Inr h, px')"
  shows "(injection_for original m = None \<and> h = hdr_Del headerInjectSecret hs) \<or>
    (\<exists>sc v. injection_for original m = Some sc \<and> h = hdr_Set (sc_Header sc) v (hdr_Del headerInjectSecret hs))"
proof (cases "injection_for original m")
  case None
  with assms show ?thesis by (simp add: applySecretInjection_def)
next
  case (Some sc)
  obtain t px1 where t: "tick env px = (t, px1)" by fastforce
  obtain t' px2 where t': "tick env px1 = (t', px2)" by fastforce
  obtain res inj where i: "si_Inject (env_store env (px_world px2)) t t' sc (px_injector px2) = (res, inj)" by fastforce
  from assms Some t t' i obtain hn v where "res = Inr (hn, v)" "h = hdr_Set hn v (hdr_Del headerInjectSecret hs)"
    by (auto simp: applySecretInjection_def Let_def split: if_splits sum.splits)
  moreover have "hn = sc_Header sc" using i calculation(1)
    by (auto simp: si_Inject_def split: prod.splits sum.splits)
  ultimately show ?thesis using Some by blast
qed

lemma inject_result:
  "seqn (applySecretInjection env cfg h m hs) (\<lambda>h'. ret (r, h')) px = (Inr (r', hs'), px') \<Longrightarrow>
   r' = r \<and> applySecretInjection env cfg h m hs px = (Inr hs', px')"
  by (auto simp: seqn_def ret_def split: prod.splits sum.splits)

lemma prepare_result:
  assumes "prepareOutboundRequest env cfg req m px = (Inr (req', hs), px')"
  shows "er_Method req' = er_Method req" "er_Header req' = er_Header req"
    "(injection_for (er_Header req) m = None \<and> hs = hdr_Del headerInjectSecret (applyHeaderManipulation req m)) \<or>
     (\<exists>sc v. injection_for (er_Header req) m = Some sc \<and>
        hs = hdr_Set (sc_Header sc) v (hdr_Del headerInjectSecret (applyHeaderManipulation req m)))"
proof -
  have "er_Method req' = er_Method req \<and> er_Header req' = er_Header req \<and>
      applySecretInjection env cfg (er_Header req) m (applyHeaderManipulation req m) px = (Inr hs, px')"
    using assms
    by (auto simp: prepareOutboundRequest_def Let_def fail_def dest!: inject_result sanitizeRequest_header
        split: option.splits if_splits sum.splits prod.splits)
  then show "er_Method req' = er_Method req" "er_Header req' = er_Header req"
    "(injection_for (er_Header req) m = None \<and> hs = hdr_Del headerInjectSecret (applyHeaderManipulation req m)) \<or>
     (\<exists>sc v. injection_for (er_Header req) m = Some sc \<and>
        hs = hdr_Set (sc_Header sc) v (hdr_Del headerInjectSecret (applyHeaderManipulation req m)))"
    using secret_result by blast+
qed

text \<open>The requests a call sends are built from some prepared form of its request.\<close>

definition sent_for :: "'w env \<Rightarrow> ProxyConfig \<Rightarrow> Route option \<Rightarrow> EgressRequest \<Rightarrow> upstream_request \<Rightarrow> bool" where
  "sent_for env cfg m req u \<longleftrightarrow> (\<exists>body px px' req' hs.
     prepareOutboundRequest env cfg (req\<lparr>er_Body := body\<rparr>) m px = (Inr (req', hs), px') \<and> upstream_of cfg m req' hs u)"

lemma emits_forward:
  "emits (sent_for env cfg m req) (rp_max (retry_plan_for m (er_Method req)))
     (forward env cfg (req\<lparr>er_Body := body\<rparr>) m)"
  unfolding forward_def
proof (rule emits_seqn0 [OF emits_prepare])
  fix a px px'
  assume p: "prepareOutboundRequest env cfg (req\<lparr>er_Body := body\<rparr>) m px = (Inr a, px')"
  obtain req' hs where a: "a = (req', hs)" by (cases a)
  have m: "er_Method req' = er_Method req" using prepare_result(1) [OF p [unfolded a]] by simp
  have "emits (sent_for env cfg m req) (rp_max (retry_plan_for m (er_Method req'))) (executeWithRetries env cfg m req' hs)"
  proof (rule emits_mono [OF emits_execute])
    fix u assume "upstream_of cfg m req' hs u"
    with p a show "sent_for env cfg m req u" unfolding sent_for_def by blast
  qed simp
  then have "emits (sent_for env cfg m req) (rp_max (retry_plan_for m (er_Method req')) + 0)
      (seqn (executeWithRetries env cfg m req' hs)
        (\<lambda>up px. (buildEgressResponse m up, recordCircuitOutcome env cfg m (up_Status up) px)))"
    by (rule emits_seqn) (intro emits_silent, simp)
  then show "emits (sent_for env cfg m req) (rp_max (retry_plan_for m (er_Method req)))
      (case a of (req', hs) \<Rightarrow> seqn (executeWithRetries env cfg m req' hs)
         (\<lambda>up px. (buildEgressResponse m up, recordCircuitOutcome env cfg m (up_Status up) px)))"
    by (simp add: a m)
qed

lemma sent_forward_checked [simp]: "px_sent (snd (forward_checked env cfg req m px)) = px_sent (snd (forward env cfg req m px))"
  by (auto simp: forward_checked_def split: prod.splits sum.splits)

lemma limit_body_result:
  "limit_body cfg m req px = (Inr req', px') \<Longrightarrow> \<exists>body. req' = req\<lparr>er_Body := body\<rparr>"
  by (cases req) (auto simp: limit_body_def enforceRequestBodyLimit_def ret_def Let_def split: if_splits)

definition permitted :: "ProxyConfig \<Rightarrow> Route option \<Rightarrow> EgressRequest \<Rightarrow> bool" where
  "permitted cfg m req \<longleftrightarrow>
     (m \<noteq> None \<or> pc_DefaultPolicy cfg \<noteq> PolicyDeny) \<and>
     (\<not> prefix ''http://'' (er_URL req) \<or> (case m of Some r \<Rightarrow> rt_allowInsecure r | None \<Rightarrow> False) \<or> pc_AllowInsecure cfg)"

lemma check_policy_ok: "check_policy cfg m px = (Inr u, px') \<Longrightarrow> m \<noteq> None \<or> pc_DefaultPolicy cfg \<noteq> PolicyDeny"
  by (auto simp: check_policy_def split: if_splits)

lemma check_tls_ok: "check_tls cfg m req px = (Inr u, px') \<Longrightarrow>
   \<not> prefix ''http://'' (er_URL req) \<or> (case m of Some r \<Rightarrow> rt_allowInsecure r | None \<Rightarrow> False) \<or> pc_AllowInsecure cfg"
  by (auto simp: check_tls_def split: if_splits)

lemma emits_HandleRequest:
  fixes cfg req
  defines "m \<equiv> rm_Route (Resolve (pc_Routes cfg) req)"
  shows "emits (\<lambda>u. permitted cfg m req \<and> sent_for env cfg m req u) (rp_max (retry_plan_for m (er_Method req)))
    (HandleRequest env cfg req)"
  unfolding HandleRequest_def Let_def m_def [symmetric]
proof (rule emits_seqn0 [OF emits_checks(1)])
  fix a1 :: unit and px1 px1' :: "'a px"
  assume "check_policy cfg m px1 = (Inr a1, px1')"
  then have pol: "m \<noteq> None \<or> pc_DefaultPolicy cfg \<noteq> PolicyDeny" by (rule check_policy_ok)
  let ?P = "\<lambda>u. permitted cfg m req \<and> sent_for env cfg m req u"
  let ?k = "rp_max (retry_plan_for m (er_Method req))"
  show "emits ?P ?k (seqn (check_tls cfg m req) (\<lambda>_. seqn (check_breaker env cfg m) (\<lambda>_. seqn (check_rate env cfg m) (\<lambda>_.
     seqn (lookup_cache env cfg m req) (\<lambda>hit. case hit of Some resp \<Rightarrow> ret resp | None \<Rightarrow>
           seqn (limit_body cfg m req) (\<lambda>req1. seqn (forward_checked env cfg req1 m) (\<lambda>resp.
           seqn (validateResponse m resp) (\<lambda>_. store_cache env cfg m req1 resp))))))))"
  proof (rule emits_seqn0 [OF emits_checks(2)])
    fix a2 :: unit and px2 px2' :: "'a px"
    assume "check_tls cfg m req px2 = (Inr a2, px2')"
    from pol check_tls_ok [OF this] have perm: "permitted cfg m req" by (simp only: permitted_def simp_thms)
    have fwd: "emits ?P ?k (seqn (limit_body cfg m req) (\<lambda>req1. seqn (forward_checked env cfg req1 m) (\<lambda>resp.
           seqn (validateResponse m resp) (\<lambda>_. store_cache env cfg m req1 resp))))"
    proof (rule emits_seqn0 [OF emits_checks(6)])
      fix req1 and px3 px3' :: "'a px"
      assume "limit_body cfg m req px3 = (Inr req1, px3')"
      then obtain body where req1: "req1 = req\<lparr>er_Body := body\<rparr>" using limit_body_result by blast
      have "emits ?P ?k (forward_checked env cfg req1 m)"
        using emits_mono [OF emits_forward [of env cfg m req body], where k = ?k and Q = ?P] perm
        by (simp add: emits_def req1)
      then have "emits ?P (?k + 0) (seqn (forward_checked env cfg req1 m) (\<lambda>resp.
           seqn (validateResponse m resp) (\<lambda>_. store_cache env cfg m req1 resp)))"
        by (rule emits_seqn) (intro emits_seqn0 [OF emits_checks(7)] emits_checks(8))
      then show "emits ?P ?k (seqn (forward_checked env cfg req1 m) (\<lambda>resp.
           seqn (validateResponse m resp) (\<lambda>_. store_cache env cfg m req1 resp)))" by simp
    qed
    show "emits ?P ?k (seqn (check_breaker env cfg m) (\<lambda>_. seqn (check_rate env cfg m) (\<lambda>_.
       seqn (lookup_cache env cfg m req) (\<lambda>hit. case hit of Some resp \<Rightarrow> ret resp | None \<Rightarrow>
           seqn (limit_body cfg m req) (\<lambda>req1. seqn (forward_checked env cfg req1 m) (\<lambda>resp.
           seqn (validateResponse m resp) (\<lambda>_. store_cache env cfg m req1 resp)))))))"
      by (intro emits_seqn0 [OF emits_checks(3)] emits_seqn0 [OF emits_checks(4)] emits_seqn0 [OF emits_checks(5)])
         (auto split: option.split intro: fwd emits_mono [OF emits_checks(9)])
  qed
qed

definition new_requests :: "'w px \<Rightarrow> 'w px \<Rightarrow> upstream_request list" where
  "new_requests px px' = drop (length (px_sent px)) (px_sent px')"

lemma HandleRequest_sent:
  "px_sent (snd (HandleRequest env cfg req px)) = px_sent px @ new_requests px (snd (HandleRequest env cfg req px)) \<and>
   length (new_requests px (snd (HandleRequest env cfg req px)))
     \<le> rp_max (retry_plan_for (rm_Route (Resolve (pc_Routes cfg) req)) (er_Method req)) \<and>
   list_all (\<lambda>u. permitted cfg (rm_Route (Resolve (pc_Routes cfg) req)) req \<and>
       sent_for env cfg (rm_Route (Resolve (pc_Routes cfg) req)) req u)
     (new_requests px (snd (HandleRequest env cfg req px)))"
proof -
  from emits_HandleRequest [of cfg req env] obtain us where
    "px_sent (snd (HandleRequest env cfg req px)) = px_sent px @ us"
    "length us \<le> rp_max (retry_plan_for (rm_Route (Resolve (pc_Routes cfg) req)) (er_Method req))"
    "list_all (\<lambda>u. permitted cfg (rm_Route (Resolve (pc_Routes cfg) req)) req \<and>
       sent_for env cfg (rm_Route (Resolve (pc_Routes cfg) req)) req u) us"
    unfolding emits_def by blast
  then show ?thesis by (simp add: new_requests_def)
qed

lemma upstream_of_fields:
  "upstream_of cfg m req hs u \<Longrightarrow>
   ur_Method u = er_Method req \<and> ur_Header u = hdr_AddAll hs [] \<and>
   ur_Client u = (case m of Some r \<Rightarrow> if rt_name r \<in> set (pc_MTLSClients cfg) then Some (rt_name r) else None | None \<Rightarrow> None)"
  by (auto simp: upstream_of_def buildUpstreamRequest_def)

lemma sent_for_method:
  assumes "sent_for env cfg m req u"
  shows "ur_Method u = er_Method req"
proof -
  from assms obtain body px px' req' hs where
    p: "prepareOutboundRequest env cfg (req\<lparr>er_Body := body\<rparr>) m px = (Inr (req', hs), px')"
    and u: "upstream_of cfg m req' hs u" unfolding sent_for_def by blast
  from prepare_result(1) [OF p] upstream_of_fields [OF u] show ?thesis by simp
qed

text \<open>The header of a sent request, name by name.\<close>

lemma hdr_ok_manipulated: "hdr_ok (er_Header req) \<Longrightarrow> hdr_ok (applyHeaderManipulation req m)"
  by (auto simp: applyHeaderManipulation_def intro: hdr_ok_ApplyToRequest hdr_ok_Del split: option.splits)

lemma sent_for_header:
  assumes "sent_for env cfg m req u" "hdr_ok (er_Header req)"
  shows "(injection_for (er_Header req) m = None \<and>
      hdr_Values (ur_Header u) k = hdr_Values (hdr_Del headerInjectSecret (applyHeaderManipulation req m)) k) \<or>
    (\<exists>sc v. injection_for (er_Header req) m = Some sc \<and> hdr_Values (ur_Header u) k =
       hdr_Values (hdr_Set (sc_Header sc) v (hdr_Del headerInjectSecret (applyHeaderManipulation req m))) k)"
proof -
  from assms(1) obtain body px px' req' hs where
    p: "prepareOutboundRequest env cfg (req\<lparr>er_Body := body\<rparr>) m px = (Inr (req', hs), px')"
    and u: "upstream_of cfg m req' hs u" unfolding sent_for_def by blast
  have hm: "applyHeaderManipulation (req\<lparr>er_Body := body\<rparr>) m = applyHeaderManipulation req m"
    by (simp add: applyHeaderManipulation_def split: option.split)
  have ok: "hdr_ok (hdr_Del headerInjectSecret (applyHeaderManipulation req m))"
    using hdr_ok_manipulated [OF assms(2)] by (rule hdr_ok_Del)
  have res: "(injection_for (er_Header req) m = None \<and> hs = hdr_Del headerInjectSecret (applyHeaderManipulation req m)) \<or>
     (\<exists>sc v. injection_for (er_Header req) m = Some sc \<and>
        hs = hdr_Set (sc_Header sc) v (hdr_Del headerInjectSecret (applyHeaderManipulation req m)))"
    using prepare_result(3) [OF p] hm by simp
  have "hdr_ok hs" using res ok hdr_ok_Set by blast
  then have "hdr_Values (ur_Header u) k = hdr_Values hs k"
    using hdr_Values_AddAll [of hs "[]" k] upstream_of_fields [OF u] by (simp add: hdr_Values_def [of "[]"])
  with res show ?thesis by auto
qed


text \<open>C10: The name of a dynamically requested secret never leaves the proxy: no request sent upstream
  carries the \<^verbatim>\<open>X-Inject-Secret\<close> header, provided no route is configured to inject a secret under
  that very name.\<close>

theorem inject_secret_header_never_sent:
  assumes "hdr_ok (er_Header req)"
    and "\<And>r. r \<in> set (pc_Routes cfg) \<Longrightarrow> CanonicalHeaderKey (sc_Header (rt_secret r)) \<noteq> CanonicalHeaderKey headerInjectSecret"
  shows "list_all (\<lambda>u. hdr_Values (ur_Header u) headerInjectSecret = [])
    (new_requests px (snd (HandleRequest env cfg req px)))"
proof -
  let ?m = "rm_Route (Resolve (pc_Routes cfg) req)"
  have r: "?m = Some r \<Longrightarrow> r \<in> set (pc_Routes cfg)" for r
    by (auto simp: Resolve_find dest: find_SomeD)
  have auth: "CanonicalHeaderKey ''Authorization'' \<noteq> CanonicalHeaderKey headerInjectSecret" by code_simp
  have name: "CanonicalHeaderKey (sc_Header sc) \<noteq> CanonicalHeaderKey headerInjectSecret"
    if "injection_for (er_Header req) ?m = Some sc" for sc
    using that r assms(2) auth
    by (auto simp: injection_for_def Let_def split: option.splits if_splits)
  have "hdr_Values (ur_Header u) headerInjectSecret = []" if "sent_for env cfg ?m req u" for u
    using sent_for_header [OF that assms(1), of headerInjectSecret] name
    by (auto simp: hdr_Values_Set hdr_Values_Del)
  with HandleRequest_sent [of env cfg req px] show ?thesis
    by (auto simp: list_all_iff)
qed

text \<open>A small world for concrete runs: the clock reads its tick, the client answers 200 with an empty
  body after consuming the request body, sleeps complete, the store has no secret.\<close>

definition calm_env :: "unit env" where
  "calm_env =
    \<lparr>env_clock = int, env_allow = (\<lambda>r w. (Some True, w)), env_newreq = (\<lambda>m u. True),
     env_do = (\<lambda>u w. (DoResponse 200 [] (NewReader []), map_option (\<lambda>b. b\<lparr>bd_data := []\<rparr>) (ur_Body u), w)),
     env_sleep = (\<lambda>d w. (True, w)), env_store = (\<lambda>w n. Inl False), env_url_query = (\<lambda>u. None),
     env_url_set_query = (\<lambda>u q. u)\<rparr>"

definition idle_px :: "unit px" where
  "idle_px = \<lparr>px_tick = 0, px_breakers = [], px_caches = [], px_injector = NewSecretInjector 0, px_world = (),
              px_sent = [], px_blocked = []\<rparr>"

definition basic_config :: "Policy \<Rightarrow> Route list \<Rightarrow> ProxyConfig" where
  "basic_config pol rs =
    \<lparr>pc_DefaultPolicy = pol, pc_DefaultTimeout = 1, pc_DefaultBodySizeLimit = 0,
     pc_DefaultResponseSizeLimit = 0, pc_Routes = rs, pc_AllowInsecure = False, pc_SecretInjector = True,
     pc_CircuitBreakers = True, pc_RateLimiters = True, pc_ResponseCaches = True, pc_MTLSClients = []\<rparr>"

theorem inject_secret_header_never_sent_witness:
  "let req = \<lparr>er_Method = ''GET'', er_URL = ''https://h/'', er_Header = [(''X-Inject-Secret'', [''db''])], er_Body = None\<rparr> in
   list_all (\<lambda>u. hdr_Values (ur_Header u) headerInjectSecret = [])
     (new_requests idle_px (snd (HandleRequest calm_env (basic_config PolicyAllow []) req idle_px)))"
proof -
  let ?req = "\<lparr>er_Method = ''GET'', er_URL = ''https://h/'', er_Header = [(''X-Inject-Secret'', [''db''])], er_Body = None\<rparr>"
  have "CanonicalHeaderKey ''X-Inject-Secret'' = ''X-Inject-Secret''" by code_simp
  then have "hdr_ok (er_Header ?req)" by (simp add: hdr_ok_def)
  from inject_secret_header_never_sent [OF this, of "basic_config PolicyAllow []" idle_px calm_env] show ?thesis
    by (simp add: basic_config_def)
qed

text \<open>The plain HTTP check looks at the letters of the scheme: under an allow policy a target that
  spells the scheme in upper case is sent although plain HTTP is allowed neither globally nor by a
  route.\<close>

theorem uppercase_scheme_bypasses_tls_check:
  "let req = \<lparr>er_Method = ''GET'', er_URL = ''HTTP://h/'', er_Header = [], er_Body = None\<rparr>;
       req' = req\<lparr>er_URL := ''http://h/''\<rparr>; cfg = basic_config PolicyAllow [] in
   map ur_URL (new_requests idle_px (snd (HandleRequest calm_env cfg req idle_px))) = [''HTTP://h/''] \<and>
   \<not> pc_AllowInsecure cfg \<and>
   fst (HandleRequest calm_env cfg req' idle_px) = Inl ErrInsecureURL"
  by (simp add: HandleRequest_def basic_config_def NewUnmatchedRouteMatch_def seqn_def check_policy_def check_tls_def
      check_breaker_def check_rate_def lookup_cache_def limit_body_def bodySizeLimitFor_def ret_def
      forward_checked_def forward_def prepareOutboundRequest_def applySecretInjection_def injection_for_def
      hdr_Get_def hdr_Values_def hdr_Del_def applyHeaderManipulation_def executeWithRetries_def retry_plan_for_def
      retry_loop.simps calm_env_def idle_px_def do_request_def buildUpstreamRequest_def buildEgressResponse_def
      NewEgressResponse_def validateResponse_def store_cache_def recordCircuitOutcome_def new_requests_def Let_def)

fun results :: "'w env \<Rightarrow> ProxyConfig \<Rightarrow> EgressRequest list \<Rightarrow> 'w px \<Rightarrow> (egress_error + EgressResponse) list" where
  "results env cfg [] px = []"
| "results env cfg (q # qs) px = fst (HandleRequest env cfg q px) # results env cfg qs (snd (HandleRequest env cfg q px))"

definition resolves_to :: "ProxyConfig \<Rightarrow> Route \<Rightarrow> EgressRequest \<Rightarrow> bool" where
  "resolves_to cfg r q \<longleftrightarrow> rm_Route (Resolve (pc_Routes cfg) q) = Some r \<and> permitted cfg (Some r) q"

lemma checks_pass:
  assumes "resolves_to cfg r q"
  shows "check_policy cfg (Some r) px = (Inr (), px)" "check_tls cfg (Some r) q px = (Inr (), px)"
  using assms by (auto simp: resolves_to_def permitted_def check_policy_def check_tls_def)

lemma check_breaker_run:
  assumes "pc_CircuitBreakers cfg" "has_breaker r"
  shows "fst (check_breaker env cfg (Some r) px) =
      (if fst (cb_IsOpen (env_clock env (px_tick px)) (reg_breaker (px_breakers px) r)) then Inl ErrCircuitOpen else Inr ())"
    "reg_breaker (px_breakers (snd (check_breaker env cfg (Some r) px))) r =
       snd (cb_IsOpen (env_clock env (px_tick px)) (reg_breaker (px_breakers px) r))"
    "px_world (snd (check_breaker env cfg (Some r) px)) = px_world px"
  using reg_IsOpen_breaker(1,2) [OF assms(2), of "env_clock env (px_tick px)" "px_breakers px"] assms(1)
  by (auto simp: check_breaker_def tick_def Let_def emitBlocked_def split: prod.splits bool.splits)

lemma half_open_rejects:
  assumes "pc_CircuitBreakers cfg" "has_breaker r" "resolves_to cfg r q"
    and "cb_st (reg_breaker (px_breakers px) r) = StateHalfOpen"
  shows "fst (HandleRequest env cfg q px) = Inl ErrCircuitOpen"
    "cb_st (reg_breaker (px_breakers (snd (HandleRequest env cfg q px))) r) = StateHalfOpen"
proof -
  have isopen: "cb_IsOpen t (reg_breaker (px_breakers px) r) = (True, reg_breaker (px_breakers px) r)" for t
    using assms(4) by (simp add: cb_IsOpen_def)
  obtain px' where cb: "check_breaker env cfg (Some r) px = (Inl ErrCircuitOpen, px')"
    and keep: "reg_breaker (px_breakers px') r = reg_breaker (px_breakers px) r"
    using check_breaker_run(1,2) [OF assms(1,2), of env px] isopen
    by (cases "check_breaker env cfg (Some r) px") auto
  have "HandleRequest env cfg q px = (Inl ErrCircuitOpen, px')"
    using assms(3) cb by (simp add: checks_pass [OF assms(3)] HandleRequest_def Let_def seqn_def resolves_to_def)
  with keep assms(4) show "fst (HandleRequest env cfg q px) = Inl ErrCircuitOpen"
    "cb_st (reg_breaker (px_breakers (snd (HandleRequest env cfg q px))) r) = StateHalfOpen" by simp_all
qed

lemma half_open_rejects_all:
  assumes "pc_CircuitBreakers cfg" "has_breaker r" "list_all (resolves_to cfg r) qs"
    and "cb_st (reg_breaker (px_breakers px) r) = StateHalfOpen"
  shows "list_all (\<lambda>x. x = Inl ErrCircuitOpen) (results env cfg qs px)"
  using assms(3,4)
  by (induction qs arbitrary: px) (simp_all add: half_open_rejects [OF assms(1,2)])

text \<open>A probe slot can be lost for good: when the breaker of a route is past its deadline, the
  first request takes the half-open slot; if the rate limiter then turns it away, no outcome is
  recorded, and every later request for the route is rejected as circuit open, whatever the clock.\<close>

theorem lost_probe_blocks_route:
  assumes "pc_CircuitBreakers cfg" "pc_RateLimiters cfg" "has_breaker r" "resolves_to cfg r q"
    and "cb_st (reg_breaker (px_breakers px) r) = StateOpen"
    and "cb_deadline (reg_breaker (px_breakers px) r) < env_clock env (px_tick px)"
    and "fst (env_allow env r (px_world px)) = Some False"
    and "list_all (resolves_to cfg r) qs"
  shows "fst (HandleRequest env cfg q px) = Inl ErrRateLimitExceeded \<and>
    list_all (\<lambda>x. x = Inl ErrCircuitOpen) (results env cfg qs (snd (HandleRequest env cfg q px)))"
proof -
  let ?b = "reg_breaker (px_breakers px) r"
  have admit: "cb_IsOpen (env_clock env (px_tick px)) ?b = (False, ?b\<lparr>cb_st := StateHalfOpen\<rparr>)"
    using assms(5,6) by (simp add: cb_IsOpen_def cb_deadline_def)
  obtain px1 where cb: "check_breaker env cfg (Some r) px = (Inr (), px1)"
    and st: "cb_st (reg_breaker (px_breakers px1) r) = StateHalfOpen" and w: "px_world px1 = px_world px"
    using check_breaker_run [OF assms(1,3), of env px] admit
    by (cases "check_breaker env cfg (Some r) px") auto
  obtain w' where "env_allow env r (px_world px1) = (Some False, w')"
    using assms(7) w by (metis prod.collapse)
  then have "check_rate env cfg (Some r) px1 = (Inl ErrRateLimitExceeded, px1\<lparr>px_world := w'\<rparr>)"
    using assms(2) by (simp add: check_rate_def)
  then have "HandleRequest env cfg q px = (Inl ErrRateLimitExceeded, px1\<lparr>px_world := w'\<rparr>)"
    using assms(4) cb by (simp add: checks_pass [OF assms(4)] HandleRequest_def Let_def seqn_def resolves_to_def)
  with half_open_rejects_all [OF assms(1,3,8), of "px1\<lparr>px_world := w'\<rparr>" env] st show ?thesis by simp
qed

definition breaker_route :: Route where
  "breaker_route = RouteOptions.extend
     (zeroRouteOptions\<lparr>rt_circuitBreaker := \<lparr>ecb_Threshold = 1, ecb_ResetAfter = 5\<rparr>,
        rt_retry := \<lparr>rc_Max = 1, rc_Methods = [], rc_Backoff = [], rc_InitialBackoff = 0\<rparr>\<rparr>)
     (Route.fields ''r'' ''https://h/'')"

lemma breaker_route_simps:
  "rt_pattern breaker_route = ''https://h/''" "rt_methods breaker_route = []" "rt_name breaker_route = ''r''"
  "rt_circuitBreaker breaker_route = \<lparr>ecb_Threshold = 1, ecb_ResetAfter = 5\<rparr>"
  "rt_retry breaker_route = \<lparr>rc_Max = 1, rc_Methods = [], rc_Backoff = [], rc_InitialBackoff = 0\<rparr>"
  "rt_cache breaker_route = rt_cache zeroRouteOptions" "rt_mtls breaker_route = rt_mtls zeroRouteOptions"
  "rt_sanitize breaker_route = rt_sanitize zeroRouteOptions" "rt_secret breaker_route = rt_secret zeroRouteOptions"
  "rt_headers breaker_route = rt_headers zeroRouteOptions" "rt_bodySizeLimit breaker_route = 0"
  "rt_validateResponse breaker_route = rt_validateResponse zeroRouteOptions" "rt_rateLimit breaker_route = []"
  by (simp_all add: breaker_route_def zeroRouteOptions_def RouteOptions.defs Route.defs)

lemma breaker_route_matches: "rm_Route (Resolve [breaker_route] \<lparr>er_Method = mth, er_URL = ''https://h/'', er_Header = h, er_Body = b\<rparr>) = Some breaker_route"
proof -
  have "path_Match ''https://h/'' ''https://h/'' = Some True" by (simp add: path_Match_literal)
  then show ?thesis
    by (simp add: Resolve_find MatchesURL_def MatchesMethod_def breaker_route_simps)
qed

theorem lost_probe_blocks_route_witness:
  "let q = \<lparr>er_Method = ''GET'', er_URL = ''https://h/'', er_Header = [], er_Body = None\<rparr>;
       env = calm_env\<lparr>env_allow := (\<lambda>r w. (Some False, w)), env_clock := (\<lambda>n. 100 + int n)\<rparr>;
       cb = \<lparr>cb_cfg = \<lparr>cbc_Threshold = 1, cbc_Timeout = 5\<rparr>, cb_st = StateOpen, cb_failures = 1, cb_openedAt = 10\<rparr>;
       px = idle_px\<lparr>px_breakers := [(''r'', \<lparr>ce_cb = cb, ce_routeName = ''r'', ce_cfg = cb_cfg cb\<rparr>)]\<rparr>;
       cfg = basic_config PolicyDeny [breaker_route] in
   list_all (\<lambda>x. x = Inl ErrCircuitOpen) (results env cfg [q, q, q] (snd (HandleRequest env cfg q px)))"
proof -
  let ?q = "\<lparr>er_Method = ''GET'', er_URL = ''https://h/'', er_Header = [], er_Body = None\<rparr>"
  let ?env = "calm_env\<lparr>env_allow := (\<lambda>r w. (Some False, w)), env_clock := (\<lambda>n. 100 + int n)\<rparr>"
  let ?cb = "\<lparr>cb_cfg = \<lparr>cbc_Threshold = 1, cbc_Timeout = 5\<rparr>, cb_st = StateOpen, cb_failures = 1, cb_openedAt = 10\<rparr>"
  let ?px = "idle_px\<lparr>px_breakers := [(''r'', \<lparr>ce_cb = ?cb, ce_routeName = ''r'', ce_cfg = cb_cfg ?cb\<rparr>)]\<rparr>"
  let ?cfg = "basic_config PolicyDeny [breaker_route]"
  have b: "reg_breaker (px_breakers ?px) breaker_route = ?cb" by (simp add: reg_breaker_def breaker_route_simps)
  have res: "resolves_to ?cfg breaker_route ?q"
    using breaker_route_matches by (simp add: resolves_to_def basic_config_def permitted_def)
  have c: "pc_CircuitBreakers ?cfg" "pc_RateLimiters ?cfg" by (simp_all add: basic_config_def)
  have h: "has_breaker breaker_route" by (simp add: has_breaker_def breaker_route_simps)
  have o1: "cb_st (reg_breaker (px_breakers ?px) breaker_route) = StateOpen"
    and o2: "cb_deadline (reg_breaker (px_breakers ?px) breaker_route) < env_clock ?env (px_tick ?px)"
    unfolding b by (simp_all add: cb_deadline_def idle_px_def)
  have rl: "fst (env_allow ?env breaker_route (px_world ?px)) = Some False" by simp
  have qs: "list_all (resolves_to ?cfg breaker_route) [?q, ?q, ?q]" using res by simp
  show ?thesis unfolding Let_def using lost_probe_blocks_route [OF c h res o1 o2 rl qs] by (simp only: conjunct2)
qed

text \<open>A retry sends what the previous attempt left of the request body: after a first attempt that
  consumed the body and was answered with a retryable status, the retried request is sent empty.\<close>

theorem retry_sends_drained_body:
  "let env = calm_env\<lparr>env_do := (\<lambda>u w. (DoResponse 503 [] (NewReader []), map_option (\<lambda>b. b\<lparr>bd_data := []\<rparr>) (ur_Body u), w))\<rparr>;
       q = \<lparr>er_Method = ''PUT'', er_URL = ''https://h/'', er_Header = [], er_Body = Some (NewReader ''data'')\<rparr> in
   map ur_Body (new_requests idle_px (snd (HandleRequest env (basic_config PolicyDeny [breaker_route]) q idle_px)))
   = [Some (NewReader ''data''), Some (NewReader [])]"
proof -
  let ?q = "\<lparr>er_Method = ''PUT'', er_URL = ''https://h/'', er_Header = [], er_Body = Some (NewReader ''data'')\<rparr>"
  have plan: "retry_plan_for (Some breaker_route) ''PUT'' =
      \<lparr>rp_enabled = True, rp_max = 2, rp_backoff = [], rp_initial = 100 * millisecond\<rparr>"
    by (simp add: retry_plan_for_def breaker_route_simps IsRetryableMethod_def ToUpper_def upper_char_def
        defaultIdempotentMethods_def)
  have m: "rm_Route (Resolve (pc_Routes (basic_config PolicyDeny [breaker_route])) ?q) = Some breaker_route"
    using breaker_route_matches by (simp add: basic_config_def)
  have cfg: "pc_DefaultPolicy (basic_config PolicyDeny [breaker_route]) = PolicyDeny"
    "\<not> pc_AllowInsecure (basic_config PolicyDeny [breaker_route])" "pc_CircuitBreakers (basic_config PolicyDeny [breaker_route])"
    "pc_RateLimiters (basic_config PolicyDeny [breaker_route])" "pc_ResponseCaches (basic_config PolicyDeny [breaker_route])"
    "pc_DefaultBodySizeLimit (basic_config PolicyDeny [breaker_route]) = 0"
    by (simp_all add: basic_config_def)
  show ?thesis
    unfolding Let_def HandleRequest_def m
    by (simp add: cfg plan seqn_def check_policy_def check_tls_def check_breaker_def
      check_rate_def lookup_cache_def limit_body_def bodySizeLimitFor_def ret_def CacheFor_def cc_IsZero_def
      forward_checked_def forward_def prepareOutboundRequest_def applySecretInjection_def injection_for_def
      hdr_Get_def hdr_Values_def executeWithRetries_def reg_IsOpen_def reg_getOrCreate_def NewCircuitBreaker_def
      cb_Validate_def cb_IsOpen_def tick_def breaker_route_simps zeroRouteOptions_def sz_IsZero_def
      retry_loop.simps calm_env_def idle_px_def do_request_def do_sleep_def buildUpstreamRequest_def buildEgressResponse_def
      NewEgressResponse_def validateResponse_def rv_IsZero_def store_cache_def isCacheable_def recordCircuitOutcome_def
      shouldRetryStatus_def retryableStatusCodes_def new_requests_def NewReader_def Let_def record_failure_def isFailureStatus_def
      reg_RecordFailure_def split_def)
qed

text \<open>Backoff: with an initial delay below \<^verbatim>\<open>2^33\<close> nanoseconds (8.58 seconds) the delay before the
  \<open>n\<close>-th retry is the initial one doubled \<open>n - 1\<close> times, up to thirty times, and the multiplication
  never wraps; the fixed strategy always waits the initial delay.\<close>

theorem backoff_exact:
  assumes "0 \<le> base" "base < 2 ^ 33"
  shows "computeBackoff strategy base n =
    (if strategy = RetryBackoffFixed then base else base * 2 ^ min 30 (n - 1)) \<and> 0 \<le> computeBackoff strategy base n"
proof -
  let ?k = "min 30 (n - 1)"
  have "(2::int) ^ ?k \<le> 2 ^ 30" by (intro power_increasing) auto
  then have "base * 2 ^ ?k \<le> base * 2 ^ 30" using assms(1) by (intro mult_left_mono)
  also have "\<dots> < 2 ^ 33 * 2 ^ 30" using assms(2) by simp
  finally have lt: "base * 2 ^ ?k < 2 ^ 63" by simp
  have ge: "0 \<le> base * 2 ^ ?k" using assms(1) by simp
  from lt ge have "wrap64 (base * 2 ^ ?k) = base * 2 ^ ?k" by (simp add: wrap64_def)
  then show ?thesis using ge assms(1) by (auto simp: computeBackoff_def Let_def min_def)
qed

theorem backoff_exact_witness:
  "computeBackoff [] (100 * millisecond) 3 = 400 * millisecond \<and> 0 \<le> computeBackoff [] (100 * millisecond) 3"
  using backoff_exact [of "100 * millisecond" "[]" 3] by (simp add: millisecond_def)

end
