(* ===== verification/EgressHttp.thy ===== *)
theory EgressHttp
  imports EgressProxy
begin

text \<open>The HTTP side of the egress proxy: how an incoming request names its target
  (\<^verbatim>\<open>resolveTargetURL\<close>, \<^verbatim>\<open>resolveNamedRoute\<close>, \<^verbatim>\<open>patternBase\<close> in \<^verbatim>\<open>internal/adapters/egress/proxy.go\<close>),
  and how results and errors are written back (\<^verbatim>\<open>internal/adapters/egress/proxy_http_handler.go\<close>).\<close>

section \<open>The target of a request\<close>

record HttpRequest =
  hr_Method :: string
  hr_Path :: string
  hr_RawQuery :: string
  hr_Header :: header
  hr_Body :: Body

datatype target_error = RouteNameRequired | UnknownNamedRoute string | NoTargetURL | InvalidEgressRequest egress_value_error

definition namedRoutePrefix :: string where
  "namedRoutePrefix = ''/_egress/''"

definition headerEgressURL :: string where
  "headerEgressURL = ''X-Egress-URL''"

definition patternBase :: "string \<Rightarrow> string" where
  "patternBase pat = takeWhile (\<lambda>c. \<not> (c = CHR ''*'' \<or> c = CHR ''?'' \<or> c = CHR ''['')) pat"

fun resolveNamedRoute :: "Route list \<Rightarrow> string \<Rightarrow> string \<Rightarrow> string \<Rightarrow> target_error + string" where
  "resolveNamedRoute [] routeName sfx rawQuery = Inl (UnknownNamedRoute routeName)"
| "resolveNamedRoute (r # rs) routeName sfx rawQuery =
    (if rt_name r \<noteq> routeName then resolveNamedRoute rs routeName sfx rawQuery
     else
       let base = TrimRightChar CHR ''/'' (patternBase (rt_pattern r)); target = base @ sfx in
       Inr (if rawQuery \<noteq> [] then target @ CHR ''?'' # rawQuery else target))"

definition resolveTargetURL :: "Route list \<Rightarrow> HttpRequest \<Rightarrow> target_error + string" where
  "resolveTargetURL rs r =
    (if prefix namedRoutePrefix (hr_Path r) then
       (let rest = TrimPrefix namedRoutePrefix (hr_Path r);
            (routeName, sfx) = (case CutByte CHR ''/'' rest of
                                  None \<Rightarrow> (rest, [])
                                | Some (before, after) \<Rightarrow> (before, CHR ''/'' # after)) in
        if routeName = [] then Inl RouteNameRequired
        else resolveNamedRoute rs routeName sfx (hr_RawQuery r))
     else if hdr_Get (hr_Header r) headerEgressURL \<noteq> [] then Inr (hdr_Get (hr_Header r) headerEgressURL)
     else Inl NoTargetURL)"

definition hopByHopHeaders :: "string list" where
  "hopByHopHeaders = [''Connection'', ''Keep-Alive'', ''Proxy-Authenticate'', ''Proxy-Authorization'',
     ''Te'', ''Trailers'', ''Transfer-Encoding'', ''Upgrade'']"

definition cloneAndStripHopByHop :: "header \<Rightarrow> header" where
  "cloneAndStripHopByHop h =
    hdr_DelAll (concat (map (\<lambda>conn. map TrimSpace (SplitByte CHR '','' conn)) (hdr_Values h ''Connection'')))
      (hdr_DelAll hopByHopHeaders h)"

definition parseIncomingRequest :: "Route list \<Rightarrow> HttpRequest \<Rightarrow> target_error + EgressRequest" where
  "parseIncomingRequest rs r =
    (case resolveTargetURL rs r of
       Inl e \<Rightarrow> Inl e
     | Inr targetURL \<Rightarrow>
         (let outHeaders = hdr_Del headerEgressURL (cloneAndStripHopByHop (hr_Header r)) in
          case NewEgressRequest (hr_Method r) targetURL outHeaders (Some (hr_Body r)) of
            Inl e \<Rightarrow> Inl (InvalidEgressRequest e)
          | Inr q \<Rightarrow> Inr q))"

section \<open>Writing results\<close>

text \<open>Whether the error is, or wraps, a timeout or cancellation.\<close>

definition is_timeout :: "egress_error \<Rightarrow> bool" where
  "is_timeout e =
    (case e of
       ErrForward t \<Rightarrow> te_Timeout t
     | ErrMTLSHandshakeFailed t \<Rightarrow> te_Timeout t
     | ErrSecret (SecretFetchFailed timeout) \<Rightarrow> timeout
     | _ \<Rightarrow> False)"

definition is_ssrf :: "egress_error \<Rightarrow> bool" where
  "is_ssrf e = (case e of ErrForward t \<Rightarrow> te_SSRF t | ErrMTLSHandshakeFailed t \<Rightarrow> te_SSRF t | _ \<Rightarrow> False)"

definition writeEgressErrorResponse :: "egress_error \<Rightarrow> int" where
  "writeEgressErrorResponse e =
    (if e = ErrDeniedByPolicy then 403
     else if e = ErrInsecureURL then 400
     else if e = ErrRequestBodyTooLarge then 413
     else if e = ErrCircuitOpen then 503
     else if e = ErrRateLimitExceeded then 429
     else if e = ErrResponseValidationFailed then 502
     else if (case e of ErrMTLSHandshakeFailed _ \<Rightarrow> True | _ \<Rightarrow> False) then 502
     else if is_ssrf e then 403
     else if is_timeout e then 504
     else 502)"

definition responseSizeLimitFor :: "ProxyConfig \<Rightarrow> EgressRequest \<Rightarrow> int" where
  "responseSizeLimitFor cfg req =
    (case rm_Route (Resolve (pc_Routes cfg) req) of
       Some r \<Rightarrow> if 0 < rt_responseSizeLimit r then rt_responseSizeLimit r else pc_DefaultResponseSizeLimit cfg
     | None \<Rightarrow> pc_DefaultResponseSizeLimit cfg)"

definition headerResponseTruncated :: string where
  "headerResponseTruncated = ''X-Egress-Response-Truncated''"

definition headerEgressAttempts :: string where
  "headerEgressAttempts = ''X-Egress-Attempts''"

text \<open>The bytes copied to the client and whether the truncation trailer is set.\<close>

definition streamResponseBody :: "Body \<Rightarrow> int \<Rightarrow> string \<times> bool" where
  "streamResponseBody b limit =
    (if 0 < limit then (take (nat limit) (bd_data b), nat limit < length (bd_data b)) else (bd_data b, False))"

text \<open>What the client receives: status, header, body and trailer flag.\<close>

record HttpResult =
  hw_Status :: int
  hw_Header :: header
  hw_Body :: string
  hw_Truncated :: bool

definition writeEgressResponse :: "ProxyConfig \<Rightarrow> EgressRequest \<Rightarrow> EgressResponse \<Rightarrow> HttpResult" where
  "writeEgressResponse cfg req resp =
    (let limit = responseSizeLimitFor cfg req;
         hs1 = cloneAndStripHopByHop (es_Header resp);
         hs2 = (if 0 < limit then hdr_Del ''Content-Length'' hs1 else hs1);
         w1 = hdr_AddAll hs2 [];
         w2 = (if 0 < es_Attempts resp then hdr_Set headerEgressAttempts (Itoa (nat (es_Attempts resp))) w1 else w1);
         w3 = (if 0 < limit then hdr_Add ''Trailer'' headerResponseTruncated w2 else w2);
         (written, trunc) = (case es_Body resp of Some b \<Rightarrow> streamResponseBody b limit | None \<Rightarrow> ([], False)) in
     \<lparr>hw_Status = es_Status resp, hw_Header = w3, hw_Body = written, hw_Truncated = trunc\<rparr>)"

text \<open>The error text and the \<^verbatim>\<open>Retry-After\<close> value are not modelled.\<close>

definition handleRequest :: "'w env \<Rightarrow> ProxyConfig \<Rightarrow> HttpRequest \<Rightarrow> 'w px \<Rightarrow> HttpResult \<times> 'w px" where
  "handleRequest env cfg r px =
    (case parseIncomingRequest (pc_Routes cfg) r of
       Inl e \<Rightarrow> (\<lparr>hw_Status = 400, hw_Header = [], hw_Body = [], hw_Truncated = False\<rparr>, px)
     | Inr q \<Rightarrow>
         (case HandleRequest env cfg q px of
            (Inl e, px') \<Rightarrow>
              (\<lparr>hw_Status = writeEgressErrorResponse e, hw_Header = [], hw_Body = [], hw_Truncated = False\<rparr>, px')
          | (Inr resp, px') \<Rightarrow> (writeEgressResponse cfg q resp, px')))"

section \<open>Invariants of the proxy state\<close>

text \<open>The retry loop touches the state only through the client, the breaker and the sleep.\<close>

lemma retry_loop_invar:
  assumes do_inv: "\<And>px u res left px'. Q px \<Longrightarrow> do_request env u px = (res, left, px') \<Longrightarrow> Q px'"
    and fail_inv: "\<And>px. Q px \<Longrightarrow> Q (record_failure env cfg m px)"
    and sleep_inv: "\<And>d px ok px'. Q px \<Longrightarrow> do_sleep env d px = (ok, px') \<Longrightarrow> Q px'"
  shows "Q px \<Longrightarrow> Q (snd (retry_loop env cfg m hs rp n req px))"
proof (induction "rp_max rp - n" arbitrary: n req px rule: less_induct)
  case less
  obtain res left px1 where d: "do_request env (buildUpstreamRequest cfg m req hs) px = (res, left, px1)"
    by (metis prod_cases3)
  note q1 = do_inv [OF less.prems d]
  have next_ok: "Q (snd (retry_loop env cfg m hs rp (Suc n) req' px'))" if "n < rp_max rp" "Q px'" for req' px'
    using less.hyps [of "Suc n" px' req'] that by simp
  have slept: "Q px'" if "Q px2" "do_sleep env dl px2 = (ok, px')" for px2 dl ok px'
    using sleep_inv that by blast
  have cl: "Q px2" if "classifyTransportError env cfg m e px1 = (c, px2)" for e c px2
    using that q1 fail_inv by (auto simp: classifyTransportError_def split: if_splits)
  show ?case
    using less.prems q1
    by (subst retry_loop.simps)
       (auto simp: d Let_def fail_inv split: do_result.splits prod.splits option.splits bool.splits
          intro!: next_ok dest: cl intro: slept fail_inv)
qed

lemma caches_record_failure [simp]: "px_caches (record_failure env cfg m px) = px_caches px"
  by (auto simp: record_failure_def tick_def Let_def split: option.splits prod.splits)

lemma caches_do_request: "do_request env u px = (res, left, px') \<Longrightarrow> px_caches px' = px_caches px"
  by (auto simp: do_request_def Let_def split: prod.splits)

lemma caches_do_sleep: "do_sleep env d px = (ok, px') \<Longrightarrow> px_caches px' = px_caches px"
  by (auto simp: do_sleep_def split: prod.splits)

lemma caches_retry_loop: "px_caches (snd (retry_loop env cfg m hs rp n req px)) = px_caches px"
  by (rule retry_loop_invar [where Q = "\<lambda>px'. px_caches px' = px_caches px"])
     (auto dest: caches_do_request caches_do_sleep)

lemma caches_secret: "px_caches (snd (applySecretInjection env cfg original m hs px)) = px_caches px"
  by (auto simp: applySecretInjection_def tick_def Let_def split: option.splits prod.splits sum.splits)

lemma caches_prepare: "px_caches (snd (prepareOutboundRequest env cfg req m px)) = px_caches px"
proof -
  have "px_caches (snd (seqn (applySecretInjection env cfg h m hs) (\<lambda>h'. ret (r, h')) px)) = px_caches px" for h hs r
    using caches_secret [of env cfg h m hs px] by (auto simp: seqn_def ret_def split: prod.splits sum.splits)
  then show ?thesis
    by (auto simp: prepareOutboundRequest_def Let_def fail_def split: option.splits sum.splits prod.splits)
qed

lemma caches_forward_checked:
  assumes "forward_checked env cfg req m px = (res, px')"
  shows "px_caches px' = px_caches px"
    and "res = Inr resp \<Longrightarrow> \<exists>up. buildEgressResponse m up = Inr resp"
proof -
  obtain fres fpx where f: "forward env cfg req m px = (fres, fpx)" by fastforce
  obtain pres ppx where pr: "prepareOutboundRequest env cfg req m px = (pres, ppx)" by fastforce
  have pc: "px_caches ppx = px_caches px" using caches_prepare [of env cfg req m px] pr by simp
  have rc: "px_caches (recordCircuitOutcome env cfg m st x) = px_caches x" for st x
    by (auto simp: recordCircuitOutcome_def split: option.splits)
  have "px_caches fpx = px_caches px \<and> (\<forall>r. fres = Inr r \<longrightarrow> (\<exists>up. buildEgressResponse m up = Inr r))"
  proof (cases pres)
    case (Inl e)
    with f pr pc show ?thesis by (auto simp: forward_def seqn_def)
  next
    case (Inr a)
    obtain req' hs where a: "a = (req', hs)" by (cases a)
    obtain ures upx where u: "executeWithRetries env cfg m req' hs ppx = (ures, upx)" by fastforce
    have uc: "px_caches upx = px_caches ppx"
      using caches_retry_loop [of env cfg m hs _ 1 req' ppx] u by (metis executeWithRetries_def snd_conv)
    show ?thesis
    proof (cases ures)
      case (Inl e)
      with f pr Inr a u uc pc show ?thesis by (auto simp: forward_def seqn_def)
    next
      case ok: (Inr up)
      with f pr Inr a u uc pc rc show ?thesis by (auto simp: forward_def seqn_def)
    qed
  qed
  then show "px_caches px' = px_caches px" "res = Inr resp \<Longrightarrow> \<exists>up. buildEgressResponse m up = Inr resp"
    using assms f by (auto simp: forward_checked_def split: sum.splits)
qed

text \<open>A header without the names that give the upstream away, and caches that hold only such
  responses, all with a 2xx status.\<close>

definition discreet :: "header \<Rightarrow> bool" where
  "discreet h \<longleftrightarrow> hdr_Values h ''Server'' = [] \<and> hdr_Values h ''X-Powered-By'' = []"

definition entry_ok :: "CacheEntry \<Rightarrow> bool" where
  "entry_ok e \<longleftrightarrow> discreet (en_Header e) \<and> 200 \<le> en_Status e \<and> en_Status e \<le> 299"

definition caches_ok :: "cache_registry \<Rightarrow> bool" where
  "caches_ok g \<longleftrightarrow> (\<forall>c\<in>snd ` set g. ca_wf c \<and> (\<forall>e\<in>set (ca_abs c). entry_ok e))"

lemma update_values: "snd ` set (AList.update k v m) \<subseteq> insert v (snd ` set m)"
  by (induction m) auto

lemma caches_ok_update: "caches_ok g \<Longrightarrow> ca_wf c \<Longrightarrow> \<forall>e\<in>set (ca_abs c). entry_ok e \<Longrightarrow> caches_ok (AList.update n c g)"
  using update_values [of n c g] unfolding caches_ok_def by blast

lemma CacheFor_ok:
  assumes "caches_ok g" "CacheFor r g = (res, g')"
  shows "caches_ok g'" and "res = Some c \<Longrightarrow> ca_wf c \<and> (\<forall>e\<in>set (ca_abs c). entry_ok e)"
proof -
  have new: "ca_wf (NewResponseCache n)" "ca_abs (NewResponseCache n) = []" for n
    by (simp_all add: ca_consistent_new) (simp add: ca_abs_def NewResponseCache_def)
  have "caches_ok g' \<and> (\<forall>c. res = Some c \<longrightarrow> ca_wf c \<and> (\<forall>e\<in>set (ca_abs c). entry_ok e))"
  proof (cases "cc_IsZero (rt_cache r)")
    case True
    with assms show ?thesis by (simp add: CacheFor_def)
  next
    case False
    show ?thesis
    proof (cases "map_of g (rt_name r)")
      case None
      with assms False new show ?thesis by (auto simp: CacheFor_def Let_def intro: caches_ok_update)
    next
      case (Some c)
      then have "c \<in> snd ` set g" by (metis imageI map_of_SomeD snd_conv)
      with Some assms False show ?thesis by (auto simp: CacheFor_def caches_ok_def)
    qed
  qed
  then show "caches_ok g'" "res = Some c \<Longrightarrow> ca_wf c \<and> (\<forall>e\<in>set (ca_abs c). entry_ok e)" by blast+
qed

lemma hdr_names_distinct:
  "CanonicalHeaderKey headerEgressCache \<noteq> CanonicalHeaderKey ''Server''"
  "CanonicalHeaderKey headerEgressCache \<noteq> CanonicalHeaderKey ''X-Powered-By''"
  by code_simp+

lemma discreet_Set_cache: "discreet h \<Longrightarrow> discreet (hdr_Set headerEgressCache v h)"
  using hdr_names_distinct by (simp add: discreet_def hdr_Values_Set)

lemma built_discreet: "buildEgressResponse m up = Inr resp \<Longrightarrow> discreet (es_Header resp)"
  by (auto simp: buildEgressResponse_def NewEgressResponse_def discreet_def apply_to_response_values Let_def
      split: if_splits option.splits sum.splits)

lemma from_cache_discreet: "entry_ok e \<Longrightarrow> discreet (es_Header (egressResponseFromCache e))"
  by (simp add: egressResponseFromCache_def NewEgressResponse_def entry_ok_def discreet_Set_cache)

lemma lookup_cache_ok:
  assumes "caches_ok (px_caches px)" "lookup_cache env cfg m req px = (res, px')"
  shows "caches_ok (px_caches px')" and "res = Inr (Some resp) \<Longrightarrow> discreet (es_Header resp)"
proof -
  have "caches_ok (px_caches px') \<and> (\<forall>resp. res = Inr (Some resp) \<longrightarrow> discreet (es_Header resp))"
  proof (cases "m = None \<or> \<not> pc_ResponseCaches cfg")
    case True
    with assms show ?thesis by (auto simp: lookup_cache_def split: option.splits)
  next
    case False
    then obtain r where m: "m = Some r" and en: "pc_ResponseCaches cfg" by auto
    obtain cf g where cf: "CacheFor r (px_caches px) = (cf, g)" by fastforce
    note ok = CacheFor_ok [OF assms(1) cf]
    show ?thesis
    proof (cases cf)
      case None
      with assms(2) m en cf ok(1) show ?thesis by (auto simp: lookup_cache_def)
    next
      case (Some c)
      obtain t px1 where t: "tick env px = (t, px1)" by fastforce
      obtain hit c' where get: "ca_Get (er_Method req) (er_URL req) t c = (hit, c')" by fastforce
      from ok(2) [OF Some] have c: "ca_wf c" "\<forall>e\<in>set (ca_abs c). entry_ok e" by auto
      have c': "ca_wf c'" "\<forall>e\<in>set (ca_abs c'). entry_ok e"
        using lru.get_invar [OF c(1)] lru.get_contents [OF c(1)] c(2) get by (metis snd_conv, metis snd_conv subsetD)
      have hit: "entry_ok e" if "hit = Some e" for e
        using lru.get_hit [OF c(1)] get that c(2) by (metis fst_conv)
      have "caches_ok (AList.update (rt_name r) c' g)" using caches_ok_update [OF ok(1) c'] .
      with assms(2) m en cf Some t get hit show ?thesis
        by (auto simp: lookup_cache_def Let_def from_cache_discreet)
    qed
  qed
  then show "caches_ok (px_caches px')" "res = Inr (Some resp) \<Longrightarrow> discreet (es_Header resp)" by blast+
qed

lemma cacheableResponse_entry:
  "cacheableResponse resp cfg key now = Some (Some e, b) \<Longrightarrow> en_Header e = es_Header resp \<and> en_Status e = es_Status resp"
  by (auto simp: cacheableResponse_def Let_def split: prod.splits if_splits)

lemma store_cache_ok:
  assumes "caches_ok (px_caches px)" "store_cache env cfg m req resp px = (res, px')" "discreet (es_Header resp)"
  shows "caches_ok (px_caches px')" and "res = Inr resp' \<Longrightarrow> discreet (es_Header resp')"
proof -
  have "caches_ok (px_caches px') \<and> (\<forall>resp'. res = Inr resp' \<longrightarrow> discreet (es_Header resp'))"
  proof (cases "m = None \<or> \<not> (pc_ResponseCaches cfg \<and> isCacheable (er_Method req) (es_Status resp))")
    case True
    with assms show ?thesis by (auto simp: store_cache_def split: option.splits)
  next
    case False
    then obtain r where m: "m = Some r" and en: "pc_ResponseCaches cfg" "isCacheable (er_Method req) (es_Status resp)" by auto
    obtain cf g where cf: "CacheFor r (px_caches px) = (cf, g)" by fastforce
    note ok = CacheFor_ok [OF assms(1) cf]
    show ?thesis
    proof (cases cf)
      case None
      with assms m en cf ok(1) show ?thesis by (auto simp: store_cache_def)
    next
      case (Some c)
      obtain t px1 where t: "tick env px = (t, px1)" by fastforce
      from ok(2) [OF Some] have c: "ca_wf c" "\<forall>e\<in>set (ca_abs c). entry_ok e" by auto
      show ?thesis
      proof (cases "cacheableResponse resp (rt_cache r) (er_Method req, er_URL req) t")
        case None
        with assms m en cf Some t ok(1) show ?thesis by (auto simp: store_cache_def)
      next
        case (Some ef)
        obtain ent fresh where ef: "ef = (ent, fresh)" by (cases ef)
        have "caches_ok (case ent of Some e \<Rightarrow> AList.update (rt_name r) (ca_Set e c) g | None \<Rightarrow> g)"
        proof (cases ent)
          case (Some e)
          have "entry_ok e"
            using cacheableResponse_entry [of resp _ _ _ e fresh] \<open>cacheableResponse resp _ _ t = Some ef\<close> ef Some assms(3) en(2)
            by (auto simp: entry_ok_def isCacheable_def split: if_splits)
          then have "\<forall>e'\<in>set (ca_abs (ca_Set e c)). entry_ok e'" using lru.put_contents [OF c(1), of e] c(2) by blast
          with Some caches_ok_update [OF ok(1) lru.put_invar [OF c(1)]] show ?thesis by simp
        qed (use ok(1) in simp)
        with assms m en cf \<open>cf = Some c\<close> t Some ef show ?thesis
          by (auto simp: store_cache_def discreet_Set_cache)
      qed
    qed
  qed
  then show "caches_ok (px_caches px')" "res = Inr resp' \<Longrightarrow> discreet (es_Header resp')" by blast+
qed

text \<open>\<open>keeps R f\<close>: \<open>f\<close> preserves the cache invariant, and its value, if any, satisfies \<open>R\<close>.\<close>

definition keeps :: "('a \<Rightarrow> bool) \<Rightarrow> ('w, 'a) act \<Rightarrow> bool" where
  "keeps R f \<longleftrightarrow> (\<forall>px res px'. caches_ok (px_caches px) \<longrightarrow> f px = (res, px') \<longrightarrow>
     caches_ok (px_caches px') \<and> (\<forall>a. res = Inr a \<longrightarrow> R a))"

lemma keeps_seqn: "keeps R f \<Longrightarrow> (\<And>a. R a \<Longrightarrow> keeps S (g a)) \<Longrightarrow> keeps S (seqn f g)"
  unfolding keeps_def
proof (intro allI impI)
  fix px res px'
  assume f: "\<forall>px res px'. caches_ok (px_caches px) \<longrightarrow> f px = (res, px') \<longrightarrow>
      caches_ok (px_caches px') \<and> (\<forall>a. res = Inr a \<longrightarrow> R a)"
    and g: "\<And>a. R a \<Longrightarrow> \<forall>px res px'. caches_ok (px_caches px) \<longrightarrow> g a px = (res, px') \<longrightarrow>
      caches_ok (px_caches px') \<and> (\<forall>a. res = Inr a \<longrightarrow> S a)"
    and ok: "caches_ok (px_caches px)" and eq: "seqn f g px = (res, px')"
  obtain r1 px1 where r1: "f px = (r1, px1)" by fastforce
  from f ok r1 have ok1: "caches_ok (px_caches px1)" "\<forall>a. r1 = Inr a \<longrightarrow> R a" by blast+
  show "caches_ok (px_caches px') \<and> (\<forall>a. res = Inr a \<longrightarrow> S a)"
  proof (cases r1)
    case (Inl e)
    with eq r1 ok1 show ?thesis by (auto simp: seqn_def)
  next
    case (Inr a)
    with eq r1 have "g a px1 = (res, px')" by (simp add: seqn_def)
    with g [of a] ok1 Inr show ?thesis by blast
  qed
qed

lemma keeps_same_caches: "(\<And>px. px_caches (snd (f px)) = px_caches px) \<Longrightarrow> keeps (\<lambda>_. True) f"
  unfolding keeps_def by (metis snd_conv)

lemma keeps_checks:
  "keeps (\<lambda>_. True) (check_policy cfg m)"
  "keeps (\<lambda>_. True) (check_tls cfg m req)"
  "keeps (\<lambda>_. True) (check_breaker env cfg m)"
  "keeps (\<lambda>_. True) (check_rate env cfg m)"
  "keeps (\<lambda>_. True) (limit_body cfg m req)"
  "keeps (\<lambda>_. True) (validateResponse m resp)"
  by (intro keeps_same_caches; auto simp: check_policy_def check_tls_def check_breaker_def check_rate_def
      limit_body_def enforceRequestBodyLimit_def validateResponse_def ret_def emitBlocked_def tick_def Let_def
      split: option.splits prod.splits sum.splits bool.splits)+

lemma keeps_forward: "keeps (\<lambda>resp. discreet (es_Header resp)) (forward_checked env cfg req m)"
  unfolding keeps_def by (metis caches_forward_checked built_discreet)

lemma keeps_lookup:
  "keeps (\<lambda>hit. case hit of Some resp \<Rightarrow> discreet (es_Header resp) | None \<Rightarrow> True) (lookup_cache env cfg m req)"
  unfolding keeps_def using lookup_cache_ok by (fastforce split: option.splits)

lemma keeps_store: "discreet (es_Header resp) \<Longrightarrow> keeps (\<lambda>resp'. discreet (es_Header resp')) (store_cache env cfg m req resp)"
  unfolding keeps_def using store_cache_ok by blast

lemma keeps_HandleRequest: "keeps (\<lambda>resp. discreet (es_Header resp)) (HandleRequest env cfg req)"
proof -
  let ?R = "\<lambda>resp. discreet (es_Header resp)"
  have miss: "keeps ?R (seqn (limit_body cfg m req) (\<lambda>req1. seqn (forward_checked env cfg req1 m)
      (\<lambda>resp. seqn (validateResponse m resp) (\<lambda>_. store_cache env cfg m req1 resp))))" for m
    by (intro keeps_seqn [OF keeps_checks(5)] keeps_seqn [OF keeps_forward] keeps_seqn [OF keeps_checks(6)] keeps_store)
  have hit: "keeps ?R (case hit of Some resp \<Rightarrow> ret resp | None \<Rightarrow>
      seqn (limit_body cfg m req) (\<lambda>req1. seqn (forward_checked env cfg req1 m)
        (\<lambda>resp. seqn (validateResponse m resp) (\<lambda>_. store_cache env cfg m req1 resp))))"
    if "case hit of Some resp \<Rightarrow> ?R resp | None \<Rightarrow> True" for hit m
    using that miss by (auto simp: keeps_def ret_def split: option.splits)
  show ?thesis
    unfolding HandleRequest_def Let_def
    by (intro keeps_seqn [OF keeps_checks(1)] keeps_seqn [OF keeps_checks(2)] keeps_seqn [OF keeps_checks(3)]
        keeps_seqn [OF keeps_checks(4)] keeps_seqn [OF keeps_lookup] hit)
qed

lemma resolveNamedRoute_target:
  "resolveNamedRoute rs n sfx rq = Inr t \<Longrightarrow>
   \<exists>q\<in>set rs. rt_name q = n \<and>
     t = TrimRightChar CHR ''/'' (patternBase (rt_pattern q)) @ sfx @ (if rq \<noteq> [] then CHR ''?'' # rq else [])"
  by (induction rs n sfx rq rule: resolveNamedRoute.induct) (auto simp: Let_def split: if_splits)

section \<open>Properties\<close>

text \<open>C11: No response of the proxy, fresh or from a cache, gives the upstream software away: the
  \<^verbatim>\<open>Server\<close> and \<^verbatim>\<open>X-Powered-By\<close> headers are absent from every response \<^verbatim>\<open>HandleRequest\<close> returns, and
  the caches only ever hold such responses, all with a 2xx status.\<close>

theorem egress_response_discreet:
  assumes "caches_ok (px_caches px)" "HandleRequest env cfg req px = (res, px')"
  shows "caches_ok (px_caches px') \<and> (case res of Inr resp \<Rightarrow> discreet (es_Header resp) | Inl e \<Rightarrow> True)"
  using keeps_HandleRequest [of env cfg req] assms unfolding keeps_def by (auto split: sum.splits)

theorem egress_response_discreet_witness:
  "let req = \<lparr>er_Method = ''GET'', er_URL = ''https://h/'', er_Header = [], er_Body = None\<rparr>;
       px' = snd (HandleRequest calm_env (basic_config PolicyAllow []) req idle_px) in
   caches_ok (px_caches px')"
  using egress_response_discreet
    [of idle_px calm_env "basic_config PolicyAllow []"
        "\<lparr>er_Method = ''GET'', er_URL = ''https://h/'', er_Header = [], er_Body = None\<rparr>"]
  by (metis (no_types, lifting) caches_ok_def empty_iff idle_px_def image_empty list.set(1) prod.collapse px.select_convs(3))



text \<open>The header passed on in either direction, name by name: every hop-by-hop name and every name
  listed in a \<^verbatim>\<open>Connection\<close> header is gone, every other name keeps its values.\<close>

theorem hop_by_hop_values:
  "hdr_Values (cloneAndStripHopByHop h) k =
    (if CanonicalHeaderKey k \<in> CanonicalHeaderKey ` (set hopByHopHeaders \<union>
          {TrimSpace f |f conn. conn \<in> set (hdr_Values h ''Connection'') \<and> f \<in> set (SplitByte CHR '','' conn)})
     then [] else hdr_Values h k)"
proof -
  have "set (concat (map (\<lambda>conn. map TrimSpace (SplitByte CHR '','' conn)) (hdr_Values h ''Connection''))) =
      {TrimSpace f |f conn. conn \<in> set (hdr_Values h ''Connection'') \<and> f \<in> set (SplitByte CHR '','' conn)}"
    by auto
  then show ?thesis unfolding cloneAndStripHopByHop_def hdr_Values_DelAll by (simp add: image_Un)
qed

end
