(* ===== verification/NetAddr.thy ===== *)
theory NetAddr
  imports GoStrings
begin

unbundle bit_operations_syntax

text \<open>The address functions of the Go standard library the network components rely on:
  \<^verbatim>\<open>netip.ParseAddr\<close>, \<^verbatim>\<open>net.ParseIP\<close>, \<^verbatim>\<open>IP.String\<close>, \<^verbatim>\<open>net.ParseCIDR\<close>, \<^verbatim>\<open>IPNet.Contains\<close>,
  \<^verbatim>\<open>net.SplitHostPort\<close> and \<^verbatim>\<open>net.JoinHostPort\<close>. An IPv4 address is a \<open>32 word\<close>, a \<^verbatim>\<open>net.IP\<close> in its
  16-byte form is a \<open>128 word\<close>.\<close>

section \<open>Addresses\<close>

type_synonym ipv4 = "32 word"
type_synonym IP = "128 word"

datatype Addr = Addr4 ipv4 | Addr6 IP string

definition v4_in_6 :: "ipv4 \<Rightarrow> IP" where
  "v4_in_6 a = push_bit 32 0xFFFF OR ucast a"

definition To4 :: "IP \<Rightarrow> ipv4 option" where
  "To4 ip = (if drop_bit 32 ip = 0xFFFF then Some (ucast ip) else None)"

lemma To4_v4_in_6 [simp]: "To4 (v4_in_6 a) = Some a"
proof -
  have ones: "bit (0xFFFF :: 128 word) i \<longleftrightarrow> i < 16" if "i < 128" for i
  proof -
    have "(0xFFFF :: 128 word) = mask 16" by (simp add: mask_eq_exp_minus_1)
    then show ?thesis using that by (simp only: bit_mask_iff) simp
  qed
  have bits: "bit (v4_in_6 a) i \<longleftrightarrow> (32 \<le> i \<and> i < 48) \<or> (i < 32 \<and> bit a i)" if "i < 128" for i
    using that ones [of "i - 32"] unfolding v4_in_6_def
    by (cases "32 \<le> i") (simp_all only: bit_or_iff bit_push_bit_iff bit_unsigned_iff, auto dest: bit_imp_le_length)
  have "drop_bit 32 (v4_in_6 a) = 0xFFFF"
  proof (rule bit_word_eqI)
    fix i assume "i < LENGTH(128)"
    then show "bit (drop_bit 32 (v4_in_6 a)) i = bit (0xFFFF :: 128 word) i"
      using ones [of i] bits [of "32 + i"] by (cases "32 + i < 128") (auto simp: bit_drop_bit_eq dest: bit_imp_le_length)
  qed
  moreover have "(ucast (v4_in_6 a) :: 32 word) = a"
    by (rule bit_word_eqI) (simp add: bit_unsigned_iff bits)
  ultimately show ?thesis by (simp add: To4_def)
qed

section \<open>Parsing\<close>

definition digit_value :: "char \<Rightarrow> nat" where
  "digit_value c = byte_of c - 48"

text \<open>\<^verbatim>\<open>parseIPv4Fields\<close>: four decimal octets up to 255 without leading zeros.\<close>

definition octet :: "string \<Rightarrow> nat option" where
  "octet s =
    (if s = [] \<or> \<not> list_all is_digit s \<or> (1 < length s \<and> hd s = CHR ''0'') \<or> 3 < length s then None
     else let v = foldl (\<lambda>a c. a * 10 + digit_value c) 0 s in if 255 < v then None else Some v)"

definition parseIPv4 :: "string \<Rightarrow> (nat \<times> nat \<times> nat \<times> nat) option" where
  "parseIPv4 s =
    (case map octet (SplitByte CHR ''.'' s) of
       [Some a, Some b, Some c, Some d] \<Rightarrow> Some (a, b, c, d)
     | _ \<Rightarrow> None)"

definition hex_value :: "char \<Rightarrow> nat option" where
  "hex_value c =
    (if is_digit c then Some (byte_of c - 48)
     else if 97 \<le> byte_of c \<and> byte_of c \<le> 102 then Some (byte_of c - 87)
     else if 65 \<le> byte_of c \<and> byte_of c \<le> 70 then Some (byte_of c - 55)
     else None)"

definition is_hex :: "char \<Rightarrow> bool" where
  "is_hex c \<longleftrightarrow> hex_value c \<noteq> None"

definition hex_number :: "string \<Rightarrow> nat" where
  "hex_number s = foldl (\<lambda>a c. a * 16 + the (hex_value c)) 0 s"

text \<open>One group: one to four hexadecimal digits, and what follows them.\<close>

definition hex_group :: "string \<Rightarrow> (nat \<times> string) option" where
  "hex_group s =
    (let d = takeWhile is_hex s in
     if d = [] \<or> 4 < length d then None else Some (hex_number d, dropWhile is_hex s))"

text \<open>The loop of \<^verbatim>\<open>parseIPv6\<close>: the 16-bit groups read so far and the position of the ellipsis.\<close>

function parse6 :: "string \<Rightarrow> nat list \<Rightarrow> nat option \<Rightarrow> (nat list \<times> nat option) option" where
  "parse6 s gs ell =
    (if 8 \<le> length gs then (if s = [] then Some (gs, ell) else None)
     else
       case hex_group s of
         None \<Rightarrow> None
       | Some (v, rest) \<Rightarrow>
           if rest = [] then Some (gs @ [v], ell)
           else if hd rest = CHR ''.'' then
             (if (ell = None \<and> length gs \<noteq> 6) \<or> 6 < length gs then None
              else case parseIPv4 s of
                     None \<Rightarrow> None
                   | Some (a, b, c, d) \<Rightarrow> Some (gs @ [a * 256 + b, c * 256 + d], ell))
           else if hd rest \<noteq> CHR '':'' \<or> tl rest = [] then None
           else if hd (tl rest) = CHR '':'' then
             (if ell \<noteq> None then None
              else if tl (tl rest) = [] then Some (gs @ [v], Some (Suc (length gs)))
              else parse6 (tl (tl rest)) (gs @ [v]) (Some (Suc (length gs))))
           else parse6 (tl rest) (gs @ [v]) ell)"
  by pat_completeness auto
termination
  by (relation "measure (\<lambda>(s, gs, ell). 8 - length gs)") auto

declare parse6.simps [simp del]

definition expand_groups :: "nat list \<times> nat option \<Rightarrow> nat list option" where
  "expand_groups r =
    (case r of
       (gs, Some e) \<Rightarrow> if length gs < 8 then Some (take e gs @ replicate (8 - length gs) 0 @ drop e gs) else None
     | (gs, None) \<Rightarrow> if length gs < 8 then None else Some gs)"

definition groups_value :: "nat list \<Rightarrow> nat" where
  "groups_value gs = foldl (\<lambda>a g. a * 65536 + g) 0 gs"

definition parseIPv6 :: "string \<Rightarrow> IP option" where
  "parseIPv6 s =
    (let r = (if prefix ''::'' s then
                (if s = ''::'' then Some ([], Some 0) else parse6 (drop 2 s) [] (Some 0))
              else parse6 s [] None) in
     case r of
       None \<Rightarrow> None
     | Some x \<Rightarrow> map_option (\<lambda>gs. of_nat (groups_value gs)) (expand_groups x))"

definition ipv4_of :: "nat \<times> nat \<times> nat \<times> nat \<Rightarrow> ipv4" where
  "ipv4_of q = (case q of (a, b, c, d) \<Rightarrow> of_nat (((a * 256 + b) * 256 + c) * 256 + d))"

text \<open>The first dot, colon or percent sign decides the family.\<close>

definition ParseAddr :: "string \<Rightarrow> Addr option" where
  "ParseAddr s =
    (case find (\<lambda>c. c \<in> {CHR ''.'', CHR '':'', CHR ''%''}) s of
       None \<Rightarrow> None
     | Some c \<Rightarrow>
         if c = CHR ''.'' then map_option (\<lambda>q. Addr4 (ipv4_of q)) (parseIPv4 s)
         else if c = CHR '':'' then
           (case CutByte CHR ''%'' s of
              None \<Rightarrow> map_option (\<lambda>ip. Addr6 ip []) (parseIPv6 s)
            | Some (addr, zone) \<Rightarrow>
                if zone = [] then None else map_option (\<lambda>ip. Addr6 ip zone) (parseIPv6 addr))
         else None)"

definition ParseIP :: "string \<Rightarrow> IP option" where
  "ParseIP s =
    (case ParseAddr s of
       Some (Addr4 a) \<Rightarrow> Some (v4_in_6 a)
     | Some (Addr6 ip zone) \<Rightarrow> if zone = [] then Some ip else None
     | None \<Rightarrow> None)"

section \<open>Networks\<close>

text \<open>The address of a parsed network is masked; an IPv4 network has a 4-byte mask, any other a
  16-byte mask.\<close>

datatype IPNet = IPNet4 ipv4 nat | IPNet6 IP nat

definition CIDRMask :: "nat \<Rightarrow> 'a::len word" where
  "CIDRMask n = NOT (mask (LENGTH('a) - n))"

text \<open>\<^verbatim>\<open>dtoi\<close> on a whole string.\<close>

definition prefix_length :: "string \<Rightarrow> nat option" where
  "prefix_length s =
    (if s = [] \<or> \<not> list_all is_digit s then None
     else let v = foldl (\<lambda>a c. a * 10 + digit_value c) 0 s in if 16777215 \<le> v then None else Some v)"

definition ParseCIDR :: "string \<Rightarrow> IPNet option" where
  "ParseCIDR s =
    (case CutByte CHR ''/'' s of
       None \<Rightarrow> None
     | Some (addr, m) \<Rightarrow>
         (case (ParseAddr addr, prefix_length m) of
            (Some (Addr4 a), Some n) \<Rightarrow> if n \<le> 32 then Some (IPNet4 (a AND CIDRMask n) n) else None
          | (Some (Addr6 ip zone), Some n) \<Rightarrow>
              if zone = [] \<and> n \<le> 128 then Some (IPNet6 (ip AND CIDRMask n) n) else None
          | _ \<Rightarrow> None))"

definition net_Contains :: "IPNet \<Rightarrow> IP \<Rightarrow> bool" where
  "net_Contains n ip =
    (case n of
       IPNet4 nw k \<Rightarrow>
         (case To4 ip of Some a \<Rightarrow> nw AND CIDRMask k = a AND CIDRMask k | None \<Rightarrow> False)
     | IPNet6 nw k \<Rightarrow>
         (case (To4 nw, To4 ip) of
            (Some nn, Some a) \<Rightarrow> nn AND ucast (CIDRMask k :: IP) = a AND ucast (CIDRMask k :: IP)
          | (None, None) \<Rightarrow> nw AND CIDRMask k = ip AND CIDRMask k
          | _ \<Rightarrow> False))"

text \<open>Equality under a mask is equality of the leading bits.\<close>

lemma masked_eq_iff:
  "(a :: 'a::len word) AND CIDRMask n = b AND CIDRMask n \<longleftrightarrow> drop_bit (LENGTH('a) - n) a = drop_bit (LENGTH('a) - n) b"
proof -
  let ?m = "LENGTH('a) - n"
  have "a AND CIDRMask n = b AND CIDRMask n \<longleftrightarrow> (\<forall>i < LENGTH('a). ?m \<le> i \<longrightarrow> bit a i = bit b i)"
    by (auto simp: bit_eq_iff CIDRMask_def bit_simps dest: bit_imp_le_length)
  also have "\<dots> \<longleftrightarrow> (\<forall>i. bit (drop_bit ?m a) i = bit (drop_bit ?m b) i)"
  proof (rule iffI; intro allI impI)
    fix i assume eq: "\<forall>i < LENGTH('a). ?m \<le> i \<longrightarrow> bit a i = bit b i"
    show "bit (drop_bit ?m a) i = bit (drop_bit ?m b) i"
      using eq by (cases "?m + i < LENGTH('a)") (auto simp: bit_drop_bit_eq dest: bit_imp_le_length)
  next
    fix i assume eq: "\<forall>i. bit (drop_bit ?m a) i = bit (drop_bit ?m b) i" and "?m \<le> i"
    from eq [rule_format, of "i - ?m"] \<open>?m \<le> i\<close> show "bit a i = bit b i" by (simp add: bit_drop_bit_eq)
  qed
  also have "\<dots> \<longleftrightarrow> drop_bit ?m a = drop_bit ?m b" by (auto simp only: intro: bit_word_eqI)
  finally show ?thesis .
qed

lemma masked_eq_nat:
  "(a :: 'a::len word) AND CIDRMask n = b AND CIDRMask n \<longleftrightarrow>
    unat a div 2 ^ (LENGTH('a) - n) = unat b div 2 ^ (LENGTH('a) - n)"
proof -
  have "unat (drop_bit m x) = unat x div 2 ^ m" for m and x :: "'a word"
    unfolding unat_drop_bit_eq by (rule drop_bit_eq_div)
  then show ?thesis unfolding masked_eq_iff by (metis unsigned_word_eqI)
qed

lemma CIDRMask_idem: "(a AND CIDRMask n) AND CIDRMask n = (a :: 'a::len word) AND CIDRMask n"
  by (simp add: and.assoc)

section \<open>Host and port\<close>

definition last_index :: "char \<Rightarrow> string \<Rightarrow> nat option" where
  "last_index c s =
    (if c \<in> set s then Some (length s - 1 - length (takeWhile (\<lambda>x. x \<noteq> c) (rev s))) else None)"

definition first_index :: "char \<Rightarrow> string \<Rightarrow> nat option" where
  "first_index c s = (if c \<in> set s then Some (length (takeWhile (\<lambda>x. x \<noteq> c) s)) else None)"

definition SplitHostPort :: "string \<Rightarrow> (string \<times> string) option" where
  "SplitHostPort hp =
    (case last_index CHR '':'' hp of
       None \<Rightarrow> None
     | Some i \<Rightarrow>
         if prefix ''['' hp then
           (case first_index CHR '']'' hp of
              None \<Rightarrow> None
            | Some e \<Rightarrow>
                if Suc e \<noteq> i then None
                else if CHR ''['' \<in> set (drop 1 hp) \<or> CHR '']'' \<in> set (drop (Suc e) hp) then None
                else Some (drop 1 (take e hp), drop (Suc i) hp))
         else
           (if CHR '':'' \<in> set (take i hp) then None
            else if CHR ''['' \<in> set hp \<or> CHR '']'' \<in> set hp then None
            else Some (take i hp, drop (Suc i) hp)))"

definition JoinHostPort :: "string \<Rightarrow> string \<Rightarrow> string" where
  "JoinHostPort host port =
    (if CHR '':'' \<in> set host then ''['' @ host @ '']:'' @ port else host @ '':'' @ port)"

lemma takeWhile_absent: "c \<notin> set ys \<Longrightarrow> takeWhile (\<lambda>x. x \<noteq> c) ys = ys"
  by (auto simp: takeWhile_eq_all_conv)

lemma last_index_append: "c \<notin> set ys \<Longrightarrow> last_index c (xs @ c # ys) = Some (length xs)"
  by (simp add: last_index_def takeWhile_tail takeWhile_absent)

lemma last_index_SomeD:
  assumes "last_index c s = Some i"
  shows "s = take i s @ c # drop (Suc i) s" "c \<notin> set (drop (Suc i) s)"
proof -
  obtain xs ys where s: "s = xs @ c # ys" "c \<notin> set ys"
    using assms split_list_last [of c s] by (auto simp: last_index_def split: if_splits)
  with assms last_index_append [of c ys xs] show "s = take i s @ c # drop (Suc i) s" "c \<notin> set (drop (Suc i) s)"
    by simp_all
qed

lemma first_index_append: "c \<notin> set xs \<Longrightarrow> first_index c (xs @ c # ys) = Some (length xs)"
  by (simp add: first_index_def takeWhile_tail takeWhile_absent)

lemma SplitHostPort_parts:
  assumes "SplitHostPort hp = Some (h, p)"
  shows "CHR ''['' \<notin> set h" "CHR '']'' \<notin> set h" "CHR '':'' \<notin> set p" "CHR ''['' \<notin> set p" "CHR '']'' \<notin> set p"
proof -
  obtain i where i: "last_index CHR '':'' hp = Some i" using assms by (auto simp: SplitHostPort_def split: option.splits)
  note last = last_index_SomeD [OF i]
  show "CHR '':'' \<notin> set p" using assms i last(2) by (auto simp: SplitHostPort_def split: option.splits if_splits)
  have "CHR ''['' \<notin> set h \<and> CHR '']'' \<notin> set h \<and> CHR ''['' \<notin> set p \<and> CHR '']'' \<notin> set p"
  proof (cases "prefix ''['' hp")
    case False
    with assms i show ?thesis
      by (auto simp: SplitHostPort_def dest: in_set_takeD in_set_dropD split: if_splits)
  next
    case True
    with assms i obtain e where e: "first_index CHR '']'' hp = Some e" "Suc e = i"
        "CHR ''['' \<notin> set (drop 1 hp)" "CHR '']'' \<notin> set (drop (Suc e) hp)" "h = drop 1 (take e hp)" "p = drop (Suc i) hp"
      by (auto simp: SplitHostPort_def split: option.splits if_splits)
    have "CHR '']'' \<notin> set (take e hp)"
      using e(1) by (auto simp: first_index_def takeWhile_eq_take [symmetric] takeWhile_absent dest: set_takeWhileD split: if_splits)
    moreover have "set h \<subseteq> set (take e hp)" unfolding e(5) by (rule set_drop_subset)
    moreover have "set p \<subseteq> set (drop (Suc e) hp)" "set p \<subseteq> set (drop 1 hp)" "set h \<subseteq> set (drop 1 hp)"
      using e(2,5,6) set_drop_subset_set_drop [of "Suc e" "Suc i" hp] set_drop_subset_set_drop [of 1 "Suc i" hp]
      by (auto simp: drop_take dest: in_set_dropD in_set_takeD)
    ultimately show ?thesis using e(3,4) by blast
  qed
  then show "CHR ''['' \<notin> set h" "CHR '']'' \<notin> set h" "CHR ''['' \<notin> set p" "CHR '']'' \<notin> set p" by blast+
qed

text \<open>What \<^verbatim>\<open>SplitHostPort\<close> returns, \<^verbatim>\<open>JoinHostPort\<close> puts together so that it splits the same way.\<close>

lemma SplitHostPort_JoinHostPort:
  assumes "SplitHostPort hp = Some (h, p)"
  shows "SplitHostPort (JoinHostPort h p) = Some (h, p)"
proof (cases "CHR '':'' \<in> set h")
  case True
  note parts = SplitHostPort_parts [OF assms]
  have "last_index CHR '':'' (''['' @ h @ '']:'' @ p) = Some (length h + 2)"
    using last_index_append [OF parts(3), of "''['' @ h @ '']''"] by simp
  moreover have "first_index CHR '']'' (''['' @ h @ '']:'' @ p) = Some (length h + 1)"
    using first_index_append [of "CHR '']''" "''['' @ h" "'':'' @ p"] parts(2) by simp
  ultimately show ?thesis using True parts by (simp add: SplitHostPort_def JoinHostPort_def)
next
  case False
  note parts = SplitHostPort_parts [OF assms]
  have "last_index CHR '':'' (h @ '':'' @ p) = Some (length h)" using last_index_append [OF parts(3), of h] by simp
  moreover have "\<not> prefix ''['' (h @ '':'' @ p)" using parts(1) by (cases h) auto
  ultimately show ?thesis using False parts by (simp add: SplitHostPort_def JoinHostPort_def)
qed

section \<open>Formatting\<close>

text \<open>\<^verbatim>\<open>IP.String\<close>: dotted decimal for addresses in the IPv4 block, otherwise groups in lower-case
  hexadecimal with the first longest run of at least two zero groups elided.\<close>

definition dec_octet :: "nat \<Rightarrow> string" where
  "dec_octet n =
    (if n < 10 then [char_of (48 + n)]
     else if n < 100 then [char_of (48 + n div 10), char_of (48 + n mod 10)]
     else [char_of (48 + n div 100), char_of (48 + n div 10 mod 10), char_of (48 + n mod 10)])"

definition ipv4_octets :: "ipv4 \<Rightarrow> nat list" where
  "ipv4_octets a = (let n = unat a in [n div 16777216, n div 65536 mod 256, n div 256 mod 256, n mod 256])"

definition ipv4_String :: "ipv4 \<Rightarrow> string" where
  "ipv4_String a = JoinByte CHR ''.'' (map dec_octet (ipv4_octets a))"

definition hex_digit :: "nat \<Rightarrow> char" where
  "hex_digit n = (if n < 10 then char_of (48 + n) else char_of (87 + n))"

text \<open>\<^verbatim>\<open>appendHex\<close>: no leading zeros.\<close>

definition hex_string :: "nat \<Rightarrow> string" where
  "hex_string n =
    (if 4096 \<le> n then [hex_digit (n div 4096)] else []) @
    (if 256 \<le> n then [hex_digit (n div 256 mod 16)] else []) @
    (if 16 \<le> n then [hex_digit (n div 16 mod 16)] else []) @ [hex_digit (n mod 16)]"

definition ip_groups :: "IP \<Rightarrow> nat list" where
  "ip_groups ip = map (\<lambda>i. unat ip div 65536 ^ (7 - i) mod 65536) [0..<8]"

definition zero_run :: "nat list \<Rightarrow> nat \<Rightarrow> nat" where
  "zero_run gs i = length (takeWhile (\<lambda>g. g = 0) (drop i gs))"

definition longest_zero_run :: "nat list \<Rightarrow> (nat \<times> nat) option" where
  "longest_zero_run gs =
    foldl (\<lambda>best i. let l = zero_run gs i in
        if 2 \<le> l \<and> (case best of None \<Rightarrow> True | Some (s, e) \<Rightarrow> e - s < l) then Some (i, i + l) else best)
      None [0..<8]"

definition string6 :: "IP \<Rightarrow> string" where
  "string6 ip =
    (let gs = ip_groups ip; hs = map hex_string gs in
     case longest_zero_run gs of
       None \<Rightarrow> JoinByte CHR '':'' hs
     | Some (s, e) \<Rightarrow> JoinByte CHR '':'' (take s hs) @ ''::'' @ JoinByte CHR '':'' (drop e hs))"

definition IP_String :: "IP \<Rightarrow> string" where
  "IP_String ip = (case To4 ip of Some a \<Rightarrow> ipv4_String a | None \<Rightarrow> string6 ip)"

section \<open>Evaluation\<close>

lemma replicate_numeral_unfold: "replicate (numeral k) x = x # replicate (pred_numeral k) x"
  by (simp add: numeral_eq_Suc)

text \<open>Evaluation of the parsers on concrete strings by the simplifier.\<close>

lemmas net_eval =
  ParseCIDR_def ParseIP_def ParseAddr_def CutByte_def prefix_length_def parseIPv4_def octet_def digit_value_def
  is_digit_def ipv4_of_def CIDRMask_def mask_eq_exp_minus_1 parseIPv6_def groups_value_def expand_groups_def
  parse6.simps hex_group_def is_hex_def hex_value_def hex_number_def replicate_numeral_unfold
  SplitHostPort_def JoinHostPort_def last_index_def first_index_def

end
