(* ===== verification/SsrfGuard.thy ===== *)
theory SsrfGuard
  imports NetAddr
begin

text \<open>The guard against server-side request forgery of the egress proxy
  (\<^verbatim>\<open>internal/adapters/egress/dns.go\<close>): the built-in list of private networks, the address test, the
  host check and the dial.\<close>

section \<open>The guard\<close>

definition builtInPrivateCIDRs :: "string list" where
  "builtInPrivateCIDRs =
    [''127.0.0.0/8'', ''10.0.0.0/8'', ''172.16.0.0/12'', ''192.168.0.0/16'', ''169.254.0.0/16'', ''100.64.0.0/10'',
     ''0.0.0.0/8'', ''192.0.0.0/24'', ''192.0.2.0/24'', ''198.51.100.0/24'', ''203.0.113.0/24'', ''224.0.0.0/4'',
     ''240.0.0.0/4'', ''255.255.255.255/32'', ''::1/128'', ''fc00::/7'', ''fe80::/10'', ''ff00::/8'']"

record SSRFGuardConfig =
  sg_BlockPrivate :: bool
  sg_AllowedPrivate :: "string list"

record SSRFGuard =
  sg_cfg :: SSRFGuardConfig
  sg_privateRanges :: "IPNet list"
  sg_allowedPrivate :: "IPNet list"

datatype guard_config_error = InvalidBuiltIn string | InvalidAllowedPrivate string

fun parse_ranges :: "(string \<Rightarrow> guard_config_error) \<Rightarrow> string list \<Rightarrow> guard_config_error + IPNet list" where
  "parse_ranges err [] = Inr []"
| "parse_ranges err (s # ss) =
    (case ParseCIDR s of
       None \<Rightarrow> Inl (err s)
     | Some n \<Rightarrow> (case parse_ranges err ss of Inl e \<Rightarrow> Inl e | Inr ns \<Rightarrow> Inr (n # ns)))"

definition NewSSRFGuard :: "SSRFGuardConfig \<Rightarrow> guard_config_error + SSRFGuard" where
  "NewSSRFGuard cfg =
    (case parse_ranges InvalidBuiltIn builtInPrivateCIDRs of
       Inl e \<Rightarrow> Inl e
     | Inr private \<Rightarrow>
         (case parse_ranges InvalidAllowedPrivate (sg_AllowedPrivate cfg) of
            Inl e \<Rightarrow> Inl e
          | Inr allowed \<Rightarrow>
              Inr \<lparr>sg_cfg = cfg, sg_privateRanges = private, sg_allowedPrivate = allowed\<rparr>))"

definition isBlocked :: "SSRFGuard \<Rightarrow> IP \<Rightarrow> bool" where
  "isBlocked g ip =
    (if \<not> list_ex (\<lambda>r. net_Contains r ip) (sg_privateRanges g) then False
     else \<not> list_ex (\<lambda>r. net_Contains r ip) (sg_allowedPrivate g))"

section \<open>Resolving and dialling\<close>

text \<open>\<^verbatim>\<open>Resolver.LookupHost\<close>: the empty name fails, an address literal (a scoped one included) is its own
  answer, anything else is asked of the name service \<open>dns\<close>, a parameter.\<close>

definition LookupHost :: "(string \<Rightarrow> string list option) \<Rightarrow> string \<Rightarrow> string list option" where
  "LookupHost dns host =
    (if host = [] then None else if ParseAddr host \<noteq> None then Some [host] else dns host)"

datatype dial_error = BadAddress | SSRFBlockedError string IP | LookupFailed | DialFailed

text \<open>The loop over the resolved addresses; what does not parse is skipped.\<close>

fun first_blocked :: "SSRFGuard \<Rightarrow> string list \<Rightarrow> IP option" where
  "first_blocked g [] = None"
| "first_blocked g (a # as) =
    (case ParseIP a of
       None \<Rightarrow> first_blocked g as
     | Some ip \<Rightarrow> if isBlocked g ip then Some ip else first_blocked g as)"

definition checkHost :: "SSRFGuard \<Rightarrow> (string \<Rightarrow> string list option) \<Rightarrow> string \<Rightarrow> dial_error option" where
  "checkHost g dns host =
    (case ParseIP host of
       Some ip \<Rightarrow> if isBlocked g ip then Some (SSRFBlockedError host ip) else None
     | None \<Rightarrow>
         (case LookupHost dns host of
            None \<Rightarrow> Some LookupFailed
          | Some addrs \<Rightarrow> map_option (SSRFBlockedError host) (first_blocked g addrs)))"

text \<open>The dialer resolves the host again, at a later moment (\<open>dns'\<close>); its result here is the list of
  addresses it tries. An empty host means the local system to the dialer.\<close>

definition Dial :: "(string \<Rightarrow> string list option) \<Rightarrow> string \<Rightarrow> dial_error + string list" where
  "Dial dns' hp =
    (case SplitHostPort hp of
       None \<Rightarrow> Inl DialFailed
     | Some (host, port) \<Rightarrow>
         if host = [] then Inr [''127.0.0.1'', ''::1'']
         else (case LookupHost dns' host of None \<Rightarrow> Inl DialFailed | Some targets \<Rightarrow> Inr targets))"

definition DialContext ::
    "SSRFGuard \<Rightarrow> (string \<Rightarrow> string list option) \<Rightarrow> (string \<Rightarrow> string list option) \<Rightarrow> string \<Rightarrow> dial_error + string list" where
  "DialContext g dns dns' addr =
    (case SplitHostPort addr of
       None \<Rightarrow> Inl BadAddress
     | Some (host, port) \<Rightarrow>
         (case (if sg_BlockPrivate (sg_cfg g) then checkHost g dns host else None) of
            Some e \<Rightarrow> Inl e
          | None \<Rightarrow> Dial dns' (JoinHostPort host port)))"

section \<open>The built-in list\<close>

lemma ParseCIDR_literals:
  "ParseCIDR ''127.0.0.0/8'' = Some (IPNet4 0x7F000000 8)"
  "ParseCIDR ''10.0.0.0/8'' = Some (IPNet4 0x0A000000 8)"
  "ParseCIDR ''172.16.0.0/12'' = Some (IPNet4 0xAC100000 12)"
  "ParseCIDR ''192.168.0.0/16'' = Some (IPNet4 0xC0A80000 16)"
  "ParseCIDR ''169.254.0.0/16'' = Some (IPNet4 0xA9FE0000 16)"
  "ParseCIDR ''100.64.0.0/10'' = Some (IPNet4 0x64400000 10)"
  "ParseCIDR ''0.0.0.0/8'' = Some (IPNet4 0 8)"
  "ParseCIDR ''192.0.0.0/24'' = Some (IPNet4 0xC0000000 24)"
  "ParseCIDR ''192.0.2.0/24'' = Some (IPNet4 0xC0000200 24)"
  "ParseCIDR ''198.51.100.0/24'' = Some (IPNet4 0xC6336400 24)"
  "ParseCIDR ''203.0.113.0/24'' = Some (IPNet4 0xCB007100 24)"
  "ParseCIDR ''224.0.0.0/4'' = Some (IPNet4 0xE0000000 4)"
  "ParseCIDR ''240.0.0.0/4'' = Some (IPNet4 0xF0000000 4)"
  "ParseCIDR ''255.255.255.255/32'' = Some (IPNet4 0xFFFFFFFF 32)"
  "ParseCIDR ''::1/128'' = Some (IPNet6 1 128)"
  "ParseCIDR ''fc00::/7'' = Some (IPNet6 0xFC000000000000000000000000000000 7)"
  "ParseCIDR ''fe80::/10'' = Some (IPNet6 0xFE800000000000000000000000000000 10)"
  "ParseCIDR ''ff00::/8'' = Some (IPNet6 0xFF000000000000000000000000000000 8)"
  by (simp_all add: net_eval)

lemma built_in_parsed:
  "parse_ranges InvalidBuiltIn builtInPrivateCIDRs = Inr [IPNet4 0x7F000000 8, IPNet4 0x0A000000 8, IPNet4 0xAC100000 12, IPNet4 0xC0A80000 16, IPNet4 0xA9FE0000 16, IPNet4 0x64400000 10, IPNet4 0 8, IPNet4 0xC0000000 24, IPNet4 0xC0000200 24, IPNet4 0xC6336400 24, IPNet4 0xCB007100 24, IPNet4 0xE0000000 4, IPNet4 0xF0000000 4, IPNet4 0xFFFFFFFF 32, IPNet6 1 128, IPNet6 0xFC000000000000000000000000000000 7, IPNet6 0xFE800000000000000000000000000000 10, IPNet6 0xFF000000000000000000000000000000 8]"
  by (simp only: builtInPrivateCIDRs_def parse_ranges.simps ParseCIDR_literals option.case sum.case)

text \<open>The private IPv4 addresses as intervals of their 32-bit value, and the private IPv6 addresses as
  intervals of their 128-bit value.\<close>

definition private_v4 :: "nat \<Rightarrow> bool" where
  "private_v4 n \<longleftrightarrow>
     n div 2 ^ 24 \<in> {0, 10, 127} \<or> n div 2 ^ 20 = 172 * 16 + 1 \<or> n div 2 ^ 22 = 100 * 4 + 1 \<or>
     n div 2 ^ 16 \<in> {169 * 256 + 254, 192 * 256 + 168} \<or>
     n div 2 ^ 8 \<in> {192 * 65536, 192 * 65536 + 2, 198 * 65536 + 51 * 256 + 100, 203 * 65536 + 113} \<or>
     224 * 2 ^ 24 \<le> n"

definition private_v6 :: "nat \<Rightarrow> bool" where
  "private_v6 n \<longleftrightarrow> n = 1 \<or> n div 2 ^ 121 = 0x7E \<or> n div 2 ^ 118 = 0x3FA \<or> n div 2 ^ 120 = 0xFF"

lemma Contains_v4_v4 [simp]:
  "To4 ip = Some a \<Longrightarrow> net_Contains (IPNet4 nw k) ip \<longleftrightarrow> unat nw div 2 ^ (32 - k) = unat a div 2 ^ (32 - k)"
  by (simp add: net_Contains_def masked_eq_nat)

lemma Contains_v4_v6 [simp]: "To4 ip = None \<Longrightarrow> \<not> net_Contains (IPNet4 nw k) ip"
  by (simp add: net_Contains_def)

lemma Contains_v6_v4 [simp]: "To4 nw = None \<Longrightarrow> To4 ip = Some a \<Longrightarrow> \<not> net_Contains (IPNet6 nw k) ip"
  by (simp add: net_Contains_def)

lemma Contains_v6_v6 [simp]:
  "To4 nw = None \<Longrightarrow> To4 ip = None \<Longrightarrow>
    net_Contains (IPNet6 nw k) ip \<longleftrightarrow> unat nw div 2 ^ (128 - k) = unat ip div 2 ^ (128 - k)"
  by (simp add: net_Contains_def masked_eq_nat)

lemma parse_ranges_Inr:
  "parse_ranges err ss = Inr ns \<Longrightarrow> list_all2 (\<lambda>s n. ParseCIDR s = Some n) ss ns"
  by (induction err ss arbitrary: ns rule: parse_ranges.induct) (auto split: option.splits sum.splits)

lemma NewSSRFGuard_private:
  "NewSSRFGuard cfg = Inr g \<Longrightarrow> parse_ranges InvalidBuiltIn builtInPrivateCIDRs = Inr (sg_privateRanges g)"
  by (auto simp: NewSSRFGuard_def split: sum.splits)

lemma NewSSRFGuard_cfg: "NewSSRFGuard cfg = Inr g \<Longrightarrow> sg_cfg g = cfg"
  by (auto simp: NewSSRFGuard_def split: sum.splits)

lemma NewSSRFGuard_allowed:
  "NewSSRFGuard cfg = Inr g \<Longrightarrow>
    list_all2 (\<lambda>s n. ParseCIDR s = Some n) (sg_AllowedPrivate cfg) (sg_allowedPrivate g)"
  by (auto simp: NewSSRFGuard_def dest: parse_ranges_Inr split: sum.splits)

lemma list_all2_ex_iff:
  "list_all2 (\<lambda>s n. f s = Some n) ss ns \<Longrightarrow> list_ex P ns \<longleftrightarrow> (\<exists>s\<in>set ss. \<exists>n. f s = Some n \<and> P n)"
  by (induction ss ns rule: list_all2_induct) auto

lemma div_eq_interval: "0 < m \<Longrightarrow> (n :: nat) div m = q \<longleftrightarrow> q * m \<le> n \<and> n < q * m + m"
  using times_div_less_eq_dividend [of m n] dividend_less_div_times [of m n]
  by (auto simp: mult.commute intro!: div_nat_eqI)

lemma in_built_in_v4:
  assumes "NewSSRFGuard cfg = Inr g" "To4 ip = Some a"
  shows "list_ex (\<lambda>r. net_Contains r ip) (sg_privateRanges g) \<longleftrightarrow> private_v4 (unat a)"
proof -
  have none: "To4 (1 :: IP) = None" "To4 (0xFC000000000000000000000000000000 :: IP) = None"
    "To4 (0xFE800000000000000000000000000000 :: IP) = None" "To4 (0xFF000000000000000000000000000000 :: IP) = None"
    by (simp_all add: To4_def)
  note eq = NewSSRFGuard_private [OF assms(1), symmetric, unfolded built_in_parsed sum.inject]
  have "unat a < 4294967296" using unsigned_less [of a, where 'a = nat] by simp
  then have "unat a div 268435456 = 14 \<or> unat a div 268435456 = 15 \<or> unat a = 4294967295 \<longleftrightarrow> 3758096384 \<le> unat a"
    by (auto simp: div_eq_interval)
  with assms(2) show ?thesis by (simp add: eq none private_v4_def) blast
qed

lemma in_built_in_v6:
  assumes "NewSSRFGuard cfg = Inr g" "To4 ip = None"
  shows "list_ex (\<lambda>r. net_Contains r ip) (sg_privateRanges g) \<longleftrightarrow> private_v6 (unat ip)"
proof -
  have none: "To4 (1 :: IP) = None" "To4 (0xFC000000000000000000000000000000 :: IP) = None"
    "To4 (0xFE800000000000000000000000000000 :: IP) = None" "To4 (0xFF000000000000000000000000000000 :: IP) = None"
    by (simp_all add: To4_def)
  note eq = NewSSRFGuard_private [OF assms(1), symmetric, unfolded built_in_parsed sum.inject]
  from assms(2) show ?thesis by (auto simp: eq none private_v6_def)
qed

lemma first_blocked_None:
  "first_blocked g as = None \<longleftrightarrow> (\<forall>a\<in>set as. \<forall>ip. ParseIP a = Some ip \<longrightarrow> \<not> isBlocked g ip)"
  by (induction g as rule: first_blocked.induct) (auto split: option.splits)

lemma ParseIP_LookupHost: "ParseIP host = Some ip \<Longrightarrow> LookupHost dns host = Some [host]"
  by (auto simp: LookupHost_def ParseIP_def ParseAddr_def split: option.splits)

lemma checkHost_None:
  "checkHost g dns host = None \<Longrightarrow>
    \<exists>as. LookupHost dns host = Some as \<and> (\<forall>a\<in>set as. \<forall>ip. ParseIP a = Some ip \<longrightarrow> \<not> isBlocked g ip)"
  using ParseIP_LookupHost [of host]
  by (fastforce simp: checkHost_def first_blocked_None split: option.splits if_splits)

section \<open>Properties\<close>

lemma ssrf_blocks_iff:
  assumes "NewSSRFGuard cfg = Inr g"
  shows "isBlocked g ip \<longleftrightarrow>
    (case To4 ip of Some a \<Rightarrow> private_v4 (unat a) | None \<Rightarrow> private_v6 (unat ip)) \<and>
    (\<forall>s\<in>set (sg_AllowedPrivate cfg). \<forall>n. ParseCIDR s = Some n \<longrightarrow> \<not> net_Contains n ip)"
proof -
  have "list_ex (\<lambda>r. net_Contains r ip) (sg_privateRanges g) \<longleftrightarrow>
      (case To4 ip of Some a \<Rightarrow> private_v4 (unat a) | None \<Rightarrow> private_v6 (unat ip))"
    using in_built_in_v4 [OF assms] in_built_in_v6 [OF assms] by (auto split: option.splits)
  with list_all2_ex_iff [OF NewSSRFGuard_allowed [OF assms], of "\<lambda>r. net_Contains r ip"] show ?thesis
    by (auto simp: isBlocked_def)
qed

text \<open>C13: Which addresses the guard blocks, as intervals of the address value: the private, loopback,
  link-local, documentation, multicast and reserved IPv4 blocks, written either way (an IPv4-mapped
  IPv6 address counts as its IPv4 address), and the IPv6 loopback, unique-local, link-local and
  multicast blocks, unless an allowed network contains the address.\<close>

theorem ssrf_blocked_ranges:
  assumes "NewSSRFGuard cfg = Inr g"
  shows "isBlocked g ip \<longleftrightarrow>
    (case To4 ip of Some a \<Rightarrow> private_v4 (unat a) | None \<Rightarrow> private_v6 (unat ip)) \<and>
    (\<forall>s\<in>set (sg_AllowedPrivate cfg). \<forall>n. ParseCIDR s = Some n \<longrightarrow> \<not> net_Contains n ip)"
  using ssrf_blocks_iff [OF assms] .

definition default_guard :: SSRFGuard where
  "default_guard =
    (case NewSSRFGuard \<lparr>sg_BlockPrivate = True, sg_AllowedPrivate = [''10.1.0.0/16'']\<rparr> of Inr g \<Rightarrow> g | Inl _ \<Rightarrow> undefined)"

lemma default_guard: "NewSSRFGuard \<lparr>sg_BlockPrivate = True, sg_AllowedPrivate = [''10.1.0.0/16'']\<rparr> = Inr default_guard"
  by (simp add: default_guard_def NewSSRFGuard_def built_in_parsed net_eval)

lemma To4_ground:
  "To4 (numeral k) = (if drop_bit 32 (numeral k :: IP) = 0xFFFF then Some (ucast (numeral k :: IP)) else None)"
  "To4 0 = None" "To4 1 = None"
  by (simp_all add: To4_def)

lemma default_guard_blocks:
  "isBlocked default_guard ip \<longleftrightarrow>
    (case To4 ip of Some a \<Rightarrow> private_v4 (unat a) \<and> unat a div 65536 \<noteq> 2561 | None \<Rightarrow> private_v6 (unat ip))"
proof -
  have "ParseCIDR ''10.1.0.0/16'' = Some (IPNet4 0x0A010000 16)" by (simp add: net_eval)
  then show ?thesis unfolding ssrf_blocks_iff [OF default_guard] by (cases "To4 ip") auto
qed

theorem ssrf_blocked_ranges_witness:
  "isBlocked default_guard (v4_in_6 0x7F000001) \<and> isBlocked default_guard (v4_in_6 0x0A000001) \<and>
   \<not> isBlocked default_guard (v4_in_6 0x0A010001) \<and> \<not> isBlocked default_guard (v4_in_6 0x08080808) \<and>
   isBlocked default_guard 1 \<and> \<not> isBlocked default_guard 0"
proof -
  have none: "To4 (1 :: IP) = None" "To4 (0 :: IP) = None" by (simp_all add: To4_def)
  show ?thesis
    unfolding ssrf_blocked_ranges [OF default_guard]
    by (simp add: none private_v4_def private_v6_def net_eval)
qed



text \<open>Three ways past the guard. The unspecified address \<^verbatim>\<open>::\<close>, which a dial treats as the local
  host, is in no blocked range; a scoped link-local or loopback address is not an address to
  \<^verbatim>\<open>net.ParseIP\<close> and the check skips it; and a name that resolves to a public address at the check and to
  a private one at the dial is dialled at the private one.\<close>

theorem ssrf_guard_gaps:
  "DialContext default_guard dns dns ''[::]:80'' = Inr [''::''] \<and>
   DialContext default_guard dns dns ''[fe80::1%eth0]:80'' = Inr [''fe80::1%eth0''] \<and>
   DialContext default_guard (\<lambda>h. Some [''93.184.216.34'']) (\<lambda>h. Some [''127.0.0.1'']) ''a.test:80'' = Inr [''127.0.0.1''] \<and>
   isBlocked default_guard (v4_in_6 0x7F000001)"
proof -
  have bp: "sg_BlockPrivate (sg_cfg default_guard)"
    using NewSSRFGuard_cfg [OF default_guard] by simp
  have nb: "\<not> isBlocked default_guard (v4_in_6 0x5DB8D822)" "\<not> isBlocked default_guard 0" "isBlocked default_guard (v4_in_6 0x7F000001)"
    by (simp_all add: default_guard_blocks To4_ground private_v4_def private_v6_def)
  have p: "ParseIP ''93.184.216.34'' = Some (v4_in_6 0x5DB8D822)" "ParseIP ''::'' = Some 0" "ParseIP ''fe80::1%eth0'' = None"
    "ParseAddr ''fe80::1%eth0'' = Some (Addr6 0xFE800000000000000000000000000001 ''eth0'')" "ParseIP ''a.test'' = None"
    "ParseAddr ''a.test'' = None" "ParseAddr ''::'' = Some (Addr6 0 [])"
    by (simp_all add: net_eval)
  have split: "SplitHostPort ''[::]:80'' = Some (''::'', ''80'')" "SplitHostPort ''[fe80::1%eth0]:80'' = Some (''fe80::1%eth0'', ''80'')"
    "SplitHostPort ''a.test:80'' = Some (''a.test'', ''80'')"
    by (simp_all add: SplitHostPort_def last_index_def first_index_def)
  show ?thesis
    using bp nb p split [THEN SplitHostPort_JoinHostPort]
    by (simp add: DialContext_def checkHost_def Dial_def LookupHost_def split)
qed

end
