(* ===== verification/AddrRoundTrip.thy ===== *)
theory AddrRoundTrip
  imports NetAddr
begin

text \<open>Printing an address and parsing it again: every address survives \<^verbatim>\<open>IP.String\<close> followed by
  \<^verbatim>\<open>net.ParseIP\<close>. The code relies on it, since the client address travels as text between the
  extraction and the filter.\<close>

section \<open>IPv4\<close>

lemma SplitByte_JoinByte:
  "ps \<noteq> [] \<Longrightarrow> \<forall>p\<in>set ps. c \<notin> set p \<Longrightarrow> SplitByte c (JoinByte c ps) = ps"
  by (induction c ps rule: JoinByte.induct) (auto simp: SplitByte_no_sep SplitByte_append)

lemma byte_of_char_of: "n < 256 \<Longrightarrow> byte_of (char_of n) = n"
  by simp

lemma dec_char: "(n :: nat) < 10 \<Longrightarrow> is_digit (char_of (48 + n)) \<and> digit_value (char_of (48 + n)) = n"
  by (simp add: is_digit_def digit_value_def)

lemma dec_char_zero: "(n :: nat) < 10 \<Longrightarrow> char_of (48 + n) = CHR ''0'' \<longleftrightarrow> n = 0"
  by (auto simp: char_of_eq_iff take_bit_eq_mod)

lemma octet_dec_octet: "n < 256 \<Longrightarrow> octet (dec_octet n) = Some n"
proof -
  assume n: "n < 256"
  consider "n < 10" | "10 \<le> n" "n < 100" | "100 \<le> n" by linarith
  then show ?thesis
  proof cases
    case 1
    with dec_char [of n] show ?thesis by (simp add: dec_octet_def octet_def)
  next
    case 2
    with dec_char [of "n div 10"] dec_char [of "n mod 10"] dec_char_zero [of "n div 10"] show ?thesis
      by (simp add: dec_octet_def octet_def)
  next
    case 3
    with n have "n div 100 < 10" "n div 100 \<noteq> 0" by auto
    moreover have "n div 100 * 100 + n div 10 mod 10 * 10 + n mod 10 = n"
    proof -
      have "n div 100 = n div 10 div 10" by (simp add: div_mult2_eq [symmetric])
      moreover have "n div 10 div 10 * 10 + n div 10 mod 10 = n div 10" "n div 10 * 10 + n mod 10 = n" by simp_all
      ultimately show ?thesis by linarith
    qed
    ultimately show ?thesis
      using 3 n dec_char [of "n div 100"] dec_char [of "n div 10 mod 10"] dec_char [of "n mod 10"] dec_char_zero [of "n div 100"]
      by (simp add: dec_octet_def octet_def)
  qed
qed

lemma dec_octet_chars: "n < 256 \<Longrightarrow> c \<in> set (dec_octet n) \<Longrightarrow> is_digit c"
  using octet_dec_octet [of n] by (auto simp: octet_def list_all_iff split: if_splits)

lemma ipv4_octets_bound: "n \<in> set (ipv4_octets a) \<Longrightarrow> n < 256"
  using unsigned_less [of a, where 'a = nat] by (auto simp: ipv4_octets_def Let_def)

lemma parseIPv4_String: "parseIPv4 (ipv4_String a) = Some (case ipv4_octets a of [p, q, r, s] \<Rightarrow> (p, q, r, s))"
proof -
  have "CHR ''.'' \<notin> set p" if "p \<in> set (map dec_octet (ipv4_octets a))" for p
    using that dec_octet_chars ipv4_octets_bound by (fastforce simp: is_digit_def)
  then have "SplitByte CHR ''.'' (ipv4_String a) = map dec_octet (ipv4_octets a)"
    unfolding ipv4_String_def by (intro SplitByte_JoinByte) (auto simp: ipv4_octets_def Let_def)
  moreover have "map octet (map dec_octet (ipv4_octets a)) = map Some (ipv4_octets a)"
    using ipv4_octets_bound by (simp add: octet_dec_octet)
  ultimately show ?thesis by (simp add: parseIPv4_def ipv4_octets_def Let_def)
qed

lemma ipv4_of_octets: "ipv4_of (case ipv4_octets a of [p, q, r, s] \<Rightarrow> (p, q, r, s)) = a"
proof -
  have "((n div 16777216 * 256 + n div 65536 mod 256) * 256 + n div 256 mod 256) * 256 + n mod 256 = n" for n :: nat
  proof -
    have "n div 16777216 = n div 256 div 256 div 256" "n div 65536 = n div 256 div 256"
      by (simp_all add: div_mult2_eq [symmetric])
    then show ?thesis by simp
  qed
  from this [of "unat a"] have "ipv4_of (case ipv4_octets a of [p, q, r, s] \<Rightarrow> (p, q, r, s)) = of_nat (unat a)"
    by (simp only: ipv4_of_def ipv4_octets_def Let_def list.case prod.case)
  then show ?thesis by simp
qed

lemma find_append_first: "\<forall>x\<in>set xs. \<not> P x \<Longrightarrow> P y \<Longrightarrow> find P (xs @ y # ys) = Some y"
  by (induction xs) auto

lemma ParseAddr_ipv4_String: "ParseAddr (ipv4_String a) = Some (Addr4 a)"
proof -
  obtain p ps where ps: "ipv4_octets a = p # ps" "ps \<noteq> []" by (simp add: ipv4_octets_def Let_def)
  then have s: "ipv4_String a = dec_octet p @ CHR ''.'' # JoinByte CHR ''.'' (map dec_octet ps)"
    by (cases ps) (simp_all add: ipv4_String_def)
  have "p < 256" using ps ipv4_octets_bound [of p a] by simp
  then have "\<forall>x\<in>set (dec_octet p). x \<notin> {CHR ''.'', CHR '':'', CHR ''%''}"
    using dec_octet_chars by (fastforce simp: is_digit_def)
  then have "find (\<lambda>c. c \<in> {CHR ''.'', CHR '':'', CHR ''%''}) (ipv4_String a) = Some CHR ''.''"
    unfolding s by (intro find_append_first) auto
  then show ?thesis by (simp add: ParseAddr_def parseIPv4_String ipv4_of_octets)
qed

lemma To4_SomeD: "To4 ip = Some a \<Longrightarrow> ip = v4_in_6 a"
proof -
  assume "To4 ip = Some a"
  then have high: "drop_bit 32 ip = 0xFFFF" and a: "a = ucast ip" by (auto simp: To4_def split: if_splits)
  have "ip = push_bit 32 (drop_bit 32 ip) OR take_bit 32 ip" by (rule bit_word_eqI) (auto simp: bit_simps)
  moreover have "(ucast (ucast ip :: 32 word) :: IP) = take_bit 32 ip"
    by (rule bit_word_eqI) (auto simp: bit_simps)
  ultimately show ?thesis by (simp add: v4_in_6_def a high)
qed

section \<open>IPv6 groups\<close>

lemma hex_value_digit: "(k :: nat) < 16 \<Longrightarrow> hex_value (hex_digit k) = Some k"
  by (simp add: hex_value_def hex_digit_def is_digit_def)

lemma is_hex_digit: "(k :: nat) < 16 \<Longrightarrow> is_hex (hex_digit k)"
  by (simp add: is_hex_def hex_value_digit)

lemma hex_string_chars: "c \<in> set (hex_string v) \<Longrightarrow> v < 65536 \<Longrightarrow> is_hex c"
  by (auto simp: hex_string_def is_hex_digit less_mult_imp_div_less split: if_splits)

lemma hex_string_length: "hex_string v \<noteq> []" "length (hex_string v) \<le> 4"
  by (simp_all add: hex_string_def)

lemma hex_number_hex_string: "v < 65536 \<Longrightarrow> hex_number (hex_string v) = v"
proof -
  assume v: "v < 65536"
  have d: "v div 4096 = v div 16 div 16 div 16" "v div 256 = v div 16 div 16" by (simp_all add: div_mult2_eq [symmetric])
  have h: "v div 4096 < 16" using v by auto
  consider "v < 16" | "16 \<le> v" "v < 256" | "256 \<le> v" "v < 4096" | "4096 \<le> v" by linarith
  then show ?thesis
  proof cases
    case 1 then show ?thesis by (simp add: hex_string_def hex_number_def hex_value_digit)
  next
    case 2 then have "v div 16 mod 16 = v div 16" by auto
    with 2 show ?thesis by (simp add: hex_string_def hex_number_def hex_value_digit)
  next
    case 3 then have "v div 256 mod 16 = v div 256" by auto
    with 3 show ?thesis by (simp add: hex_string_def hex_number_def hex_value_digit d)
  next
    case 4 with h show ?thesis by (simp add: hex_string_def hex_number_def hex_value_digit d)
  qed
qed

lemma hex_group_hex_string:
  assumes "v < 65536" "r = [] \<or> \<not> is_hex (hd r)"
  shows "hex_group (hex_string v @ r) = Some (v, r)"
proof -
  have all: "\<forall>c\<in>set (hex_string v). is_hex c" using hex_string_chars assms(1) by blast
  have "takeWhile is_hex r = []" "dropWhile is_hex r = r" using assms(2) by (cases r; simp)+
  with all have "takeWhile is_hex (hex_string v @ r) = hex_string v" "dropWhile is_hex (hex_string v @ r) = r"
    by (simp_all add: takeWhile_append2 dropWhile_append2)
  then show ?thesis using hex_string_length [of v] assms(1) by (simp add: hex_group_def hex_number_hex_string)
qed

lemma not_hex_sep: "\<not> is_hex CHR '':''" "\<not> is_hex CHR ''.''" "\<not> is_hex CHR ''%''"
  by (simp_all add: is_hex_def hex_value_def is_digit_def)

definition join_hex :: "nat list \<Rightarrow> string" where
  "join_hex vs = JoinByte CHR '':'' (map hex_string vs)"

lemma join_hex_simps [simp]:
  "join_hex [] = []" "join_hex [v] = hex_string v" "join_hex (v # w # vs) = hex_string v @ CHR '':'' # join_hex (w # vs)"
  by (simp_all add: join_hex_def)

lemma hd_join_hex: "v < 65536 \<Longrightarrow> hd (join_hex (v # vs)) \<noteq> CHR '':'' \<and> join_hex (v # vs) \<noteq> []"
proof -
  assume v: "v < 65536"
  have "hd (hex_string v) \<in> set (hex_string v)" using hex_string_length(1) by simp
  then have "is_hex (hd (hex_string v))" using hex_string_chars v by blast
  then have "hd (hex_string v) \<noteq> CHR '':''" using not_hex_sep(1) by metis
  then show ?thesis using hex_string_length(1) [of v] by (cases vs) simp_all
qed

text \<open>Reading a run of groups that ends the string, or that an ellipsis ends.\<close>

lemma parse6_join_hex:
  "vs \<noteq> [] \<Longrightarrow> \<forall>v\<in>set vs. v < 65536 \<Longrightarrow> length gs + length vs \<le> 8 \<Longrightarrow> parse6 (join_hex vs) gs ell = Some (gs @ vs, ell)"
proof (induction vs arbitrary: gs)
  case (Cons v vs)
  show ?case
  proof (cases vs)
    case Nil
    with Cons.prems show ?thesis
      by (subst parse6.simps) (simp add: hex_group_hex_string [of v "[]", simplified])
  next
    case (Cons w ws)
    have hd: "hd (join_hex (w # ws)) \<noteq> CHR '':''" "join_hex (w # ws) \<noteq> []" using Cons.prems Cons hd_join_hex by auto
    have IH: "parse6 (join_hex (w # ws)) (gs @ [v]) ell = Some (gs @ v # w # ws, ell)"
      using Cons.IH [of "gs @ [v]"] Cons.prems Cons by simp
    have g: "hex_group (join_hex (v # w # ws)) = Some (v, CHR '':'' # join_hex (w # ws))"
      using hex_group_hex_string [of v "CHR '':'' # join_hex (w # ws)"] Cons.prems not_hex_sep by simp
    show ?thesis using Cons.prems Cons g hd IH by (subst parse6.simps) simp
  qed
qed simp

lemma parse6_join_hex_ellipsis:
  "vs \<noteq> [] \<Longrightarrow> \<forall>v\<in>set vs. v < 65536 \<Longrightarrow> length gs + length vs \<le> 8 \<Longrightarrow>
    parse6 (join_hex vs @ ''::'' @ t) gs None =
      (if t = [] then Some (gs @ vs, Some (length gs + length vs)) else parse6 t (gs @ vs) (Some (length gs + length vs)))"
proof (induction vs arbitrary: gs)
  case (Cons v vs)
  show ?case
  proof (cases vs)
    case Nil
    have g: "hex_group (hex_string v @ ''::'' @ t) = Some (v, ''::'' @ t)"
      using hex_group_hex_string [of v "''::'' @ t"] Cons.prems not_hex_sep by simp
    with Nil Cons.prems show ?thesis by (subst parse6.simps) simp
  next
    case (Cons w ws)
    have hd: "hd (join_hex (w # ws) @ ''::'' @ t) \<noteq> CHR '':''" "join_hex (w # ws) \<noteq> []"
      using Cons.prems Cons hd_join_hex [of w ws] by auto
    have g: "hex_group (join_hex (v # w # ws) @ ''::'' @ t) = Some (v, CHR '':'' # join_hex (w # ws) @ ''::'' @ t)"
      using hex_group_hex_string [of v "CHR '':'' # join_hex (w # ws) @ ''::'' @ t"] Cons.prems not_hex_sep by simp
    show ?thesis using Cons.prems Cons g hd Cons.IH [of "gs @ [v]"] by (subst parse6.simps) simp
  qed
qed simp

section \<open>IPv6 addresses\<close>

lemma longest_zero_run_zeros:
  assumes "longest_zero_run gs = Some (s, e)" "length gs = 8"
  shows "s + 2 \<le> e" "e \<le> 8" "take (e - s) (drop s gs) = replicate (e - s) 0"
proof -
  let ?ok = "\<lambda>r. \<forall>s e. r = Some (s, e) \<longrightarrow> s + 2 \<le> e \<and> e = s + zero_run gs s \<and> s < 8"
  have "?ok (foldl (\<lambda>best i. let l = zero_run gs i in
        if 2 \<le> l \<and> (case best of None \<Rightarrow> True | Some (s, e) \<Rightarrow> e - s < l) then Some (i, i + l) else best) r is)"
    if "?ok r" "\<forall>i\<in>set is. i < 8" for r "is"
    using that
  proof (induction "is" arbitrary: r)
    case (Cons i "is")
    show ?case by (simp only: foldl_Cons, rule Cons.IH) (use Cons.prems in \<open>auto simp: Let_def\<close>)
  qed simp
  from this [of None "[0..<8]"] assms(1) have r: "s + 2 \<le> e" "e = s + zero_run gs s" "s < 8"
    by (auto simp: longest_zero_run_def)
  have "zero_run gs s \<le> length (drop s gs)" unfolding zero_run_def by (rule length_takeWhile_le)
  with r assms(2) show "s + 2 \<le> e" "e \<le> 8" by auto
  have "take (zero_run gs s) (drop s gs) = takeWhile (\<lambda>g. g = 0) (drop s gs)"
    by (simp add: zero_run_def takeWhile_eq_take [symmetric])
  also have "\<dots> = replicate (zero_run gs s) 0"
    unfolding zero_run_def by (rule replicate_eqI [symmetric, THEN sym]) (auto dest: set_takeWhileD)
  finally show "take (e - s) (drop s gs) = replicate (e - s) 0" using r(2) by simp
qed

lemma digits_value:
  "foldl (\<lambda>a g. a * B + g) 0 (map (\<lambda>i. n div B ^ (k - 1 - i) mod B) [0..<k]) = n mod (B :: nat) ^ k"
proof (induction k arbitrary: n)
  case (Suc k)
  have "map (\<lambda>i. n div B ^ (Suc k - 1 - i) mod B) [0..<k] = map (\<lambda>i. n div B div B ^ (k - 1 - i) mod B) [0..<k]"
  proof (rule map_cong [OF refl])
    fix i assume "i \<in> set [0..<k]"
    then have "Suc k - 1 - i = Suc (k - 1 - i)" by auto
    then show "n div B ^ (Suc k - 1 - i) mod B = n div B div B ^ (k - 1 - i) mod B" by (simp add: div_mult2_eq)
  qed
  note eq = this
  have "foldl (\<lambda>a g. a * B + g) 0 (map (\<lambda>i. n div B ^ (Suc k - 1 - i) mod B) [0..<Suc k]) =
      foldl (\<lambda>a g. a * B + g) 0 (map (\<lambda>i. n div B ^ (Suc k - 1 - i) mod B) [0..<k]) * B + n mod B" by simp
  also have "\<dots> = (n div B mod B ^ k) * B + n mod B" unfolding eq Suc.IH ..
  finally show ?case by (simp add: mod_mult2_eq mult.commute)
qed simp

lemma ip_groups_value: "groups_value (ip_groups ip) = unat ip"
  using digits_value [of 65536 "unat ip" 8] unsigned_less [of ip, where 'a = nat]
  by (simp add: groups_value_def ip_groups_def del: upt_rec_numeral)

lemma ip_groups_bound: "\<forall>v\<in>set (ip_groups ip). v < 65536" "length (ip_groups ip) = 8"
  by (auto simp: ip_groups_def)

lemma not_prefix_ellipsis: "v < 65536 \<Longrightarrow> \<not> prefix ''::'' (join_hex (v # vs) @ t)"
  using hd_join_hex [of v vs] by (cases "join_hex (v # vs)") auto

lemma parseIPv6_string6: "parseIPv6 (string6 ip) = Some ip"
proof -
  let ?gs = "ip_groups ip"
  note b = ip_groups_bound [of ip]
  have "\<exists>x. (if prefix ''::'' (string6 ip) then
        (if string6 ip = ''::'' then Some ([], Some 0) else parse6 (drop 2 (string6 ip)) [] (Some 0))
      else parse6 (string6 ip) [] None) = Some x \<and> expand_groups x = Some ?gs"
  proof (cases "longest_zero_run ?gs")
    case None
    obtain v vs where v: "?gs = v # vs" using b(2) by (cases ?gs) auto
    have s: "string6 ip = join_hex ?gs" using None by (simp add: string6_def join_hex_def)
    have "\<not> prefix ''::'' (string6 ip)" using not_prefix_ellipsis [of v vs "[]"] b(1) by (simp add: s v)
    moreover have "parse6 (string6 ip) [] None = Some (?gs, None)"
      using parse6_join_hex [of ?gs "[]" None] b v by (simp add: s)
    ultimately show ?thesis using b(2) by (simp add: expand_groups_def)
  next
    case (Some se)
    obtain i j where ij: "se = (i, j)" by (cases se)
    note z = longest_zero_run_zeros [OF Some [unfolded ij] b(2)]
    have s: "string6 ip = join_hex (take i ?gs) @ ''::'' @ join_hex (drop j ?gs)"
      using Some ij by (simp add: string6_def join_hex_def take_map drop_map Let_def)
    have split: "take i ?gs @ replicate (j - i) 0 @ drop j ?gs = ?gs"
    proof -
      have "drop i ?gs = take (j - i) (drop i ?gs) @ drop j ?gs"
        using z(1) append_take_drop_id [of "j - i" "drop i ?gs"] by simp
      with z(3) show ?thesis by (metis append_take_drop_id)
    qed
    have exp: "expand_groups (take i ?gs @ drop j ?gs, Some i) = Some ?gs"
      using z b(2) split by (simp add: expand_groups_def min_def)
    have tail: "drop j ?gs \<noteq> [] \<Longrightarrow> parse6 (join_hex (drop j ?gs)) gs (Some i) = Some (gs @ drop j ?gs, Some i)"
      if "length gs = i" for gs
      using that z b by (intro parse6_join_hex) (auto dest: in_set_dropD)
    have empty: "join_hex (drop j ?gs) = [] \<longleftrightarrow> drop j ?gs = []"
      using hd_join_hex b(1) by (cases "drop j ?gs") (auto dest: in_set_dropD, metis in_set_dropD list.set_intros(1))
    show ?thesis
    proof (cases "i = 0")
      case True
      show ?thesis
      proof (cases "drop j ?gs = []")
        case True then show ?thesis using \<open>i = 0\<close> exp by (simp add: s)
      next
        case False
        with empty tail [of "[]"] \<open>i = 0\<close> exp show ?thesis by (simp add: s)
      qed
    next
      case False
      then obtain v vs where v: "take i ?gs = v # vs" using b(2) by (cases "take i ?gs") auto
      have lt: "length (take i ?gs) = i" "\<forall>v\<in>set (take i ?gs). v < 65536" using z b by (auto dest: in_set_takeD)
      have "\<not> prefix ''::'' (string6 ip)"
        using not_prefix_ellipsis [of v vs "''::'' @ join_hex (drop j ?gs)"] lt(2) by (simp add: s v)
      moreover have "parse6 (string6 ip) [] None = Some (take i ?gs @ drop j ?gs, Some i)"
        unfolding s
        by (subst parse6_join_hex_ellipsis) (use lt z(1,2) False v empty tail [OF lt(1)] in simp_all)
      ultimately show ?thesis using exp by simp
    qed
  qed
  then show ?thesis by (auto simp: parseIPv6_def Let_def ip_groups_value)
qed

end
