(* ===== verification/IpFilter.thy ===== *)
theory IpFilter
  imports AddrRoundTrip Headers
begin

text \<open>Access control by client address: \<^verbatim>\<open>internal/domain/ipfilter/matcher.go\<close>,
  \<^verbatim>\<open>internal/middleware/ip.go\<close> and the request path of
  \<^verbatim>\<open>internal/adapters/caddy/ipfilter_handler.go\<close>.\<close>

section \<open>The list\<close>

type_synonym Mode = string

definition ModeAllowlist :: Mode where
  "ModeAllowlist = ''allowlist''"

record IPList =
  il_nets :: "IPNet list"
  il_ips :: "IP list"

text \<open>The loop of \<^verbatim>\<open>ParseList\<close> with the list read so far; the error names the offending entry.\<close>

fun ParseList_loop :: "string list \<Rightarrow> IPList \<Rightarrow> string + IPList" where
  "ParseList_loop [] l = Inr l"
| "ParseList_loop (addr # addrs) l =
    (case ParseCIDR addr of
       Some n \<Rightarrow> ParseList_loop addrs (l\<lparr>il_nets := il_nets l @ [n]\<rparr>)
     | None \<Rightarrow>
         (case ParseIP addr of
            Some ip \<Rightarrow> ParseList_loop addrs (l\<lparr>il_ips := il_ips l @ [ip]\<rparr>)
          | None \<Rightarrow> Inl addr))"

definition ParseList :: "string list \<Rightarrow> string + IPList" where
  "ParseList addrs = ParseList_loop addrs \<lparr>il_nets = [], il_ips = []\<rparr>"

definition MatchesAny :: "IPList \<Rightarrow> IP option \<Rightarrow> bool" where
  "MatchesAny l ip =
    (case ip of
       None \<Rightarrow> False
     | Some a \<Rightarrow> list_ex (\<lambda>known. known = a) (il_ips l) \<or> list_ex (\<lambda>n. net_Contains n a) (il_nets l))"

definition IsBlocked :: "IP option \<Rightarrow> IPList \<Rightarrow> Mode \<Rightarrow> bool" where
  "IsBlocked ip l mode = (if mode = ModeAllowlist then \<not> MatchesAny l ip else MatchesAny l ip)"

section \<open>The client address\<close>

definition NormalizeIP :: "string \<Rightarrow> string" where
  "NormalizeIP s = (case ParseIP (TrimSpace s) of None \<Rightarrow> [] | Some ip \<Rightarrow> IP_String ip)"

record ClientRequest =
  cr_Method :: string
  cr_Path :: string
  cr_Header :: header
  cr_RemoteAddr :: string

definition ExtractClientIP :: "ClientRequest \<Rightarrow> bool \<Rightarrow> string" where
  "ExtractClientIP r trustProxy =
    (let xff = hdr_Get (cr_Header r) ''X-Forwarded-For'';
         first = TrimSpace (takeWhile (\<lambda>c. c \<noteq> CHR '','') xff) in
     if trustProxy \<and> xff \<noteq> [] \<and> NormalizeIP first \<noteq> [] then NormalizeIP first
     else (case SplitHostPort (cr_RemoteAddr r) of
             None \<Rightarrow> NormalizeIP (cr_RemoteAddr r)
           | Some (host, port) \<Rightarrow> NormalizeIP host))"

section \<open>The handler\<close>

record IPFilterHandlerConfig =
  ic_Mode :: Mode
  ic_Addresses :: "string list"
  ic_TrustProxyHeaders :: bool

record IPFilterHandler =
  ih_Config :: IPFilterHandlerConfig
  ih_list :: IPList
  ih_eventLogger :: bool
  ih_auditLogger :: bool

datatype filter_event =
    IPFilterBlockedEvent string Mode string string
  | IPFilterAuditEvent string string string Mode

definition ipf_Provision :: "IPFilterHandlerConfig \<Rightarrow> bool \<Rightarrow> bool \<Rightarrow> string + IPFilterHandler" where
  "ipf_Provision cfg eventLogger auditLogger =
    (case ParseList (ic_Addresses cfg) of
       Inl e \<Rightarrow> Inl e
     | Inr l \<Rightarrow>
         Inr \<lparr>ih_Config = cfg, ih_list = l, ih_eventLogger = eventLogger, ih_auditLogger = auditLogger\<rparr>)"

datatype filter_outcome = Forbidden | Passed

definition emitBlockedEvent :: "IPFilterHandler \<Rightarrow> string \<Rightarrow> string \<Rightarrow> string \<Rightarrow> filter_event list" where
  "emitBlockedEvent h clientIP mth path =
    (if ih_eventLogger h then [IPFilterBlockedEvent clientIP (ic_Mode (ih_Config h)) mth path] else [])"

definition emitAuditBlockedEvent :: "IPFilterHandler \<Rightarrow> string \<Rightarrow> string \<Rightarrow> string \<Rightarrow> filter_event list" where
  "emitAuditBlockedEvent h clientIP mth path =
    (if ih_auditLogger h then [IPFilterAuditEvent clientIP path mth (ic_Mode (ih_Config h))] else [])"

definition ipf_ServeHTTP :: "IPFilterHandler \<Rightarrow> ClientRequest \<Rightarrow> filter_outcome \<times> filter_event list" where
  "ipf_ServeHTTP h r =
    (let clientIP = ExtractClientIP r (ic_TrustProxyHeaders (ih_Config h)) in
     if IsBlocked (ParseIP clientIP) (ih_list h) (ic_Mode (ih_Config h))
     then (Forbidden, emitBlockedEvent h clientIP (cr_Method r) (cr_Path r) @
                      emitAuditBlockedEvent h clientIP (cr_Method r) (cr_Path r))
     else (Passed, []))"

section \<open>Printing and parsing addresses\<close>

lemma join_hex_chars: "\<forall>v\<in>set vs. v < 65536 \<Longrightarrow> c \<in> set (join_hex vs) \<Longrightarrow> is_hex c \<or> c = CHR '':''"
proof (induction vs)
  case (Cons v vs)
  then show ?case by (cases vs) (auto dest: hex_string_chars)
qed simp

lemma string6_chars: "c \<in> set (string6 ip) \<Longrightarrow> is_hex c \<or> c = CHR '':''"
proof -
  assume c: "c \<in> set (string6 ip)"
  let ?gs = "ip_groups ip"
  have "\<forall>v\<in>set (take i ?gs). v < 65536" "\<forall>v\<in>set (drop i ?gs). v < 65536" for i
    using ip_groups_bound(1) [of ip] by (auto dest: in_set_takeD in_set_dropD)
  note sub = join_hex_chars [OF this(1), of c] join_hex_chars [OF this(2), of c] join_hex_chars [OF ip_groups_bound(1), of c]
  have "c \<in> set (join_hex ?gs) \<or> c = CHR '':'' \<or> (\<exists>i. c \<in> set (join_hex (take i ?gs)) \<or> c \<in> set (join_hex (drop i ?gs)))"
    using c by (cases "longest_zero_run ?gs") (auto simp: string6_def Let_def join_hex_def take_map drop_map)
  with sub show ?thesis by blast
qed

lemma string6_colon: "CHR '':'' \<in> set (string6 ip)"
proof (cases "longest_zero_run (ip_groups ip)")
  case None
  have "length (ip_groups ip) = Suc (Suc 6)" using ip_groups_bound(2) [of ip] by simp
  then obtain v w vs where v: "ip_groups ip = v # w # vs" by (metis length_Suc_conv)
  have "string6 ip = join_hex (ip_groups ip)" using None by (simp add: string6_def join_hex_def)
  then show ?thesis by (simp add: v)
next
  case (Some se)
  obtain i j where "se = (i, j)" by (cases se)
  with Some show ?thesis by (simp add: string6_def Let_def)
qed

lemma find_only: "\<forall>x\<in>set xs. P x \<longrightarrow> x = y \<Longrightarrow> P y \<Longrightarrow> y \<in> set xs \<Longrightarrow> find P xs = Some y"
proof (induction xs)
  case (Cons x xs)
  show ?case
  proof (cases "P x")
    case True
    with Cons.prems(1) have "x = y" by simp
    with True show ?thesis by simp
  next
    case False
    then have "y \<in> set xs" using Cons.prems(2,3) by auto
    then have "find P xs = Some y" by (intro Cons.IH) (meson Cons.prems list.set_intros(2))+
    with False show ?thesis by simp
  qed
qed simp

lemma ParseAddr_string6: "ParseAddr (string6 ip) = Some (Addr6 ip [])"
proof -
  have ne: "CHR ''.'' \<noteq> CHR '':''" "CHR ''%'' \<noteq> CHR '':''" by simp_all
  have dot: "CHR ''.'' \<notin> set (string6 ip)" and pct: "CHR ''%'' \<notin> set (string6 ip)"
    using string6_chars not_hex_sep(2,3) ne by blast+
  have "find (\<lambda>c. c \<in> {CHR ''.'', CHR '':'', CHR ''%''}) (string6 ip) = Some CHR '':''"
  proof (rule find_only)
    show "\<forall>x\<in>set (string6 ip). x \<in> {CHR ''.'', CHR '':'', CHR ''%''} \<longrightarrow> x = CHR '':''"
      using dot pct by (metis empty_iff insert_iff)
  qed (use string6_colon in simp_all)
  with pct show ?thesis by (simp add: ParseAddr_def CutByte_def parseIPv6_string6)
qed

lemma ParseIP_IP_String: "ParseIP (IP_String ip) = Some ip"
  by (cases "To4 ip") (simp_all add: IP_String_def ParseIP_def ParseAddr_ipv4_String ParseAddr_string6 To4_SomeD [symmetric])

lemma TrimSpace_no_space: "\<forall>c\<in>set s. \<not> is_space c \<Longrightarrow> TrimSpace s = s"
proof -
  assume a: "\<forall>c\<in>set s. \<not> is_space c"
  have "dropWhile is_space s = s" "dropWhile is_space (rev s) = rev s"
    using a hd_in_set [of s] last_in_set [of s] by (auto simp: dropWhile_eq_self_iff hd_rev)
  then show ?thesis by (simp add: TrimSpace_def TrimLeftWhile_def TrimRightWhile_def)
qed

lemma JoinByte_chars: "x \<in> set (JoinByte c ps) \<Longrightarrow> x = c \<or> (\<exists>p\<in>set ps. x \<in> set p)"
  by (induction c ps rule: JoinByte.induct) auto

lemma IP_String_no_space: "\<forall>c\<in>set (IP_String ip). \<not> is_space c"
proof
  fix c assume c: "c \<in> set (IP_String ip)"
  show "\<not> is_space c"
  proof (cases "To4 ip")
    case None
    with c string6_chars [of c ip] show ?thesis
      by (auto simp: IP_String_def is_hex_def hex_value_def is_digit_def is_space_def split: if_splits)
  next
    case (Some a)
    with c have "is_digit c \<or> c = CHR ''.''"
      using dec_octet_chars ipv4_octets_bound by (fastforce simp: IP_String_def ipv4_String_def dest: JoinByte_chars)
    then show ?thesis by (auto simp: is_digit_def is_space_def)
  qed
qed

lemma NormalizeIP_String: "NormalizeIP (IP_String ip) = IP_String ip"
  by (simp add: NormalizeIP_def TrimSpace_no_space [OF IP_String_no_space] ParseIP_IP_String)

lemma ParseIP_NormalizeIP: "ParseIP (NormalizeIP s) = ParseIP (TrimSpace s)"
  by (cases "ParseIP (TrimSpace s)") (simp_all add: NormalizeIP_def ParseIP_IP_String, simp add: ParseIP_def ParseAddr_def)


lemma ParseList_loop_Inr:
  "ParseList_loop addrs l = Inr l' \<Longrightarrow>
    MatchesAny l' (Some ip) \<longleftrightarrow> MatchesAny l (Some ip) \<or>
      (\<exists>s\<in>set addrs. case ParseCIDR s of Some n \<Rightarrow> net_Contains n ip | None \<Rightarrow> ParseIP s = Some ip)"
proof (induction addrs l rule: ParseList_loop.induct)
  case (2 addr addrs l)
  show ?case
  proof (cases "ParseCIDR addr")
    case (Some n)
    with 2 show ?thesis by (auto simp: MatchesAny_def)
  next
    case None
    with 2 show ?thesis by (cases "ParseIP addr") (auto simp: MatchesAny_def)
  qed
qed simp

lemma ParseList_matches:
  "ParseList addrs = Inr l \<Longrightarrow> MatchesAny l (Some ip) \<longleftrightarrow>
    (\<exists>s\<in>set addrs. case ParseCIDR s of Some n \<Rightarrow> net_Contains n ip | None \<Rightarrow> ParseIP s = Some ip)"
  unfolding ParseList_def using ParseList_loop_Inr [of addrs _ l ip] by (fastforce simp: MatchesAny_def)

section \<open>Properties\<close>

text \<open>A client address survives its trip as text: whatever text \<^verbatim>\<open>NormalizeIP\<close> is given, its result
  parses to the same address as the text, normalises to itself, and is empty exactly when the text
  is no address.\<close>

theorem normalize_ip_roundtrip:
  "ParseIP (NormalizeIP s) = ParseIP (TrimSpace s) \<and> NormalizeIP (NormalizeIP s) = NormalizeIP s \<and>
   (NormalizeIP s = [] \<longleftrightarrow> ParseIP (TrimSpace s) = None)"
proof (cases "ParseIP (TrimSpace s)")
  case None
  then have "NormalizeIP s = []" by (simp add: NormalizeIP_def)
  with None ParseIP_NormalizeIP [of s] show ?thesis
    by (simp add: NormalizeIP_def TrimSpace_no_space [of "[]"])
next
  case (Some ip)
  then have "NormalizeIP s = IP_String ip" by (simp add: NormalizeIP_def)
  moreover have "IP_String ip \<noteq> []"
    using ParseIP_IP_String [of ip] by (auto simp: ParseIP_def ParseAddr_def)
  ultimately show ?thesis using Some by (simp add: NormalizeIP_String ParseIP_IP_String)
qed

text \<open>C15: The verdict of the filter, from the configuration as written to the decision: when forwarded
  headers are not trusted, a request whose peer address is \<open>ip\<close> is refused in allowlist mode exactly
  when no configured entry covers \<open>ip\<close>, and in any other mode exactly when some entry does, whatever
  its headers; and a refusal is reported to the configured sinks.\<close>

theorem ipfilter_verdict:
  assumes "ipf_Provision cfg ev au = Inr h" "\<not> ic_TrustProxyHeaders cfg"
    and "SplitHostPort (cr_RemoteAddr r) = Some (host, port)" "ParseIP (TrimSpace host) = Some ip"
  shows "fst (ipf_ServeHTTP h r) =
      (if (ic_Mode cfg = ModeAllowlist) \<longleftrightarrow>
          (\<exists>s\<in>set (ic_Addresses cfg). case ParseCIDR s of Some n \<Rightarrow> net_Contains n ip | None \<Rightarrow> ParseIP s = Some ip)
       then Passed else Forbidden) \<and>
    length (snd (ipf_ServeHTTP h r)) = (if fst (ipf_ServeHTTP h r) = Passed then 0 else of_bool ev + of_bool au)"
proof -
  obtain l where l: "ParseList (ic_Addresses cfg) = Inr l"
      and h: "h = \<lparr>ih_Config = cfg, ih_list = l, ih_eventLogger = ev, ih_auditLogger = au\<rparr>"
    using assms(1) by (auto simp: ipf_Provision_def split: sum.splits)
  have "ExtractClientIP r (ic_TrustProxyHeaders (ih_Config h)) = NormalizeIP host"
    using assms(2,3) by (simp add: ExtractClientIP_def h)
  moreover have "ParseIP (NormalizeIP host) = Some ip" using ParseIP_NormalizeIP [of host] assms(4) by simp
  ultimately show ?thesis
    using ParseList_matches [OF l, of ip]
    by (auto simp: ipf_ServeHTTP_def IsBlocked_def h emitBlockedEvent_def emitAuditBlockedEvent_def Let_def)
qed

theorem ipfilter_verdict_witness:
  "let cfg = \<lparr>ic_Mode = ModeAllowlist, ic_Addresses = [''10.0.0.0/8''], ic_TrustProxyHeaders = False\<rparr>;
       h = \<lparr>ih_Config = cfg, ih_list = \<lparr>il_nets = [IPNet4 0x0A000000 8], il_ips = []\<rparr>, ih_eventLogger = True, ih_auditLogger = True\<rparr>;
       r = \<lparr>cr_Method = ''GET'', cr_Path = ''/'', cr_Header = [(''X-Forwarded-For'', [''10.0.0.1''])], cr_RemoteAddr = ''[2001:db8::1]:99''\<rparr> in
   fst (ipf_ServeHTTP h r) = Forbidden"
proof -
  let ?cfg = "\<lparr>ic_Mode = ModeAllowlist, ic_Addresses = [''10.0.0.0/8''], ic_TrustProxyHeaders = False\<rparr>"
  let ?h = "\<lparr>ih_Config = ?cfg, ih_list = \<lparr>il_nets = [IPNet4 0x0A000000 8], il_ips = []\<rparr>, ih_eventLogger = True, ih_auditLogger = True\<rparr>"
  let ?r = "\<lparr>cr_Method = ''GET'', cr_Path = ''/'', cr_Header = [(''X-Forwarded-For'', [''10.0.0.1''])], cr_RemoteAddr = ''[2001:db8::1]:99''\<rparr>"
  have net: "ParseCIDR ''10.0.0.0/8'' = Some (IPNet4 0x0A000000 8)" by (simp add: net_eval)
  then have p: "ipf_Provision ?cfg True True = Inr ?h" by (simp add: ipf_Provision_def ParseList_def)
  have s: "SplitHostPort (cr_RemoteAddr ?r) = Some (''2001:db8::1'', ''99'')" by (simp add: net_eval)
  have "TrimSpace ''2001:db8::1'' = ''2001:db8::1''" by (rule TrimSpace_no_space) (simp add: is_space_def)
  then have ip: "ParseIP (TrimSpace ''2001:db8::1'') = Some 0x20010DB8000000000000000000000001" by (simp add: net_eval)
  have "\<not> net_Contains (IPNet4 0x0A000000 8) 0x20010DB8000000000000000000000001" by (simp add: net_Contains_def To4_def)
  with ipfilter_verdict [OF p _ s ip] net show ?thesis unfolding Let_def by simp
qed

end
