(* ===== verification/AdminAuth.thy ===== *)
theory AdminAuth
  imports Lockout IpFilter
begin

text \<open>The gate in front of the admin API: \<^verbatim>\<open>internal/middleware/admin_auth.go\<close> (the middleware, the token
  extraction, the protected paths) over the lockout port of
  \<^verbatim>\<open>internal/ports/auth_lockout.go\<close>, with \<^verbatim>\<open>retryAfterSeconds\<close> of \<^verbatim>\<open>internal/middleware/ratelimit.go\<close>. The
  port is a locale whose laws the memory guard of the theory \<^verbatim>\<open>Lockout\<close> satisfies.\<close>

section \<open>Cleaning a path\<close>

text \<open>\<^verbatim>\<open>path.Clean\<close> on the elements between slashes: the stack holds the elements kept so far, innermost
  first.\<close>

fun clean_elements :: "bool \<Rightarrow> string list \<Rightarrow> string list \<Rightarrow> string list" where
  "clean_elements rooted st [] = rev st"
| "clean_elements rooted st (e # es) =
    (if e = [] \<or> e = ''.'' then clean_elements rooted st es
     else if e = ''..'' then
       (case st of
          [] \<Rightarrow> clean_elements rooted (if rooted then [] else [''..'']) es
        | inner # rest \<Rightarrow>
            if inner = ''..'' then clean_elements rooted (''..'' # st) es else clean_elements rooted rest es)
     else clean_elements rooted (e # st) es)"

definition path_Clean :: "string \<Rightarrow> string" where
  "path_Clean p =
    (if p = [] then ''.''
     else
       let rooted = (hd p = CHR ''/''); els = clean_elements rooted [] (SplitByte CHR ''/'' p) in
       if rooted then CHR ''/'' # JoinByte CHR ''/'' els
       else if els = [] then ''.'' else JoinByte CHR ''/'' els)"

section \<open>The lockout port\<close>

record 'g AuthLockoutGuard =
  gd_Status :: "instant \<Rightarrow> string \<Rightarrow> 'g \<Rightarrow> LockoutStatus \<times> 'g"
  gd_RecordFailure :: "instant \<Rightarrow> string \<Rightarrow> 'g \<Rightarrow> LockoutStatus \<times> 'g"
  gd_RecordSuccess :: "string \<Rightarrow> 'g \<Rightarrow> 'g"

definition memory_guard_port :: "MemoryGuard AuthLockoutGuard" where
  "memory_guard_port =
    \<lparr>gd_Status = mg_Status, gd_RecordFailure = mg_RecordFailure, gd_RecordSuccess = mg_RecordSuccess\<rparr>"

section \<open>The middleware\<close>

record AdminAuthConfig =
  aa_Enabled :: bool
  aa_Token :: string
  aa_ConfigPath :: string

definition adminPathPrefix :: string where
  "adminPathPrefix = ''/_vibewarden/admin/''"

definition adminUIPrefix :: string where
  "adminUIPrefix = ''/_vibewarden/admin/ui''"

definition matchesConfigPath :: "string \<Rightarrow> string \<Rightarrow> bool" where
  "matchesConfigPath path configPath =
    (if configPath = [] then False
     else if prefix configPath path then True
     else path = TrimSuffix ''/'' configPath)"

definition secureEqual :: "string \<Rightarrow> string \<Rightarrow> bool" where
  "secureEqual a b \<longleftrightarrow> a = b"

definition extractAdminToken :: "ClientRequest \<Rightarrow> string" where
  "extractAdminToken r =
    (let key = hdr_Get (cr_Header r) ''X-Admin-Key'' in
     if key \<noteq> [] then key
     else (case CutByte CHR '' '' (hdr_Get (cr_Header r) ''Authorization'') of
             None \<Rightarrow> []
           | Some (scheme, credentials) \<Rightarrow>
               if \<not> EqualFold scheme ''bearer'' then [] else TrimSpace credentials))"

definition retryAfterSeconds :: "duration \<Rightarrow> int" where
  "retryAfterSeconds d = (if d \<le> 0 then 0 else (d + second - 1) div second)"

datatype admin_response =
    AdminNext | AdminNotFound | AdminMisconfigured | AdminLockedOut int | AdminUnauthorized

datatype admin_audit =
    AuditLockout string LockoutStatus
  | AuditAuthFailure string
  | AuditAuthSuccess string

text \<open>\<open>t\<close> and \<open>t'\<close> are the clock readings of the status query and of the recorded failure. The result
  is the response, the audit events and the guard; no audit logger means no events.\<close>

definition AdminAuthMiddleware ::
    "AdminAuthConfig \<Rightarrow> bool \<Rightarrow> 'g AuthLockoutGuard option \<Rightarrow> instant \<Rightarrow> instant \<Rightarrow> ClientRequest \<Rightarrow> 'g \<Rightarrow>
     admin_response \<times> admin_audit list \<times> 'g" where
  "AdminAuthMiddleware cfg auditLogger lockout t t' r g =
    (let audit = (\<lambda>ev. if auditLogger then [ev] else []);
         isAdmin = prefix adminPathPrefix (cr_Path r);
         isConfig = matchesConfigPath (cr_Path r) (aa_ConfigPath cfg);
         clean = path_Clean (cr_Path r);
         ip = ExtractClientIP r False in
     if \<not> isAdmin \<and> \<not> isConfig then (AdminNext, [], g)
     else if \<not> aa_Enabled cfg then (AdminNotFound, [], g)
     else if clean = adminUIPrefix \<or> prefix (adminUIPrefix @ ''/'') clean then (AdminNext, [], g)
     else if aa_Token cfg = [] then (AdminMisconfigured, [], g)
     else
       case (case lockout of
               Some G \<Rightarrow> if ip \<noteq> [] then map_prod Some id (gd_Status G t ip g) else (None, g)
             | None \<Rightarrow> (None, g)) of
         (st, g1) \<Rightarrow>
           if (case st of Some s \<Rightarrow> ls_LockedOut s | None \<Rightarrow> False)
           then (AdminLockedOut (retryAfterSeconds (ls_RetryAfter (the st))), [], g1)
           else if \<not> secureEqual (extractAdminToken r) (aa_Token cfg) then
             (case (case lockout of
                      Some G \<Rightarrow> if ip \<noteq> [] then map_prod Some id (gd_RecordFailure G t' ip g1) else (None, g1)
                    | None \<Rightarrow> (None, g1)) of
                (fs, g2) \<Rightarrow>
                  (AdminUnauthorized,
                   (case fs of
                      Some s \<Rightarrow> if ls_Tripped s then audit (AuditLockout ip s) else audit (AuditAuthFailure ip)
                    | None \<Rightarrow> audit (AuditAuthFailure ip)), g2))
           else
             (AdminNext, audit (AuditAuthSuccess ip),
              (case lockout of Some G \<Rightarrow> if ip \<noteq> [] then gd_RecordSuccess G ip g1 else g1 | None \<Rightarrow> g1)))"

text \<open>A request the gate applies to, the token-free subtree, and a client the guard holds back.\<close>

definition protected_path :: "AdminAuthConfig \<Rightarrow> string \<Rightarrow> bool" where
  "protected_path cfg p \<longleftrightarrow> prefix adminPathPrefix p \<or> matchesConfigPath p (aa_ConfigPath cfg)"

definition ui_path :: "string \<Rightarrow> bool" where
  "ui_path p \<longleftrightarrow> path_Clean p = adminUIPrefix \<or> prefix (adminUIPrefix @ ''/'') (path_Clean p)"

definition held_back :: "'g AuthLockoutGuard option \<Rightarrow> instant \<Rightarrow> ClientRequest \<Rightarrow> 'g \<Rightarrow> bool" where
  "held_back lockout t r g \<longleftrightarrow>
    (case lockout of
       Some G \<Rightarrow> ExtractClientIP r False \<noteq> [] \<and> ls_LockedOut (fst (gd_Status G t (ExtractClientIP r False) g))
     | None \<Rightarrow> False)"

lemmas gate_defs = AdminAuthMiddleware_def protected_path_def ui_path_def held_back_def secureEqual_def Let_def

lemma gate_decision:
  "fst (AdminAuthMiddleware cfg al lockout t t' r g) = AdminNext \<longleftrightarrow>
    \<not> protected_path cfg (cr_Path r) \<or>
    aa_Enabled cfg \<and>
      (ui_path (cr_Path r) \<or>
       aa_Token cfg \<noteq> [] \<and> extractAdminToken r = aa_Token cfg \<and> \<not> held_back lockout t r g)"
proof (cases lockout)
  case None
  then show ?thesis by (simp add: gate_defs)
next
  case (Some G)
  then show ?thesis
    by (cases "gd_Status G t (ExtractClientIP r False) g"; cases "ExtractClientIP r False = []")
       (simp_all add: gate_defs split: prod.splits)
qed

section \<open>The port as an interface\<close>

text \<open>What the gate relies on for the key of one client: the port behaves on that key as the per-key
  machine, seen through \<open>view\<close>, whatever it does to the other keys.\<close>

locale lockout_port =
  fixes G :: "'g AuthLockoutGuard" and view :: "'g \<Rightarrow> string \<Rightarrow> Attempts" and inv :: "'g \<Rightarrow> bool"
    and p :: LockoutPolicy
  assumes policy_ok: "lp_Validate p = None"
    and status_locked: "inv g \<Longrightarrow> k \<noteq> [] \<Longrightarrow> ls_LockedOut (fst (gd_Status G t k g)) = fst (fst (at_LockedOut t (view g k)))"
    and status_view: "inv g \<Longrightarrow> k \<noteq> [] \<Longrightarrow> view (snd (gd_Status G t k g)) k = snd (at_LockedOut t (view g k))"
    and status_inv: "inv g \<Longrightarrow> inv (snd (gd_Status G t k g))"
    and failure_tripped: "inv g \<Longrightarrow> k \<noteq> [] \<Longrightarrow> ls_Tripped (fst (gd_RecordFailure G t k g)) = fst (at_RecordFailure t p (view g k))"
    and failure_view: "inv g \<Longrightarrow> k \<noteq> [] \<Longrightarrow> view (snd (gd_RecordFailure G t k g)) k = snd (at_RecordFailure t p (view g k))"
    and failure_inv: "inv g \<Longrightarrow> inv (snd (gd_RecordFailure G t k g))"
    and success_view: "inv g \<Longrightarrow> k \<noteq> [] \<Longrightarrow> view (gd_RecordSuccess G k g) k = at_zero"
    and success_inv: "inv g \<Longrightarrow> inv (gd_RecordSuccess G k g)"

record attempt =
  am_status_time :: instant
  am_failure_time :: instant
  am_request :: ClientRequest

fun gate_run ::
    "AdminAuthConfig \<Rightarrow> bool \<Rightarrow> 'g AuthLockoutGuard option \<Rightarrow> attempt list \<Rightarrow> 'g \<Rightarrow> (admin_response \<times> admin_audit list) list" where
  "gate_run cfg al lockout [] g = []"
| "gate_run cfg al lockout (a # as) g =
    (case AdminAuthMiddleware cfg al lockout (am_status_time a) (am_failure_time a) (am_request a) g of
       (resp, evs, g') \<Rightarrow> (resp, evs) # gate_run cfg al lockout as g')"

text \<open>An attempt of the client \<open>ip\<close> on a gated path, with both clock readings in \<open>[s, e]\<close>.\<close>

definition gated_attempt :: "AdminAuthConfig \<Rightarrow> string \<Rightarrow> instant \<Rightarrow> instant \<Rightarrow> attempt \<Rightarrow> bool" where
  "gated_attempt cfg ip s e a \<longleftrightarrow>
    protected_path cfg (cr_Path (am_request a)) \<and> \<not> ui_path (cr_Path (am_request a)) \<and>
    ExtractClientIP (am_request a) False = ip \<and>
    s \<le> am_status_time a \<and> am_status_time a \<le> e \<and> s \<le> am_failure_time a \<and> am_failure_time a \<le> e"

text \<open>The client's state after \<open>i\<close> failures in \<open>[s, e]\<close>.\<close>

definition streak :: "LockoutPolicy \<Rightarrow> instant \<Rightarrow> instant \<Rightarrow> nat \<Rightarrow> Attempts \<Rightarrow> bool" where
  "streak p s e i a \<longleftrightarrow>
    (if int i < lp_Threshold p
     then at_lockedUntil a = 0 \<and> at_failures a = int i \<and> (0 < i \<longrightarrow> s \<le> at_windowStart a)
     else e < at_lockedUntil a)"

lemma streak_zero: "lp_Validate p = None \<Longrightarrow> streak p s e 0 at_zero"
  by (simp add: streak_def at_zero_def lp_Validate_None)

lemma streak_fail:
  assumes "streak p s e i a" "int i < lp_Threshold p" "s \<le> t" "t \<le> e" "e - s \<le> lp_Window p" "e < s + lp_Cooldown p"
    "lp_Validate p = None"
  shows "at_LockedOut u a = ((False, 0), a)" and "fst (at_RecordFailure t p a) \<longleftrightarrow> int (Suc i) = lp_Threshold p"
    and "streak p s e (Suc i) (snd (at_RecordFailure t p a))"
proof -
  have a: "at_lockedUntil a = 0" "at_failures a = int i" "0 < i \<longrightarrow> s \<le> at_windowStart a"
    using assms(1,2) by (auto simp: streak_def)
  show "at_LockedOut u a = ((False, 0), a)" using a(1) by (simp add: at_LockedOut_def)
  have w: "\<not> lp_Window p < time_sub t (at_windowStart a)" if "0 < i"
    using that a(3) assms(4,5,7) by (auto simp: time_sub_def min_duration_def max_duration_def lp_Validate_None)
  have rec: "at_RecordFailure t p a =
      (let a2 = (if i = 0 then a\<lparr>at_failures := 1, at_windowStart := t\<rparr> else a\<lparr>at_failures := int i + 1\<rparr>) in
       if lp_Threshold p \<le> int i + 1 then (True, a2\<lparr>at_lockedUntil := t + lp_Cooldown p\<rparr>) else (False, a2))"
    using a w by (cases "i = 0") (simp_all add: at_RecordFailure_def at_LockedOut_def Let_def)
  show "fst (at_RecordFailure t p a) \<longleftrightarrow> int (Suc i) = lp_Threshold p"
    using assms(2) by (auto simp: rec Let_def)
  show "streak p s e (Suc i) (snd (at_RecordFailure t p a))"
    using assms a by (auto simp: rec Let_def streak_def)
qed

lemma streak_locked:
  assumes "streak p s e i a" "lp_Threshold p \<le> int i" "t \<le> e" "0 \<le> s" "s \<le> t"
  shows "fst (fst (at_LockedOut t a))" and "snd (at_LockedOut t a) = a"
  using assms by (auto simp: streak_def at_LockedOut_def)

context lockout_port
begin

lemma gate_step_failing:
  assumes "inv g" "streak p s e i (view g ip)" "int i < lp_Threshold p" "gated_attempt cfg ip s e a" "ip \<noteq> []"
    and "e - s \<le> lp_Window p" "e < s + lp_Cooldown p"
    and "aa_Enabled cfg" "aa_Token cfg \<noteq> []" "extractAdminToken (am_request a) \<noteq> aa_Token cfg"
  obtains evs g' where
    "AdminAuthMiddleware cfg al (Some G) (am_status_time a) (am_failure_time a) (am_request a) g = (AdminUnauthorized, evs, g')"
    "inv g'" "streak p s e (Suc i) (view g' ip)"
    "(\<exists>st. AuditLockout ip st \<in> set evs) \<longleftrightarrow> al \<and> int (Suc i) = lp_Threshold p" "length evs = of_bool al"
proof -
  let ?t = "am_status_time a" and ?t' = "am_failure_time a"
  obtain st g1 where g1: "gd_Status G ?t ip g = (st, g1)" by fastforce
  obtain fs g2 where g2: "gd_RecordFailure G ?t' ip g1 = (fs, g2)" by fastforce
  note gt = assms(4) [unfolded gated_attempt_def]
  note sf = streak_fail [OF assms(2,3) _ _ assms(6,7) policy_ok, of ?t']
  have inv1: "inv g1" using status_inv [OF assms(1), of ?t ip] g1 by simp
  have v1: "view g1 ip = view g ip" using status_view [OF assms(1,5), of ?t] sf(1) [of ?t] gt g1 by simp
  have nl: "\<not> ls_LockedOut st" using status_locked [OF assms(1,5), of ?t] sf(1) [of ?t] gt g1 by simp
  have inv2: "inv g2" using failure_inv [OF inv1, of ?t' ip] g2 by simp
  have v2: "streak p s e (Suc i) (view g2 ip)" using failure_view [OF inv1 assms(5), of ?t'] sf(3) gt g2 v1 by simp
  have tr: "ls_Tripped fs \<longleftrightarrow> int (Suc i) = lp_Threshold p"
    using failure_tripped [OF inv1 assms(5), of ?t'] sf(2) gt g2 v1 by simp
  have "AdminAuthMiddleware cfg al (Some G) ?t ?t' (am_request a) g =
      (AdminUnauthorized, (if al then [if ls_Tripped fs then AuditLockout ip fs else AuditAuthFailure ip] else []), g2)"
    using gt assms(5,8,9,10) g1 g2 nl by (auto simp: gate_defs)
  then show thesis by (rule that) (use inv2 v2 tr in auto)
qed

lemma gate_step_locked:
  assumes "inv g" "streak p s e i (view g ip)" "lp_Threshold p \<le> int i" "gated_attempt cfg ip s e a" "ip \<noteq> []" "0 \<le> s"
    and "aa_Enabled cfg" "aa_Token cfg \<noteq> []"
  obtains n g' where
    "AdminAuthMiddleware cfg al (Some G) (am_status_time a) (am_failure_time a) (am_request a) g = (AdminLockedOut n, [], g')"
    "inv g'" "streak p s e i (view g' ip)"
proof -
  let ?t = "am_status_time a"
  obtain st g1 where g1: "gd_Status G ?t ip g = (st, g1)" by fastforce
  note gt = assms(4) [unfolded gated_attempt_def]
  note sl = streak_locked [OF assms(2,3) _ assms(6), of ?t]
  have "inv g1" using status_inv [OF assms(1), of ?t ip] g1 by simp
  moreover have "view g1 ip = view g ip" using status_view [OF assms(1,5), of ?t] sl(2) gt g1 by simp
  moreover have "ls_LockedOut st" using status_locked [OF assms(1,5), of ?t] sl(1) gt g1 by simp
  moreover from this have "AdminAuthMiddleware cfg al (Some G) ?t (am_failure_time a) (am_request a) g =
      (AdminLockedOut (retryAfterSeconds (ls_RetryAfter st)), [], g1)"
    using gt assms(5,7,8) g1 by (auto simp: gate_defs)
  ultimately show thesis using that assms(2) by metis
qed

lemma gate_run_guessing:
  assumes "inv g" "streak p s e i (view g ip)" "ip \<noteq> []" "0 \<le> s" "e - s \<le> lp_Window p" "e < s + lp_Cooldown p"
    and "aa_Enabled cfg" "aa_Token cfg \<noteq> []" "\<forall>a\<in>set as. gated_attempt cfg ip s e a"
    and "\<forall>j<length as. int (i + j) < lp_Threshold p \<longrightarrow> extractAdminToken (am_request (as ! j)) \<noteq> aa_Token cfg"
    and "j < length as"
  shows "(if int (i + j) < lp_Threshold p then fst (gate_run cfg al (Some G) as g ! j) = AdminUnauthorized
      else \<exists>n. gate_run cfg al (Some G) as g ! j = (AdminLockedOut n, [])) \<and>
    ((\<exists>st. AuditLockout ip st \<in> set (snd (gate_run cfg al (Some G) as g ! j))) \<longleftrightarrow> al \<and> int (i + j + 1) = lp_Threshold p)"
  using assms
proof (induction as arbitrary: g i j)
  case (Cons a as)
  have ga: "gated_attempt cfg ip s e a" using Cons.prems(9) by simp
  show ?case
  proof (cases "int i < lp_Threshold p")
    case True
    have wrong: "extractAdminToken (am_request a) \<noteq> aa_Token cfg" using Cons.prems(10) True by force
    obtain evs g' where step: "AdminAuthMiddleware cfg al (Some G) (am_status_time a) (am_failure_time a) (am_request a) g = (AdminUnauthorized, evs, g')"
        and g': "inv g'" "streak p s e (Suc i) (view g' ip)"
        and evs: "(\<exists>st. AuditLockout ip st \<in> set evs) \<longleftrightarrow> al \<and> int (Suc i) = lp_Threshold p"
      by (rule gate_step_failing [OF Cons.prems(1,2) True ga Cons.prems(3,5,6,7,8) wrong])
    show ?thesis
    proof (cases j)
      case 0
      with step True evs show ?thesis by simp
    next
      case (Suc j')
      have "\<forall>j<length as. int (Suc i + j) < lp_Threshold p \<longrightarrow> extractAdminToken (am_request (as ! j)) \<noteq> aa_Token cfg"
        using Cons.prems(10) by auto
      with Cons.IH [OF g' Cons.prems(3-8), of j'] Cons.prems(9,11) Suc step show ?thesis by simp
    qed
  next
    case False
    then have th: "lp_Threshold p \<le> int i" by simp
    obtain n g' where step: "AdminAuthMiddleware cfg al (Some G) (am_status_time a) (am_failure_time a) (am_request a) g = (AdminLockedOut n, [], g')"
        and g': "inv g'" "streak p s e i (view g' ip)"
      by (rule gate_step_locked [OF Cons.prems(1,2) th ga Cons.prems(3,4,7,8)])
    show ?thesis
    proof (cases j)
      case 0
      with step th show ?thesis by simp
    next
      case (Suc j')
      have ih: "\<forall>j<length as. int (i + j) < lp_Threshold p \<longrightarrow> extractAdminToken (am_request (as ! j)) \<noteq> aa_Token cfg"
        using th by simp
      from Cons.IH [OF g' Cons.prems(3-8) _ ih, of j'] Cons.prems(9,11) Suc step th show ?thesis by simp
    qed
  qed
qed simp

end

text \<open>The memory guard provides the port, for each of its policies.\<close>

lemma mg_view_failure:
  assumes "mg_wf g" "k \<noteq> []"
  shows "mg_abs (snd (mg_RecordFailure t k g)) k = snd (at_RecordFailure t (mg_policy g) (mg_abs g k))"
    and "ls_Tripped (fst (mg_RecordFailure t k g)) = fst (at_RecordFailure t (mg_policy g) (mg_abs g k))"
proof -
  have "0 < lp_Cooldown (mg_policy g)" using assms(1) by (simp add: mg_wf_def lp_Validate_None)
  note settle = at_LockedOut_after_failure [OF this, of t]
  show "mg_abs (snd (mg_RecordFailure t k g)) k = snd (at_RecordFailure t (mg_policy g) (mg_abs g k))"
    using assms(2) settle [of "mg_abs g k"]
    by (cases "map_of (mg_entries g) k") (auto simp: mg_RecordFailure_def mg_abs_def Let_def split: prod.splits)
  show "ls_Tripped (fst (mg_RecordFailure t k g)) = fst (at_RecordFailure t (mg_policy g) (mg_abs g k))"
    using assms(2)
    by (cases "map_of (mg_entries g) k") (auto simp: mg_RecordFailure_def mg_abs_def mg_statusOf_def Let_def split: prod.splits)
qed

lemma memory_guard_lockout_port:
  assumes "lp_Validate p = None"
  shows "lockout_port memory_guard_port mg_abs (\<lambda>g. mg_wf g \<and> mg_policy g = p) p"
proof
  fix g k t assume g: "mg_wf g \<and> mg_policy g = p"
  show "mg_wf (snd (gd_Status memory_guard_port t k g)) \<and> mg_policy (snd (gd_Status memory_guard_port t k g)) = p"
    using g mg_wf_Status [of g t k] mg_fields(1) [of "GuardStatus t k" g] by (simp add: memory_guard_port_def)
  show "mg_wf (snd (gd_RecordFailure memory_guard_port t k g)) \<and> mg_policy (snd (gd_RecordFailure memory_guard_port t k g)) = p"
    using g mg_wf_RecordFailure [of g t k] mg_fields(1) [of "GuardFailure t k" g] by (simp add: memory_guard_port_def)
  show "mg_wf (gd_RecordSuccess memory_guard_port k g) \<and> mg_policy (gd_RecordSuccess memory_guard_port k g) = p"
    using g mg_wf_RecordSuccess [of g k] mg_fields(1) [of "GuardSuccess k" g] by (simp add: memory_guard_port_def)
  assume k: "k \<noteq> []"
  show "ls_LockedOut (fst (gd_Status memory_guard_port t k g)) = fst (fst (at_LockedOut t (mg_abs g k)))"
    using mg_Status_abs [OF k, of t g] by (simp add: memory_guard_port_def prod_eq_iff)
  show "mg_abs (snd (gd_Status memory_guard_port t k g)) k = snd (at_LockedOut t (mg_abs g k))"
    using mg_abs_Status [OF k, of t g] by (simp add: memory_guard_port_def)
  show "ls_Tripped (fst (gd_RecordFailure memory_guard_port t k g)) = fst (at_RecordFailure t p (mg_abs g k))"
    and "mg_abs (snd (gd_RecordFailure memory_guard_port t k g)) k = snd (at_RecordFailure t p (mg_abs g k))"
    using mg_view_failure [of g k t] g k by (simp_all add: memory_guard_port_def)
  show "mg_abs (gd_RecordSuccess memory_guard_port k g) k = at_zero"
    using mg_abs_RecordSuccess [OF k, of g] by (simp add: memory_guard_port_def)
qed (rule assms)

interpretation default_port: lockout_port memory_guard_port mg_abs "\<lambda>g. mg_wf g \<and> mg_policy g = DefaultPolicy" DefaultPolicy
  by (rule memory_guard_lockout_port) (simp add: lp_Validate_def DefaultPolicy_def minute_def second_def)

section \<open>Properties\<close>

text \<open>C16: Who gets past the admin gate: a request reaches the next handler exactly when its path is not a
  protected one, or the admin API is enabled and either the cleaned path is in the public UI subtree
  or a token is configured, the request presents exactly that token and the guard does not hold the
  client back. This holds for every guard, clock and state.\<close>

theorem admin_gate:
  "fst (AdminAuthMiddleware cfg al lockout t t' r g) = AdminNext \<longleftrightarrow>
    (if protected_path cfg (cr_Path r) then
       aa_Enabled cfg \<and>
       (if ui_path (cr_Path r) then True
        else aa_Token cfg \<noteq> [] \<and> extractAdminToken r = aa_Token cfg \<and> \<not> held_back lockout t r g)
     else True)"
  using gate_decision [of cfg al lockout t t' r g] by simp



end
