(* ===== verification/GoCrypto.thy ===== *)
theory GoCrypto
  imports GoStrings
begin

unbundle bit_operations_syntax

text \<open>The hash functions of the Go standard library the code uses on byte strings: SHA-256, SHA-1, the
  keyed hash built from them, and their textual forms (hexadecimal and base 64).\<close>

section \<open>Padding and blocks\<close>

definition be_bytes :: "nat \<Rightarrow> nat \<Rightarrow> nat list" where
  "be_bytes k n = map (\<lambda>i. n div 256 ^ (k - 1 - i) mod 256) [0..<k]"

definition md_pad :: "nat list \<Rightarrow> nat list" where
  "md_pad bs = bs @ 128 # replicate ((119 - length bs mod 64) mod 64) 0 @ be_bytes 8 (8 * length bs)"

definition word_at :: "nat list \<Rightarrow> nat \<Rightarrow> 32 word" where
  "word_at bs i =
    (let b = (\<lambda>j. (of_nat (bs ! (4 * i + j)) :: 32 word)) in
     push_bit 24 (b 0) OR push_bit 16 (b 1) OR push_bit 8 (b 2) OR b 3)"

fun blocks :: "nat \<Rightarrow> nat list \<Rightarrow> nat list list" where
  "blocks 0 bs = []"
| "blocks (Suc n) bs = take 64 bs # blocks n (drop 64 bs)"

definition rotr :: "nat \<Rightarrow> 32 word \<Rightarrow> 32 word" where
  "rotr n w = drop_bit n w OR push_bit (32 - n) w"

definition rotl :: "nat \<Rightarrow> 32 word \<Rightarrow> 32 word" where
  "rotl n w = push_bit n w OR drop_bit (32 - n) w"

section \<open>SHA-256\<close>

definition sha256_K :: "32 word list" where
  "sha256_K =
    [1116352408, 1899447441, 3049323471, 3921009573, 961987163, 1508970993, 2453635748, 2870763221,
     3624381080, 310598401, 607225278, 1426881987, 1925078388, 2162078206, 2614888103, 3248222580,
     3835390401, 4022224774, 264347078, 604807628, 770255983, 1249150122, 1555081692, 1996064986,
     2554220882, 2821834349, 2952996808, 3210313671, 3336571891, 3584528711, 113926993, 338241895,
     666307205, 773529912, 1294757372, 1396182291, 1695183700, 1986661051, 2177026350, 2456956037,
     2730485921, 2820302411, 3259730800, 3345764771, 3516065817, 3600352804, 4094571909, 275423344,
     430227734, 506948616, 659060556, 883997877, 958139571, 1322822218, 1537002063, 1747873779,
     1955562222, 2024104815, 2227730452, 2361852424, 2428436474, 2756734187, 3204031479, 3329325298]"

fun sha256_schedule :: "nat \<Rightarrow> 32 word list \<Rightarrow> 32 word list" where
  "sha256_schedule 0 ws = ws"
| "sha256_schedule (Suc n) ws =
    (let i = length ws; w15 = ws ! (i - 15); w2 = ws ! (i - 2);
         s0 = rotr 7 w15 XOR rotr 18 w15 XOR drop_bit 3 w15;
         s1 = rotr 17 w2 XOR rotr 19 w2 XOR drop_bit 10 w2 in
     sha256_schedule n (ws @ [ws ! (i - 16) + s0 + ws ! (i - 7) + s1]))"

fun sha256_round :: "32 word list \<Rightarrow> 32 word \<times> 32 word \<Rightarrow> 32 word list" where
  "sha256_round [a, b, c, d, e, f, g, h] (k, w) =
    (let t1 = h + (rotr 6 e XOR rotr 11 e XOR rotr 25 e) + ((e AND f) XOR (NOT e AND g)) + k + w;
         t2 = (rotr 2 a XOR rotr 13 a XOR rotr 22 a) + ((a AND b) XOR (a AND c) XOR (b AND c)) in
     [t1 + t2, a, b, c, d + t1, e, f, g])"
| "sha256_round st kw = st"

definition sha256_block :: "32 word list \<Rightarrow> nat list \<Rightarrow> 32 word list" where
  "sha256_block st blk =
    (let ws = sha256_schedule 48 (map (word_at blk) [0..<16]) in
     map2 (+) st (foldl sha256_round st (zip sha256_K ws)))"

definition sha256_init :: "32 word list" where
  "sha256_init =
    [1779033703, 3144134277, 1013904242, 2773480762, 1359893119, 2600822924, 528734635, 1541459225]"

definition digest :: "32 word list \<Rightarrow> nat list" where
  "digest st = concat (map (\<lambda>w. be_bytes 4 (unat w)) st)"

definition sha256 :: "nat list \<Rightarrow> nat list" where
  "sha256 bs = digest (foldl sha256_block sha256_init (blocks (length (md_pad bs) div 64) (md_pad bs)))"

section \<open>SHA-1\<close>

fun sha1_schedule :: "nat \<Rightarrow> 32 word list \<Rightarrow> 32 word list" where
  "sha1_schedule 0 ws = ws"
| "sha1_schedule (Suc n) ws =
    (let i = length ws in
     sha1_schedule n (ws @ [rotl 1 (ws ! (i - 3) XOR ws ! (i - 8) XOR ws ! (i - 14) XOR ws ! (i - 16))]))"

fun sha1_round :: "32 word list \<Rightarrow> nat \<times> 32 word \<Rightarrow> 32 word list" where
  "sha1_round [a, b, c, d, e] (i, w) =
    (let (f, k) = (if i < 20 then ((b AND c) OR (NOT b AND d), 0x5a827999)
                   else if i < 40 then (b XOR c XOR d, 0x6ed9eba1)
                   else if i < 60 then ((b AND c) OR (b AND d) OR (c AND d), 0x8f1bbcdc)
                   else (b XOR c XOR d, 0xca62c1d6)) in
     [rotl 5 a + f + e + k + w, a, rotl 30 b, c, d])"
| "sha1_round st iw = st"

definition sha1_block :: "32 word list \<Rightarrow> nat list \<Rightarrow> 32 word list" where
  "sha1_block st blk =
    (let ws = sha1_schedule 64 (map (word_at blk) [0..<16]) in
     map2 (+) st (foldl sha1_round st (zip [0..<80] ws)))"

definition sha1 :: "nat list \<Rightarrow> nat list" where
  "sha1 bs =
    digest (foldl sha1_block [0x67452301, 0xefcdab89, 0x98badcfe, 0x10325476, 0xc3d2e1f0]
              (blocks (length (md_pad bs) div 64) (md_pad bs)))"

section \<open>Keyed hashes and textual forms\<close>

definition hmac :: "(nat list \<Rightarrow> nat list) \<Rightarrow> nat list \<Rightarrow> nat list \<Rightarrow> nat list" where
  "hmac H key msg =
    (let k0 = (if 64 < length key then H key else key);
         k = k0 @ replicate (64 - length k0) 0;
         pad = (\<lambda>c. map (\<lambda>b. unat ((of_nat b :: 8 word) XOR c)) k) in
     H (pad 0x5c @ H (pad 0x36 @ msg)))"

definition bytes_of :: "string \<Rightarrow> nat list" where
  "bytes_of s = map (\<lambda>c. byte_of c) s"

definition hex_char :: "nat \<Rightarrow> char" where
  "hex_char n = (if n < 10 then char_of (48 + n) else char_of (87 + n))"

definition hex_EncodeToString :: "nat list \<Rightarrow> string" where
  "hex_EncodeToString bs = concat (map (\<lambda>b. [hex_char (b div 16), hex_char (b mod 16)]) bs)"

definition base64_char :: "nat \<Rightarrow> char" where
  "base64_char n =
    (if n < 26 then char_of (65 + n) else if n < 52 then char_of (71 + n)
     else if n < 62 then char_of (n - 4) else if n = 62 then CHR ''+'' else CHR ''/'')"

fun base64_EncodeToString :: "nat list \<Rightarrow> string" where
  "base64_EncodeToString [] = []"
| "base64_EncodeToString [a] = [base64_char (a div 4), base64_char (a mod 4 * 16), CHR ''='', CHR ''='']"
| "base64_EncodeToString [a, b] =
    [base64_char (a div 4), base64_char (a mod 4 * 16 + b div 16), base64_char (b mod 16 * 4), CHR ''='']"
| "base64_EncodeToString (a # b # c # bs) =
    [base64_char (a div 4), base64_char (a mod 4 * 16 + b div 16), base64_char (b mod 16 * 4 + c div 64),
     base64_char (c mod 64)] @ base64_EncodeToString bs"

section \<open>Lengths\<close>

lemma hex_EncodeToString_Nil [simp]: "hex_EncodeToString bs = [] \<longleftrightarrow> bs = []"
  by (cases bs) (simp_all add: hex_EncodeToString_def)

lemma length_hex_EncodeToString [simp]: "length (hex_EncodeToString bs) = 2 * length bs"
  by (induction bs) (simp_all add: hex_EncodeToString_def)

lemma length_be_bytes [simp]: "length (be_bytes k n) = k"
  by (simp add: be_bytes_def)

lemma length_sha256_round [simp]: "length (sha256_round st kw) = length st"
  by (cases "(st, kw)" rule: sha256_round.cases) (auto simp: Let_def)

lemma length_foldl_step: "(\<And>s x. length (f s x) = length s) \<Longrightarrow> length (foldl f s xs) = length s"
  by (induction xs arbitrary: s) auto

lemma length_sha256_block [simp]: "length (sha256_block st blk) = length st"
  by (simp add: sha256_block_def Let_def length_foldl_step)

lemma length_digest [simp]: "length (digest st) = 4 * length st"
  by (induction st) (simp_all add: digest_def)

lemma length_sha256 [simp]: "length (sha256 bs) = 32"
  by (simp add: sha256_def length_foldl_step sha256_init_def)

lemma length_sha1_round [simp]: "length (sha1_round st iw) = length st"
  by (cases "(st, iw)" rule: sha1_round.cases) (auto simp: Let_def split: prod.splits)

lemma length_sha1_block [simp]: "length (sha1_block st blk) = length st"
  by (simp add: sha1_block_def Let_def length_foldl_step)

lemma length_sha1 [simp]: "length (sha1 bs) = 20"
  by (simp add: sha1_def length_foldl_step)

lemma length_hmac [simp]: "length (hmac sha256 k m) = 32" "length (hmac sha1 k m) = 20"
  by (simp_all add: hmac_def Let_def)

lemma base64_EncodeToString_Nil [simp]: "base64_EncodeToString bs = [] \<longleftrightarrow> bs = []"
  by (cases bs rule: base64_EncodeToString.cases) simp_all

end
