(* ===== verification/ApiKey.thy ===== *)
theory ApiKey
  imports GoCrypto PathMatch IpFilter
begin

text \<open>API keys: the entity and the scope rules (\<^verbatim>\<open>internal/domain/auth/api_key.go\<close>,
  \<^verbatim>\<open>internal/domain/auth/scope_rule.go\<close>), the validator over configured keys
  (\<^verbatim>\<open>internal/adapters/apikey/config_validator.go\<close>), the middleware
  (\<^verbatim>\<open>internal/middleware/api_key.go\<close>) and its fail-closed handler
  (\<^verbatim>\<open>internal/adapters/caddy/api_key_handler.go\<close>).\<close>

section \<open>Keys\<close>

record APIKey =
  ak_Name :: string
  ak_KeyHash :: string
  ak_Scopes :: "string list"
  ak_Active :: bool

definition HashKey :: "string \<Rightarrow> string" where
  "HashKey plaintextKey = hex_EncodeToString (sha256 (bytes_of plaintextKey))"

definition ak_Matches :: "APIKey \<Rightarrow> string \<Rightarrow> bool" where
  "ak_Matches k plaintextKey \<longleftrightarrow> ak_KeyHash k = HashKey plaintextKey"

definition ak_Validate :: "APIKey \<Rightarrow> string option" where
  "ak_Validate k =
    (if ak_Name k = [] then Some ''api key name cannot be empty''
     else if ak_KeyHash k = [] then Some ''api key hash cannot be empty''
     else None)"

section \<open>Scope rules\<close>

record ScopeRule =
  sr_Path :: string
  sr_Methods :: "string list"
  sr_RequiredScopes :: "string list"

definition sr_Matches :: "ScopeRule \<Rightarrow> string \<Rightarrow> string \<Rightarrow> bool" where
  "sr_Matches r mth requestPath =
    (if path_Match (sr_Path r) requestPath \<noteq> Some True then False
     else if sr_Methods r = [] then True
     else list_ex (\<lambda>m. m = mth) (sr_Methods r))"

definition SatisfiedBy :: "ScopeRule \<Rightarrow> string list \<Rightarrow> bool" where
  "SatisfiedBy r keyScopes = list_all (\<lambda>required. list_ex (\<lambda>held. held = required) keyScopes) (sr_RequiredScopes r)"

fun MatchingScopeRule :: "ScopeRule list \<Rightarrow> string \<Rightarrow> string \<Rightarrow> ScopeRule option" where
  "MatchingScopeRule [] mth requestPath = None"
| "MatchingScopeRule (r # rs) mth requestPath =
    (if sr_Matches r mth requestPath then Some r else MatchingScopeRule rs mth requestPath)"

text \<open>The first offending pattern.\<close>

definition ValidateScopeRules :: "ScopeRule list \<Rightarrow> string option" where
  "ValidateScopeRules rules = map_option sr_Path (find (\<lambda>r. path_Match (sr_Path r) [] = None) rules)"

section \<open>The configured validator\<close>

record APIKeyEntry =
  ke_Name :: string
  ke_Hash :: string
  ke_Scopes :: "string list"

datatype key_config_error = EntryNameEmpty nat | EntryHashEmpty string | EntryInvalid string string

fun NewConfigValidator_loop :: "nat \<Rightarrow> APIKeyEntry list \<Rightarrow> APIKey list \<Rightarrow> key_config_error + APIKey list" where
  "NewConfigValidator_loop i [] ks = Inr ks"
| "NewConfigValidator_loop i (e # es) ks =
    (if ke_Name e = [] then Inl (EntryNameEmpty i)
     else if ke_Hash e = [] then Inl (EntryHashEmpty (ke_Name e))
     else
       let k = \<lparr>ak_Name = ke_Name e, ak_KeyHash = ke_Hash e, ak_Scopes = ke_Scopes e, ak_Active = True\<rparr> in
       case ak_Validate k of
         Some err \<Rightarrow> Inl (EntryInvalid (ke_Name e) err)
       | None \<Rightarrow> NewConfigValidator_loop (Suc i) es (ks @ [k]))"

definition NewConfigValidator :: "APIKeyEntry list \<Rightarrow> key_config_error + APIKey list" where
  "NewConfigValidator entries = NewConfigValidator_loop 0 entries []"

fun cv_Validate :: "APIKey list \<Rightarrow> string \<Rightarrow> APIKey option" where
  "cv_Validate [] plaintextKey = None"
| "cv_Validate (k # ks) plaintextKey =
    (if ak_Matches k plaintextKey then (if ak_Active k then Some k else None) else cv_Validate ks plaintextKey)"

section \<open>The middleware\<close>

record APIKeyConfig =
  kc_Header :: string
  kc_ScopeRules :: "ScopeRule list"

datatype api_key_event =
    APIKeyFailed string
  | APIKeyForbidden string "string list" "string list"
  | APIKeySuccess string "string list"

datatype api_key_response =
    APIKeyNext APIKey | APIKeyRequired | APIKeyInvalid | InsufficientScopes | AuthMisconfigured

text \<open>The validator port is a parameter; the events go to the operational log and, with the client
  address of the connection, to the audit log, when these are configured.\<close>

definition key_events :: "bool \<Rightarrow> bool \<Rightarrow> ClientRequest \<Rightarrow> api_key_event \<Rightarrow> (string option \<times> api_key_event) list" where
  "key_events eventLogger auditLogger r ev =
    (if eventLogger then [(None, ev)] else []) @
    (if auditLogger then [(Some (ExtractClientIP r False), ev)] else [])"

definition APIKeyMiddleware ::
    "(string \<Rightarrow> APIKey option) \<Rightarrow> APIKeyConfig \<Rightarrow> bool \<Rightarrow> bool \<Rightarrow> ClientRequest \<Rightarrow>
     api_key_response \<times> (string option \<times> api_key_event) list" where
  "APIKeyMiddleware validate cfg eventLogger auditLogger r =
    (let header = (if kc_Header cfg = [] then ''X-API-Key'' else kc_Header cfg);
         emit = key_events eventLogger auditLogger r;
         rawKey = hdr_Get (cr_Header r) header in
     if rawKey = [] then (APIKeyRequired, emit (APIKeyFailed ''missing api key''))
     else case validate rawKey of
       None \<Rightarrow> (APIKeyInvalid, emit (APIKeyFailed ''invalid or inactive api key''))
     | Some k \<Rightarrow>
         (case MatchingScopeRule (kc_ScopeRules cfg) (cr_Method r) (cr_Path r) of
            Some rule \<Rightarrow>
              if \<not> SatisfiedBy rule (ak_Scopes k)
              then (InsufficientScopes, emit (APIKeyForbidden (ak_Name k) (ak_Scopes k) (sr_RequiredScopes rule)))
              else (APIKeyNext k, emit (APIKeySuccess (ak_Name k) (ak_Scopes k)))
          | None \<Rightarrow> (APIKeyNext k, emit (APIKeySuccess (ak_Name k) (ak_Scopes k)))))"

text \<open>The handler fails closed when no validator was wired.\<close>

definition akh_ServeHTTP ::
    "(string \<Rightarrow> APIKey option) option \<Rightarrow> APIKeyConfig \<Rightarrow> bool \<Rightarrow> bool \<Rightarrow> ClientRequest \<Rightarrow>
     api_key_response \<times> (string option \<times> api_key_event) list" where
  "akh_ServeHTTP validator cfg eventLogger auditLogger r =
    (case validator of
       None \<Rightarrow> (AuthMisconfigured, [])
     | Some validate \<Rightarrow> APIKeyMiddleware validate cfg eventLogger auditLogger r)"

section \<open>Lemmas\<close>

lemma MatchingScopeRule_find: "MatchingScopeRule rs mth p = find (\<lambda>r. sr_Matches r mth p) rs"
  by (induction rs) auto

lemma SatisfiedBy_subset: "SatisfiedBy r ks \<longleftrightarrow> set (sr_RequiredScopes r) \<subseteq> set ks"
  by (auto simp: SatisfiedBy_def list_all_iff list_ex_iff)

lemma NewConfigValidator_loop_Inr:
  "NewConfigValidator_loop i es ks = Inr ks' \<Longrightarrow>
    ks' = ks @ map (\<lambda>e. \<lparr>ak_Name = ke_Name e, ak_KeyHash = ke_Hash e, ak_Scopes = ke_Scopes e, ak_Active = True\<rparr>) es"
  by (induction i es ks rule: NewConfigValidator_loop.induct) (auto simp: Let_def split: if_splits option.splits)

lemma cv_Validate_find:
  "list_all ak_Active ks \<Longrightarrow> cv_Validate ks key = find (\<lambda>k. ak_KeyHash k = HashKey key) ks"
  by (induction ks) (auto simp: ak_Matches_def)

section \<open>Properties\<close>

text \<open>C19: Who passes the API key handler, over the configured keys: exactly the requests that present a
  key whose hash is configured, such that the first configured entry with that hash holds every scope
  that the first rule matching method and path requires; the key handed on is that entry's. Without a
  validator nothing passes.\<close>

theorem api_key_gate:
  assumes "NewConfigValidator entries = Inr ks"
  shows "(fst (akh_ServeHTTP (Some (cv_Validate ks)) cfg ev au r) = APIKeyNext k \<longleftrightarrow>
      (let key = hdr_Get (cr_Header r) (if kc_Header cfg = [] then ''X-API-Key'' else kc_Header cfg) in
       key \<noteq> [] \<and>
       (\<exists>e. find (\<lambda>e. ke_Hash e = HashKey key) entries = Some e \<and>
          k = \<lparr>ak_Name = ke_Name e, ak_KeyHash = ke_Hash e, ak_Scopes = ke_Scopes e, ak_Active = True\<rparr> \<and>
          (case find (\<lambda>rule. sr_Matches rule (cr_Method r) (cr_Path r)) (kc_ScopeRules cfg) of
             None \<Rightarrow> True | Some rule \<Rightarrow> set (sr_RequiredScopes rule) \<subseteq> set (ke_Scopes e)))))
    \<and> fst (akh_ServeHTTP None cfg ev au r) = AuthMisconfigured"
proof -
  let ?mk = "\<lambda>e. \<lparr>ak_Name = ke_Name e, ak_KeyHash = ke_Hash e, ak_Scopes = ke_Scopes e, ak_Active = True\<rparr>"
  have ks: "ks = map ?mk entries"
    using NewConfigValidator_loop_Inr assms unfolding NewConfigValidator_def by fastforce
  have find_mk: "find P (map ?mk es) = map_option ?mk (find (\<lambda>e. P (?mk e)) es)" for P es by (induction es) auto
  have val: "cv_Validate ks key = map_option ?mk (find (\<lambda>e. ke_Hash e = HashKey key) entries)" for key
    using cv_Validate_find [of ks key] by (simp add: ks list_all_iff find_mk)
  show ?thesis
    by (auto simp: akh_ServeHTTP_def APIKeyMiddleware_def val MatchingScopeRule_find SatisfiedBy_subset Let_def
        split: option.splits)
qed

theorem api_key_gate_witness:
  "let k = \<lparr>ak_Name = ''ci'', ak_KeyHash = HashKey ''s3cret'', ak_Scopes = [''deploy''], ak_Active = True\<rparr>;
       cfg = \<lparr>kc_Header = [], kc_ScopeRules = [\<lparr>sr_Path = ''/deploy'', sr_Methods = [], sr_RequiredScopes = [''deploy'']\<rparr>]\<rparr>;
       r = \<lparr>cr_Method = ''POST'', cr_Path = ''/deploy'', cr_Header = [(''X-Api-Key'', [''s3cret''])], cr_RemoteAddr = ''10.0.0.1:1''\<rparr> in
   fst (akh_ServeHTTP (Some (cv_Validate [k])) cfg True True r) = APIKeyNext k"
proof -
  let ?e = "\<lparr>ke_Name = ''ci'', ke_Hash = HashKey ''s3cret'', ke_Scopes = [''deploy'']\<rparr>"
  let ?k = "\<lparr>ak_Name = ''ci'', ak_KeyHash = HashKey ''s3cret'', ak_Scopes = [''deploy''], ak_Active = True\<rparr>"
  let ?cfg = "\<lparr>kc_Header = [], kc_ScopeRules = [\<lparr>sr_Path = ''/deploy'', sr_Methods = [], sr_RequiredScopes = [''deploy'']\<rparr>]\<rparr>"
  let ?r = "\<lparr>cr_Method = ''POST'', cr_Path = ''/deploy'', cr_Header = [(''X-Api-Key'', [''s3cret''])], cr_RemoteAddr = ''10.0.0.1:1''\<rparr>"
  have "HashKey ''s3cret'' \<noteq> []" using length_sha256 [of "bytes_of ''s3cret''"] by (auto simp: HashKey_def simp del: length_sha256)
  then have new: "NewConfigValidator [?e] = Inr [?k]" by (simp add: NewConfigValidator_def ak_Validate_def)
  have "CanonicalHeaderKey ''X-API-Key'' = ''X-Api-Key''" by code_simp
  then have h: "hdr_Get (cr_Header ?r) ''X-API-Key'' = ''s3cret''" by (simp add: hdr_Get_def hdr_Values_def)
  have "path_Match ''/deploy'' ''/deploy'' = Some True" by (simp add: path_Match_literal)
  with api_key_gate [OF new, of ?cfg True True ?r ?k] h show ?thesis
    unfolding Let_def by (simp add: sr_Matches_def)
qed

end
