(* ===== verification/SecretUri.thy ===== *)
theory SecretUri
  imports AddrRoundTrip
begin

text \<open>Secret references: the value object and the placeholders of
  \<^verbatim>\<open>internal/domain/secret/uri.go\<close>, over byte strings. The two regular expressions are written out
  as the matchers they denote: leftmost, non-overlapping, the inner text up to the first closing brace.\<close>

section \<open>The URI\<close>

definition secretURIPrefix :: string where
  "secretURIPrefix = ''secret://''"

record secret_uri =
  su_path :: string
  su_key :: string

datatype uri_error =
    NotSecretScheme | EmptyAfterScheme | PercentCharacter | EmptySegment | TraversalSegment
  | NoSlash | EmptyPath | EmptyKey

fun check_segments :: "string list \<Rightarrow> uri_error option" where
  "check_segments [] = None"
| "check_segments (seg # segs) =
    (if seg = [] then Some EmptySegment
     else if seg = ''..'' then Some TraversalSegment
     else check_segments segs)"

definition ParseURI :: "string \<Rightarrow> uri_error + secret_uri" where
  "ParseURI raw =
    (if \<not> prefix secretURIPrefix raw then Inl NotSecretScheme
     else
       let body = TrimPrefix secretURIPrefix raw in
       if body = [] then Inl EmptyAfterScheme
       else if CHR ''%'' \<in> set body then Inl PercentCharacter
       else case check_segments (SplitByte CHR ''/'' body) of
         Some e \<Rightarrow> Inl e
       | None \<Rightarrow>
           (case last_index CHR ''/'' body of
              None \<Rightarrow> Inl NoSlash
            | Some idx \<Rightarrow>
                let path = take idx body; key = drop (Suc idx) body in
                if path = [] then Inl EmptyPath
                else if key = [] then Inl EmptyKey
                else Inr \<lparr>su_path = path, su_key = key\<rparr>))"

definition IsURI :: "string \<Rightarrow> bool" where
  "IsURI s \<longleftrightarrow> prefix secretURIPrefix s"

definition URI_String :: "secret_uri \<Rightarrow> string" where
  "URI_String u = secretURIPrefix @ su_path u @ ''/'' @ su_key u"

section \<open>Placeholders\<close>

record Placeholder =
  ph_Raw :: string
  ph_URI :: secret_uri

text \<open>The inner text of a placeholder that starts where the string starts.\<close>

definition placeholder_at :: "string \<Rightarrow> string option" where
  "placeholder_at s =
    (if prefix (''${'' @ secretURIPrefix) s then
       (let inner = takeWhile (\<lambda>c. c \<noteq> CHR ''}'') (drop 2 s) in
        if length secretURIPrefix < length inner \<and> length inner + 2 < length s then Some inner else None)
     else None)"

text \<open>All matches, each with whether a dollar sign stands in front of it.\<close>

function scan_placeholders :: "bool \<Rightarrow> string \<Rightarrow> (bool \<times> string) list" where
  "scan_placeholders dollar [] = []"
| "scan_placeholders dollar (c # cs) =
    (case placeholder_at (c # cs) of
       Some inner \<Rightarrow> (dollar, inner) # scan_placeholders False (drop (length inner + 3) (c # cs))
     | None \<Rightarrow> scan_placeholders (c = CHR ''$'') cs)"
  by pat_completeness auto
termination by (relation "measure (\<lambda>(_, s). length s)") auto

definition FindPlaceholders :: "string \<Rightarrow> Placeholder list" where
  "FindPlaceholders s =
    List.map_filter (\<lambda>(escaped, inner).
      if escaped then None
      else case ParseURI inner of
        Inl _ \<Rightarrow> None
      | Inr uri \<Rightarrow> Some \<lparr>ph_Raw = ''${'' @ inner @ ''}'', ph_URI = uri\<rparr>) (scan_placeholders False s)"

definition ContainsPlaceholder :: "string \<Rightarrow> bool" where
  "ContainsPlaceholder s \<longleftrightarrow> 0 < length (FindPlaceholders s)"

fun ContainsEscapedPlaceholder :: "string \<Rightarrow> bool" where
  "ContainsEscapedPlaceholder [] = False"
| "ContainsEscapedPlaceholder (c # cs) =
    (c = CHR ''$'' \<and> placeholder_at cs \<noteq> None \<or> ContainsEscapedPlaceholder cs)"

function UnescapePlaceholders :: "string \<Rightarrow> string" where
  "UnescapePlaceholders [] = []"
| "UnescapePlaceholders (c # cs) =
    (case (if c = CHR ''$'' then placeholder_at cs else None) of
       Some inner \<Rightarrow> ''${'' @ inner @ ''}'' @ UnescapePlaceholders (drop (length inner + 3) cs)
     | None \<Rightarrow> c # UnescapePlaceholders cs)"
  by pat_completeness auto
termination by (relation "measure length") auto

section \<open>Lemmas\<close>

definition segment_ok :: "string \<Rightarrow> bool" where
  "segment_ok seg \<longleftrightarrow> seg \<noteq> [] \<and> seg \<noteq> ''..'' \<and> CHR ''%'' \<notin> set seg"

text \<open>A well-formed reference: every segment of the path is a proper one, and so is the key, which is
  a single segment.\<close>

definition wf_uri :: "secret_uri \<Rightarrow> bool" where
  "wf_uri u \<longleftrightarrow> list_all segment_ok (SplitByte CHR ''/'' (su_path u)) \<and> segment_ok (su_key u) \<and> CHR ''/'' \<notin> set (su_key u)"

lemma check_segments_None: "check_segments segs = None \<longleftrightarrow> (\<forall>seg\<in>set segs. seg \<noteq> [] \<and> seg \<noteq> ''..'')"
  by (induction segs) auto

lemma SplitByte_append_last: "c \<notin> set t \<Longrightarrow> SplitByte c (s @ c # t) = SplitByte c s @ [t]"
proof (induction s)
  case (Cons x s)
  then show ?case by (cases "SplitByte c s") (auto simp: SplitByte_no_sep)
qed (simp add: SplitByte_no_sep)

lemma SplitByte_member: "d \<noteq> c \<Longrightarrow> d \<in> set s \<longleftrightarrow> (\<exists>p\<in>set (SplitByte c s). d \<in> set p)"
proof (induction s)
  case (Cons x s)
  then show ?case by (cases "SplitByte c s") auto
qed simp

lemma TrimPrefix_append [simp]: "TrimPrefix p (p @ s) = s"
  by (simp add: TrimPrefix_def)

lemma ParseURI_body:
  "ParseURI (secretURIPrefix @ body) = Inr u \<longleftrightarrow> wf_uri u \<and> body = su_path u @ CHR ''/'' # su_key u"
proof
  assume ok: "ParseURI (secretURIPrefix @ body) = Inr u"
  then obtain idx where idx: "last_index CHR ''/'' body = Some idx"
    and segs: "check_segments (SplitByte CHR ''/'' body) = None" and pct: "CHR ''%'' \<notin> set body"
    and u: "u = \<lparr>su_path = take idx body, su_key = drop (Suc idx) body\<rparr>"
    by (auto simp: ParseURI_def Let_def split: if_splits option.splits)
  from last_index_SomeD [OF idx] have body: "body = su_path u @ CHR ''/'' # su_key u" and key: "CHR ''/'' \<notin> set (su_key u)"
    by (auto simp: u)
  have "SplitByte CHR ''/'' body = SplitByte CHR ''/'' (su_path u) @ [su_key u]"
    unfolding body by (rule SplitByte_append_last [OF key])
  with segs pct have "wf_uri u"
    using SplitByte_member [of "CHR ''%''" "CHR ''/''" "su_path u"] key
    by (auto simp: wf_uri_def segment_ok_def check_segments_None list_all_iff body)
  with body show "wf_uri u \<and> body = su_path u @ CHR ''/'' # su_key u" by simp
next
  assume *: "wf_uri u \<and> body = su_path u @ CHR ''/'' # su_key u"
  then have body: "body = su_path u @ CHR ''/'' # su_key u" and key: "CHR ''/'' \<notin> set (su_key u)"
    by (auto simp: wf_uri_def)
  have "CHR ''%'' \<notin> set body"
    using * SplitByte_member [of "CHR ''%''" "CHR ''/''" "su_path u"]
    by (auto simp: wf_uri_def segment_ok_def list_all_iff)
  moreover have "check_segments (SplitByte CHR ''/'' body) = None"
    using * unfolding body SplitByte_append_last [OF key]
    by (auto simp: wf_uri_def segment_ok_def check_segments_None list_all_iff)
  moreover have "last_index CHR ''/'' body = Some (length (su_path u))"
    unfolding body by (rule last_index_append [OF key])
  moreover have "su_path u \<noteq> []" "su_key u \<noteq> []" using * by (auto simp: wf_uri_def segment_ok_def)
  ultimately show "ParseURI (secretURIPrefix @ body) = Inr u" by (simp add: ParseURI_def body)
qed

section \<open>Properties\<close>

text \<open>C20: Parsing and printing secret references are inverse: a text parses to \<open>u\<close> exactly when \<open>u\<close>
  is well formed (no empty, parent or percent-encoded segment, at least one path segment, a key
  without a slash) and the text is the canonical form of \<open>u\<close>.\<close>

theorem secret_uri_roundtrip: "ParseURI raw = Inr u \<longleftrightarrow> wf_uri u \<and> raw = URI_String u"
proof (cases "prefix secretURIPrefix raw")
  case True
  then obtain body where "raw = secretURIPrefix @ body" by (auto simp: prefix_def)
  then show ?thesis using ParseURI_body [of body u] by (simp add: URI_String_def)
next
  case False
  then show ?thesis by (auto simp: ParseURI_def URI_String_def)
qed

end
