(* ===== verification/ConfigSecrets.thy ===== *)
theory ConfigSecrets
  imports SecretUri "HOL-Library.List_Lexorder" "HOL-Library.Char_ord"
begin

text \<open>Resolution of secret references in the configuration (\<^verbatim>\<open>internal/config/resolve_secrets.go\<close>).
  The secret store is a parameter. The values the code walks by reflection are a datatype with one
  constructor per kind the walk distinguishes; the fields of a structure are triples of
  exportedness, name and value.\<close>

section \<open>One string\<close>

type_synonym 'e secret_store = "string \<Rightarrow> 'e + (string, string) gomap"

text \<open>Each error carries the path of the configuration field.\<close>

datatype 'e resolve_error =
    BadURI string uri_error
  | FetchFailed string string string 'e
  | KeyNotFound string string string string "string list"

definition resolveURI :: "'e secret_store \<Rightarrow> string \<Rightarrow> string \<Rightarrow> 'e resolve_error + string" where
  "resolveURI store raw fieldPath =
    (case ParseURI raw of
       Inl e \<Rightarrow> Inl (BadURI fieldPath e)
     | Inr uri \<Rightarrow>
         (case store (su_path uri) of
            Inl e \<Rightarrow> Inl (FetchFailed fieldPath raw (su_path uri) e)
          | Inr data \<Rightarrow>
              (case map_of data (su_key uri) of
                 None \<Rightarrow> Inl (KeyNotFound fieldPath raw (su_key uri) (su_path uri) (sort (map fst data)))
               | Some value \<Rightarrow> Inr value)))"

text \<open>\<^verbatim>\<open>strings.Replace\<close> with a limit of one replacement, for a non-empty pattern.\<close>

fun Replace1 :: "string \<Rightarrow> string \<Rightarrow> string \<Rightarrow> string" where
  "Replace1 [] old new = []"
| "Replace1 (c # cs) old new =
    (if prefix old (c # cs) then new @ drop (length old) (c # cs) else c # Replace1 cs old new)"

fun resolvePlaceholders ::
    "'e secret_store \<Rightarrow> string \<Rightarrow> string \<Rightarrow> Placeholder list \<Rightarrow> 'e resolve_error + string" where
  "resolvePlaceholders store fieldPath result [] = Inr (UnescapePlaceholders result)"
| "resolvePlaceholders store fieldPath result (p # ps) =
    (case resolveURI store (URI_String (ph_URI p)) fieldPath of
       Inl e \<Rightarrow> Inl e
     | Inr resolved \<Rightarrow> resolvePlaceholders store fieldPath (Replace1 result (ph_Raw p) resolved) ps)"

text \<open>The three cases of \<^verbatim>\<open>resolveStringField\<close>; the loop of \<^verbatim>\<open>resolveMap\<close> repeats them for each value.\<close>

definition resolveStringField :: "'e secret_store \<Rightarrow> string \<Rightarrow> string \<Rightarrow> 'e resolve_error + string" where
  "resolveStringField store raw fieldPath =
    (if IsURI raw then resolveURI store raw fieldPath
     else
       let placeholders = FindPlaceholders raw in
       if 0 < length placeholders then resolvePlaceholders store fieldPath raw placeholders
       else if ContainsEscapedPlaceholder raw then Inr (UnescapePlaceholders raw)
       else Inr raw)"

section \<open>The walk over the configuration\<close>

datatype 's config_tree =
    CString 's
  | CStruct "(bool \<times> string \<times> 's config_tree) list"
  | CSlice "'s config_tree list"
  | CMap "((string \<times> 's config_tree) list) option"
  | CPointer "'s config_tree option"
  | COther string

type_synonym config_value = "string config_tree"

text \<open>The walk stops at the first error. Only strings, structures and pointers to structures are
  followed inside a slice, only strings inside a map, and no pointer to anything but a structure.\<close>

fun resolveStruct :: "'e secret_store \<Rightarrow> string \<Rightarrow> (bool \<times> string \<times> config_value) list \<Rightarrow>
      'e resolve_error + (bool \<times> string \<times> config_value) list"
  and resolveField :: "'e secret_store \<Rightarrow> string \<Rightarrow> config_value \<Rightarrow> 'e resolve_error + config_value"
  and resolveSlice :: "'e secret_store \<Rightarrow> string \<Rightarrow> nat \<Rightarrow> config_value list \<Rightarrow> 'e resolve_error + config_value list"
  and resolveElem :: "'e secret_store \<Rightarrow> string \<Rightarrow> config_value \<Rightarrow> 'e resolve_error + config_value"
  and resolveMap :: "'e secret_store \<Rightarrow> string \<Rightarrow> (string \<times> config_value) list \<Rightarrow>
      'e resolve_error + (string \<times> config_value) list"
where
  "resolveStruct store parentPath [] = Inr []"
| "resolveStruct store parentPath ((exported, name, v) # fs) =
    (case (if \<not> exported \<or> parentPath = ''Config'' \<and> name = ''Secrets'' then Inr v
           else resolveField store (parentPath @ ''.'' @ name) v) of
       Inl e \<Rightarrow> Inl e
     | Inr v' \<Rightarrow>
         (case resolveStruct store parentPath fs of
            Inl e \<Rightarrow> Inl e
          | Inr fs' \<Rightarrow> Inr ((exported, name, v') # fs')))"
| "resolveField store fieldPath (CString s) =
    (case resolveStringField store s fieldPath of Inl e \<Rightarrow> Inl e | Inr s' \<Rightarrow> Inr (CString s'))"
| "resolveField store fieldPath (CStruct fs) =
    (case resolveStruct store fieldPath fs of Inl e \<Rightarrow> Inl e | Inr fs' \<Rightarrow> Inr (CStruct fs'))"
| "resolveField store fieldPath (CSlice vs) =
    (case resolveSlice store fieldPath 0 vs of Inl e \<Rightarrow> Inl e | Inr vs' \<Rightarrow> Inr (CSlice vs'))"
| "resolveField store fieldPath (CMap None) = Inr (CMap None)"
| "resolveField store fieldPath (CMap (Some kvs)) =
    (case resolveMap store fieldPath kvs of Inl e \<Rightarrow> Inl e | Inr kvs' \<Rightarrow> Inr (CMap (Some kvs')))"
| "resolveField store fieldPath (CPointer (Some (CStruct fs))) =
    (case resolveStruct store fieldPath fs of Inl e \<Rightarrow> Inl e | Inr fs' \<Rightarrow> Inr (CPointer (Some (CStruct fs'))))"
| "resolveField store fieldPath v = Inr v"
| "resolveSlice store fieldPath i [] = Inr []"
| "resolveSlice store fieldPath i (v # vs) =
    (case resolveElem store (fieldPath @ ''['' @ Itoa i @ '']'') v of
       Inl e \<Rightarrow> Inl e
     | Inr v' \<Rightarrow>
         (case resolveSlice store fieldPath (Suc i) vs of
            Inl e \<Rightarrow> Inl e
          | Inr vs' \<Rightarrow> Inr (v' # vs')))"
| "resolveElem store elemPath (CString s) =
    (case resolveStringField store s elemPath of Inl e \<Rightarrow> Inl e | Inr s' \<Rightarrow> Inr (CString s'))"
| "resolveElem store elemPath (CStruct fs) =
    (case resolveStruct store elemPath fs of Inl e \<Rightarrow> Inl e | Inr fs' \<Rightarrow> Inr (CStruct fs'))"
| "resolveElem store elemPath (CPointer (Some (CStruct fs))) =
    (case resolveStruct store elemPath fs of Inl e \<Rightarrow> Inl e | Inr fs' \<Rightarrow> Inr (CPointer (Some (CStruct fs'))))"
| "resolveElem store elemPath v = Inr v"
| "resolveMap store fieldPath [] = Inr []"
| "resolveMap store fieldPath ((k, v) # kvs) =
    (case (case v of
             CString s \<Rightarrow>
               (case resolveStringField store s (fieldPath @ ''['' @ k @ '']'') of Inl e \<Rightarrow> Inl e | Inr s' \<Rightarrow> Inr (CString s'))
           | _ \<Rightarrow> Inr v) of
       Inl e \<Rightarrow> Inl e
     | Inr v' \<Rightarrow>
         (case resolveMap store fieldPath kvs of
            Inl e \<Rightarrow> Inl e
          | Inr kvs' \<Rightarrow> Inr ((k, v') # kvs')))"

definition ResolveSecrets :: "'e secret_store \<Rightarrow> (bool \<times> string \<times> config_value) list \<Rightarrow>
    'e resolve_error + (bool \<times> string \<times> config_value) list" where
  "ResolveSecrets store cfg = resolveStruct store ''Config'' cfg"

section \<open>Templates\<close>

text \<open>A template as the operator means it: literal text and references.\<close>

datatype piece = Lit string | Ref secret_uri

fun render :: "piece list \<Rightarrow> string" where
  "render [] = []"
| "render (Lit s # ps) = s @ render ps"
| "render (Ref u # ps) = ''${'' @ URI_String u @ ''}'' @ render ps"

fun references :: "piece list \<Rightarrow> secret_uri list" where
  "references [] = []"
| "references (Lit s # ps) = references ps"
| "references (Ref u # ps) = u # references ps"

definition template_ok :: "piece list \<Rightarrow> bool" where
  "template_ok ps \<longleftrightarrow> list_all (\<lambda>p. case p of
      Lit s \<Rightarrow> CHR ''$'' \<notin> set s
    | Ref u \<Rightarrow> wf_uri u \<and> CHR ''}'' \<notin> set (URI_String u)) ps"

text \<open>The meaning of a template: each reference replaced by its value, the first error in order.\<close>

fun resolve_pieces :: "'e secret_store \<Rightarrow> string \<Rightarrow> piece list \<Rightarrow> 'e resolve_error + string" where
  "resolve_pieces store fieldPath [] = Inr []"
| "resolve_pieces store fieldPath (Lit s # ps) = map_sum id (\<lambda>t. s @ t) (resolve_pieces store fieldPath ps)"
| "resolve_pieces store fieldPath (Ref u # ps) =
    (case resolveURI store (URI_String u) fieldPath of
       Inl e \<Rightarrow> Inl e
     | Inr v \<Rightarrow> map_sum id (\<lambda>t. v @ t) (resolve_pieces store fieldPath ps))"

lemma template_ok_simps [simp]:
  "template_ok []"
  "template_ok (Lit s # ps) \<longleftrightarrow> CHR ''$'' \<notin> set s \<and> template_ok ps"
  "template_ok (Ref u # ps) \<longleftrightarrow> wf_uri u \<and> CHR ''}'' \<notin> set (URI_String u) \<and> template_ok ps"
  by (auto simp: template_ok_def)

lemma URI_String_drop: "wf_uri u \<Longrightarrow> length secretURIPrefix < length (URI_String u)"
  by (simp add: URI_String_def)

lemma placeholder_at_ref:
  assumes "wf_uri u" "CHR ''}'' \<notin> set (URI_String u)"
  shows "placeholder_at (CHR ''$'' # CHR ''{'' # URI_String u @ CHR ''}'' # s) = Some (URI_String u)"
proof -
  have "takeWhile (\<lambda>c. c \<noteq> CHR ''}'') (URI_String u @ CHR ''}'' # s) = URI_String u"
    using takeWhile_absent [OF assms(2)] by (simp add: takeWhile_tail)
  then show ?thesis using URI_String_drop [OF assms(1)] by (simp add: placeholder_at_def URI_String_def Let_def)
qed

lemma placeholder_at_other: "c \<noteq> CHR ''$'' \<Longrightarrow> placeholder_at (c # cs) = None"
  by (simp add: placeholder_at_def)

lemma scan_literal: "CHR ''$'' \<notin> set l \<Longrightarrow> scan_placeholders False (l @ s) = scan_placeholders False s"
  by (induction l) (auto simp: placeholder_at_other)

lemma scan_render:
  "template_ok ps \<Longrightarrow> scan_placeholders False (render ps) = map (\<lambda>u. (False, URI_String u)) (references ps)"
proof (induction ps rule: render.induct)
  case (3 u ps)
  then show ?case using placeholder_at_ref [of u "render ps"] by (simp add: numeral_3_eq_3)
qed (simp_all add: scan_literal)

lemma wf_references: "template_ok ps \<Longrightarrow> u \<in> set (references ps) \<Longrightarrow> wf_uri u"
  by (induction ps rule: references.induct) auto

lemma ParseURI_URI_String: "wf_uri u \<Longrightarrow> ParseURI (URI_String u) = Inr u"
  using ParseURI_body [of "su_path u @ CHR ''/'' # su_key u" u] by (simp add: URI_String_def)

lemma FindPlaceholders_render:
  assumes "template_ok ps"
  shows "FindPlaceholders (render ps) =
    map (\<lambda>u. \<lparr>ph_Raw = ''${'' @ URI_String u @ ''}'', ph_URI = u\<rparr>) (references ps)"
proof -
  have "\<forall>u\<in>set us. wf_uri u \<Longrightarrow>
    List.map_filter (\<lambda>(escaped, inner). if escaped then None
      else case ParseURI inner of Inl _ \<Rightarrow> None | Inr uri \<Rightarrow> Some \<lparr>ph_Raw = ''${'' @ inner @ ''}'', ph_URI = uri\<rparr>)
      (map (\<lambda>u. (False, URI_String u)) us) = map (\<lambda>u. \<lparr>ph_Raw = ''${'' @ URI_String u @ ''}'', ph_URI = u\<rparr>) us" for us
    by (induction us) (simp_all add: List.map_filter_simps ParseURI_URI_String)
  then show ?thesis
    using wf_references [OF assms] unfolding FindPlaceholders_def scan_render [OF assms] by blast
qed

lemma Unescape_no_dollar: "CHR ''$'' \<notin> set s \<Longrightarrow> UnescapePlaceholders s = s"
  by (induction s) auto

lemma Escaped_no_dollar: "CHR ''$'' \<notin> set s \<Longrightarrow> \<not> ContainsEscapedPlaceholder s"
  by (induction s) auto

lemma Replace1_first:
  "CHR ''$'' \<notin> set l \<Longrightarrow> Replace1 (l @ CHR ''$'' # x @ s) (CHR ''$'' # x) new = l @ new @ s"
  by (induction l) auto

lemma resolvePlaceholders_render:
  "template_ok ps \<Longrightarrow> CHR ''$'' \<notin> set acc \<Longrightarrow>
   \<forall>u\<in>set (references ps). \<forall>v. resolveURI store (URI_String u) fp = Inr v \<longrightarrow> CHR ''$'' \<notin> set v \<Longrightarrow>
   resolvePlaceholders store fp (acc @ render ps)
     (map (\<lambda>u. \<lparr>ph_Raw = ''${'' @ URI_String u @ ''}'', ph_URI = u\<rparr>) (references ps)) =
   map_sum id (\<lambda>t. acc @ t) (resolve_pieces store fp ps)"
proof (induction ps arbitrary: acc rule: render.induct)
  case (2 s ps)
  then show ?case
    using "2.IH" [of "acc @ s"] by (cases "resolve_pieces store fp ps") auto
next
  case (3 u ps)
  show ?case
  proof (cases "resolveURI store (URI_String u) fp")
    case (Inr v)
    with 3 have "CHR ''$'' \<notin> set (acc @ v)" by auto
    with 3 have IH: "resolvePlaceholders store fp ((acc @ v) @ render ps)
        (map (\<lambda>u. \<lparr>ph_Raw = ''${'' @ URI_String u @ ''}'', ph_URI = u\<rparr>) (references ps)) =
      map_sum id (\<lambda>t. (acc @ v) @ t) (resolve_pieces store fp ps)"
      by (intro "3.IH") simp_all
    have "Replace1 (acc @ CHR ''$'' # CHR ''{'' # URI_String u @ CHR ''}'' # render ps)
        (CHR ''$'' # CHR ''{'' # URI_String u @ ''}'') v = acc @ v @ render ps"
      using Replace1_first [of acc "CHR ''{'' # URI_String u @ ''}''" "render ps" v] "3.prems"(2) by simp
    then show ?thesis using IH Inr by (cases "resolve_pieces store fp ps") simp_all
  qed simp
qed (simp add: Unescape_no_dollar)

lemma render_no_references: "template_ok ps \<Longrightarrow> references ps = [] \<Longrightarrow>
    CHR ''$'' \<notin> set (render ps) \<and> resolve_pieces store fp ps = Inr (render ps)"
  by (induction ps rule: render.induct) auto

text \<open>The strings the walk resolves, in its order, each with the path of its field.\<close>

fun leavesStruct :: "string \<Rightarrow> (bool \<times> string \<times> config_value) list \<Rightarrow> (string \<times> string) list"
  and leavesField :: "string \<Rightarrow> config_value \<Rightarrow> (string \<times> string) list"
  and leavesSlice :: "string \<Rightarrow> nat \<Rightarrow> config_value list \<Rightarrow> (string \<times> string) list"
  and leavesElem :: "string \<Rightarrow> config_value \<Rightarrow> (string \<times> string) list"
  and leavesMap :: "string \<Rightarrow> (string \<times> config_value) list \<Rightarrow> (string \<times> string) list"
where
  "leavesStruct parentPath [] = []"
| "leavesStruct parentPath ((exported, name, v) # fs) =
    (if \<not> exported \<or> parentPath = ''Config'' \<and> name = ''Secrets'' then [] else leavesField (parentPath @ ''.'' @ name) v) @
    leavesStruct parentPath fs"
| "leavesField fieldPath (CString s) = [(fieldPath, s)]"
| "leavesField fieldPath (CStruct fs) = leavesStruct fieldPath fs"
| "leavesField fieldPath (CSlice vs) = leavesSlice fieldPath 0 vs"
| "leavesField fieldPath (CMap None) = []"
| "leavesField fieldPath (CMap (Some kvs)) = leavesMap fieldPath kvs"
| "leavesField fieldPath (CPointer (Some (CStruct fs))) = leavesStruct fieldPath fs"
| "leavesField fieldPath v = []"
| "leavesSlice fieldPath i [] = []"
| "leavesSlice fieldPath i (v # vs) =
    leavesElem (fieldPath @ ''['' @ Itoa i @ '']'') v @ leavesSlice fieldPath (Suc i) vs"
| "leavesElem elemPath (CString s) = [(elemPath, s)]"
| "leavesElem elemPath (CStruct fs) = leavesStruct elemPath fs"
| "leavesElem elemPath (CPointer (Some (CStruct fs))) = leavesStruct elemPath fs"
| "leavesElem elemPath v = []"
| "leavesMap fieldPath [] = []"
| "leavesMap fieldPath ((k, v) # kvs) =
    (case v of CString s \<Rightarrow> [(fieldPath @ ''['' @ k @ '']'', s)] | _ \<Rightarrow> []) @ leavesMap fieldPath kvs"

text \<open>The error of the first leaf that does not resolve, and the tree without its strings.\<close>

fun first_error :: "'e secret_store \<Rightarrow> (string \<times> string) list \<Rightarrow> 'e resolve_error option" where
  "first_error store [] = None"
| "first_error store ((p, s) # ls) =
    (case resolveStringField store s p of Inl e \<Rightarrow> Some e | Inr _ \<Rightarrow> first_error store ls)"

abbreviation shape :: "'s config_tree \<Rightarrow> unit config_tree" where
  "shape \<equiv> map_config_tree (\<lambda>_. ())"

abbreviation resolved :: "'e secret_store \<Rightarrow> (string \<times> string) list \<Rightarrow> (string \<times> string) list \<Rightarrow> bool" where
  "resolved store before after \<equiv>
    map (\<lambda>(p, s). (p, Inr s)) after = map (\<lambda>(p, s). (p, resolveStringField store s p)) before"

lemma first_error_append [simp]:
  "first_error store (xs @ ys) = (case first_error store xs of Some e \<Rightarrow> Some e | None \<Rightarrow> first_error store ys)"
  by (induction xs) (auto split: sum.splits)

lemma walk_error:
  "first_error store (leavesStruct pp fs) = (case resolveStruct store pp fs of Inl e \<Rightarrow> Some e | Inr _ \<Rightarrow> None)"
  "first_error store (leavesField fp v) = (case resolveField store fp v of Inl e \<Rightarrow> Some e | Inr _ \<Rightarrow> None)"
  "first_error store (leavesSlice fp i vs) = (case resolveSlice store fp i vs of Inl e \<Rightarrow> Some e | Inr _ \<Rightarrow> None)"
  "first_error store (leavesElem fp v) = (case resolveElem store fp v of Inl e \<Rightarrow> Some e | Inr _ \<Rightarrow> None)"
  "first_error store (leavesMap fp kvs) = (case resolveMap store fp kvs of Inl e \<Rightarrow> Some e | Inr _ \<Rightarrow> None)"
  by (induction store pp fs and store fp v and store fp i vs and store fp v and store fp kvs
      rule: resolveStruct_resolveField_resolveSlice_resolveElem_resolveMap.induct)
     (auto split: sum.splits config_tree.splits)

lemma walk_resolved:
  "resolveStruct store pp fs = Inr fs' \<Longrightarrow>
    resolved store (leavesStruct pp fs) (leavesStruct pp fs') \<and>
    map (map_prod id (map_prod id shape)) fs' = map (map_prod id (map_prod id shape)) fs"
  "resolveField store fp v = Inr v' \<Longrightarrow> resolved store (leavesField fp v) (leavesField fp v') \<and> shape v' = shape v"
  "resolveSlice store fp i vs = Inr vs' \<Longrightarrow>
    resolved store (leavesSlice fp i vs) (leavesSlice fp i vs') \<and> map shape vs' = map shape vs"
  "resolveElem store fp v = Inr v' \<Longrightarrow> resolved store (leavesElem fp v) (leavesElem fp v') \<and> shape v' = shape v"
  "resolveMap store fp kvs = Inr kvs' \<Longrightarrow>
    resolved store (leavesMap fp kvs) (leavesMap fp kvs') \<and> map (map_prod id shape) kvs' = map (map_prod id shape) kvs"
  by (induction store pp fs and store fp v and store fp i vs and store fp v and store fp kvs
      arbitrary: fs' and v' and vs' and v' and kvs'
      rule: resolveStruct_resolveField_resolveSlice_resolveElem_resolveMap.induct)
     (auto split: sum.splits config_tree.splits if_splits)

section \<open>Properties\<close>



text \<open>Two ways in which the substitution leaves the meaning of the text. An escaped placeholder
  followed by the same placeholder unescaped receives the secret itself, and the real placeholder
  stays unresolved; and a secret whose value contains the text of a later placeholder has that text
  replaced inside it by the other secret, while the later placeholder stays unresolved.\<close>

theorem placeholder_substitution_mixes_up:
  "resolveStringField (\<lambda>_. Inr [(''k'', ''s3cret'')]) ''$${secret://a/k} ${secret://a/k}'' fp = Inr ''$s3cret ${secret://a/k}'' \<and>
   resolveStringField (\<lambda>p. if p = ''a'' then Inr [(''k'', ''x${secret://b/k}'')] else Inr [(''k'', ''s3cret'')])
     ''${secret://a/k} ${secret://b/k}'' fp = Inr ''xs3cret ${secret://b/k}''"
  by (simp add: resolveStringField_def FindPlaceholders_def placeholder_at_def secretURIPrefix_def IsURI_def
      ParseURI_def TrimPrefix_def last_index_def resolveURI_def URI_String_def Let_def List.map_filter_simps)

text \<open>Resolving a configuration visits the strings it documents in order: it fails exactly with the
  error of the first one that does not resolve, and otherwise each of them is replaced by its
  resolution and the structure of the configuration is unchanged.\<close>

theorem config_secrets_resolved:
  "case ResolveSecrets store cfg of
     Inl e \<Rightarrow> first_error store (leavesStruct ''Config'' cfg) = Some e
   | Inr cfg' \<Rightarrow>
       first_error store (leavesStruct ''Config'' cfg) = None \<and>
       resolved store (leavesStruct ''Config'' cfg) (leavesStruct ''Config'' cfg') \<and>
       shape (CStruct cfg') = shape (CStruct cfg)"
  using walk_error(1) [of store "''Config''" cfg] walk_resolved(1) [of store "''Config''" cfg]
  by (auto simp: ResolveSecrets_def map_prod_def split: sum.splits)

end
