(* ===== verification/ExemptPaths.thy ===== *)
theory ExemptPaths
  imports PathMatch
begin

text \<open>The exempt and public path matchers (\<^verbatim>\<open>internal/middleware/exempt_paths.go\<close>,
  \<^verbatim>\<open>internal/middleware/public_paths.go\<close>) and the way the middlewares build them.\<close>

section \<open>Path matchers\<close>

definition exemptVibewardenPrefix :: string where
  "exemptVibewardenPrefix = ''/_vibewarden/*''"

fun invalid_pattern :: "string list \<Rightarrow> string option" where
  "invalid_pattern [] = None"
| "invalid_pattern (p # ps) = (if path_Match p [] = None then Some p else invalid_pattern ps)"

definition NewExemptPathMatcher :: "string list \<Rightarrow> string + string list" where
  "NewExemptPathMatcher patterns =
    (let allp = exemptVibewardenPrefix # patterns in
     case invalid_pattern allp of Some p \<Rightarrow> Inl p | None \<Rightarrow> Inr allp)"

fun path_Matches :: "string list \<Rightarrow> string \<Rightarrow> bool" where
  "path_Matches [] requestPath = False"
| "path_Matches (p # ps) requestPath =
    (case path_Match p requestPath of
       None \<Rightarrow> path_Matches ps requestPath
     | Some matched \<Rightarrow> if matched then True else path_Matches ps requestPath)"

text \<open>The matcher of the public paths is the same code over the same prefix.\<close>

definition NewPublicPathMatcher :: "string list \<Rightarrow> string + string list" where
  "NewPublicPathMatcher patterns =
    (let allp = ''/_vibewarden/*'' # patterns in
     case invalid_pattern allp of Some p \<Rightarrow> Inl p | None \<Rightarrow> Inr allp)"

text \<open>The middlewares fall back to the built-in exemption when a configured pattern is malformed.\<close>

definition exempt_matcher :: "string list \<Rightarrow> string list" where
  "exempt_matcher patterns =
    (case NewExemptPathMatcher patterns of
       Inr m \<Rightarrow> m
     | Inl _ \<Rightarrow> (case NewExemptPathMatcher [] of Inr m \<Rightarrow> m | Inl _ \<Rightarrow> []))"

section \<open>Lemmas\<close>

lemma invalid_pattern_None: "invalid_pattern ps = None \<longleftrightarrow> (\<forall>p\<in>set ps. path_Match p [] \<noteq> None)"
  by (induction ps) auto

lemma path_Matches_iff: "path_Matches ps p \<longleftrightarrow> (\<exists>q\<in>set ps. path_Match q p = Some True)"
  by (induction ps) (auto split: option.splits)

lemma match_vibewarden:
  "path_Match exemptVibewardenPrefix p = Some (prefix ''/_vibewarden/'' p \<and> CHR ''/'' \<notin> set (drop 13 p))"
  using path_Match_literal_star [of "''/_vibewarden/''" p] by (simp add: exemptVibewardenPrefix_def eval_nat_numeral)

text \<open>The paths that are never limited: one segment below the product's own prefix, and what the
  configured patterns match, unless one of them is malformed.\<close>

definition exempt_path :: "string list \<Rightarrow> string \<Rightarrow> bool" where
  "exempt_path patterns p \<longleftrightarrow>
    prefix ''/_vibewarden/'' p \<and> CHR ''/'' \<notin> set (drop 13 p) \<or>
    (\<forall>q\<in>set patterns. path_Match q [] \<noteq> None) \<and> (\<exists>q\<in>set patterns. path_Match q p = Some True)"

lemma exempt_matcher_iff: "path_Matches (exempt_matcher patterns) p \<longleftrightarrow> exempt_path patterns p"
proof (cases "invalid_pattern patterns")
  case None
  then have "exempt_matcher patterns = exemptVibewardenPrefix # patterns"
    using match_vibewarden [of "[]"] by (simp add: exempt_matcher_def NewExemptPathMatcher_def)
  with None match_vibewarden [of p] show ?thesis
    by (auto simp: path_Matches_iff exempt_path_def invalid_pattern_None)
next
  case (Some q)
  then have "exempt_matcher patterns = [exemptVibewardenPrefix]"
    using match_vibewarden [of "[]"] by (simp add: exempt_matcher_def NewExemptPathMatcher_def)
  with Some invalid_pattern_None [of "patterns"] match_vibewarden [of p] show ?thesis
    by (auto simp: path_Matches_iff exempt_path_def)
qed

end
