(* ===== verification/RateLimit.thy ===== *)
theory RateLimit
  imports Complex_Main ExemptPaths AdminAuth
begin

text \<open>Rate limiting: the middleware (\<^verbatim>\<open>internal/middleware/ratelimit.go\<close>), the in-memory store and the fallback store
  (\<^verbatim>\<open>internal/adapters/ratelimit\<close>). A finite floating-point number is the rational it denotes.\<close>

section \<open>The middleware\<close>

record RateLimitRule =
  rr_RequestsPerSecond :: rat
  rr_Burst :: int

record RateLimitResult =
  rl_Allowed :: bool
  rl_Remaining :: int
  rl_RetryAfter :: duration
  rl_Limit :: rat
  rl_Burst :: int

record RateLimitConfig =
  rc_TrustProxyHeaders :: bool
  rc_ExemptPaths :: "string list"

datatype ratelimit_event =
    RateLimitUnidentified string string
  | RateLimitHit string string string rat int int
  | AuditRateLimitHit string string string int

datatype ratelimit_response = LimitNext | LimitForbidden | LimitTooMany int

definition resolveUserID :: "string option \<Rightarrow> ClientRequest \<Rightarrow> string" where
  "resolveUserID ident r = (case ident of Some i \<Rightarrow> i | None \<Rightarrow> hdr_Get (cr_Header r) ''X-User-Id'')"

definition limit_hit :: "bool \<Rightarrow> bool \<Rightarrow> string \<Rightarrow> string \<Rightarrow> string \<Rightarrow> string \<Rightarrow> string \<Rightarrow> RateLimitResult \<Rightarrow> ratelimit_event list" where
  "limit_hit eventLogger auditLogger limitType identifier clientIP auditIP userID result =
    (if eventLogger
     then [RateLimitHit limitType identifier clientIP (rl_Limit result) (rl_Burst result) (retryAfterSeconds (rl_RetryAfter result))]
     else []) @
    (if auditLogger then [AuditRateLimitHit limitType auditIP userID (retryAfterSeconds (rl_RetryAfter result))] else [])"

text \<open>A limiter is its \<^verbatim>\<open>Allow\<close> over its state; \<open>ident\<close> is the identity an earlier handler left in the
  request context.\<close>

type_synonym 's limiter = "string \<Rightarrow> 's \<Rightarrow> RateLimitResult \<times> 's"

definition RateLimitMiddleware ::
    "'i limiter \<Rightarrow> 'u limiter \<Rightarrow> RateLimitConfig \<Rightarrow> bool \<Rightarrow> bool \<Rightarrow> string option \<Rightarrow> ClientRequest \<Rightarrow> 'i \<times> 'u \<Rightarrow>
     ratelimit_response \<times> ratelimit_event list \<times> 'i \<times> 'u" where
  "RateLimitMiddleware ipLimiter userLimiter cfg eventLogger auditLogger ident r st =
    (if path_Matches (exempt_matcher (rc_ExemptPaths cfg)) (cr_Path r) then (LimitNext, [], st)
     else
       let clientIP = ExtractClientIP r (rc_TrustProxyHeaders cfg) in
       if clientIP = [] then
         (LimitForbidden, (if eventLogger then [RateLimitUnidentified (cr_Path r) (cr_Method r)] else []), st)
       else
         case ipLimiter clientIP (fst st) of (ipResult, i) \<Rightarrow>
           if \<not> rl_Allowed ipResult then
             (LimitTooMany (retryAfterSeconds (rl_RetryAfter ipResult)),
              limit_hit eventLogger auditLogger ''ip'' clientIP [] clientIP [] ipResult, (i, snd st))
           else
             let userID = resolveUserID ident r in
             if userID \<noteq> [] then
               (case userLimiter userID (snd st) of (userResult, u) \<Rightarrow>
                  if \<not> rl_Allowed userResult then
                    (LimitTooMany (retryAfterSeconds (rl_RetryAfter userResult)),
                     limit_hit eventLogger auditLogger ''user'' userID clientIP clientIP userID userResult, (i, u))
                  else (LimitNext, [], (i, u)))
             else (LimitNext, [], (i, snd st)))"

section \<open>The in-memory store\<close>

text \<open>The token bucket of \<^verbatim>\<open>golang.org/x/time/rate\<close> is a parameter: its constructor and the operations
  the store calls, each with the clock reading it takes. A reservation is a value of its own.\<close>

record ('l, 'r) rate_lib =
  lib_NewLimiter :: "rat \<Rightarrow> int \<Rightarrow> 'l"
  lib_Reserve :: "instant \<Rightarrow> 'l \<Rightarrow> 'r \<times> 'l"
  lib_Tokens :: "instant \<Rightarrow> 'l \<Rightarrow> rat"
  lib_OK :: "'r \<Rightarrow> bool"
  lib_Delay :: "instant \<Rightarrow> 'r \<Rightarrow> duration"
  lib_Cancel :: "instant \<Rightarrow> 'r \<Rightarrow> 'l \<Rightarrow> 'l"

record 'l limiterEntry =
  le_limiter :: 'l
  le_lastSeen :: instant

record 'l MemoryStore =
  ms_limiters :: "(string, 'l limiterEntry) gomap"
  ms_rule :: RateLimitRule
  ms_entryTTL :: duration

definition NewMemoryStore :: "RateLimitRule \<Rightarrow> duration \<Rightarrow> 'l MemoryStore" where
  "NewMemoryStore rule entryTTL = \<lparr>ms_limiters = [], ms_rule = rule, ms_entryTTL = entryTTL\<rparr>"

definition ms_getOrCreate :: "('l, 'r) rate_lib \<Rightarrow> instant \<Rightarrow> string \<Rightarrow> 'l MemoryStore \<Rightarrow> 'l limiterEntry \<times> 'l MemoryStore" where
  "ms_getOrCreate lib t key s =
    (case map_of (ms_limiters s) key of
       Some e \<Rightarrow> (e, s)
     | None \<Rightarrow>
         (let e = \<lparr>le_limiter = lib_NewLimiter lib (rr_RequestsPerSecond (ms_rule s)) (rr_Burst (ms_rule s)), le_lastSeen = t\<rparr> in
          (e, s\<lparr>ms_limiters := AList.update key e (ms_limiters s)\<rparr>)))"

text \<open>One call reads the clock seven times at most; \<open>ts i\<close> is the \<open>i\<close>-th reading. The limiter is shared
  by reference, so its changed state is written back under the key.\<close>

definition ms_Allow :: "('l, 'r) rate_lib \<Rightarrow> (nat \<Rightarrow> instant) \<Rightarrow> string \<Rightarrow> 'l MemoryStore \<Rightarrow> RateLimitResult \<times> 'l MemoryStore" where
  "ms_Allow lib ts key s =
    (case ms_getOrCreate lib (ts 0) key s of (e, s1) \<Rightarrow>
       case lib_Reserve lib (ts 2) (le_limiter e) of (rsv, l1) \<Rightarrow>
         let tokens = lib_Tokens lib (ts 3) l1;
             remaining = (if 0 \<le> tokens then \<lfloor>tokens\<rfloor> else 0);
             allowed = (lib_OK lib rsv \<and> lib_Delay lib (ts 4) rsv = 0);
             l2 = (if allowed then l1 else lib_Cancel lib (ts 5) rsv l1);
             retryAfter = (if allowed then 0 else max 0 (lib_Delay lib (ts 6) rsv)) in
         (\<lparr>rl_Allowed = allowed, rl_Remaining = (if allowed then remaining else 0), rl_RetryAfter = retryAfter,
           rl_Limit = rr_RequestsPerSecond (ms_rule s), rl_Burst = rr_Burst (ms_rule s)\<rparr>,
          s1\<lparr>ms_limiters := AList.update key \<lparr>le_limiter = l2, le_lastSeen = ts 1\<rparr> (ms_limiters s1)\<rparr>))"

definition ms_evict :: "instant \<Rightarrow> 'l MemoryStore \<Rightarrow> 'l MemoryStore" where
  "ms_evict t s = s\<lparr>ms_limiters := filter (\<lambda>(k, e). \<not> le_lastSeen e < t - ms_entryTTL s) (ms_limiters s)\<rparr>"

section \<open>The fallback store\<close>

record FallbackStore =
  fs_failClosed :: bool
  fs_healthy :: bool

datatype fallback_event = RateLimitStoreFallback string | RateLimitStoreRecovered

definition NewFallbackStore :: "bool \<Rightarrow> FallbackStore" where
  "NewFallbackStore failClosed = \<lparr>fs_failClosed = failClosed, fs_healthy = True\<rparr>"

definition fs_Allow :: "'p limiter \<Rightarrow> 's limiter \<Rightarrow> FallbackStore \<Rightarrow> string \<Rightarrow> 'p \<times> 's \<Rightarrow> RateLimitResult \<times> 'p \<times> 's" where
  "fs_Allow primary secondary fs key st =
    (if fs_healthy fs then (case primary key (fst st) of (res, p) \<Rightarrow> (res, p, snd st))
     else if fs_failClosed fs then
       (\<lparr>rl_Allowed = False, rl_Remaining = 0, rl_RetryAfter = second, rl_Limit = 0, rl_Burst = 0\<rparr>, st)
     else (case secondary key (snd st) of (res, s) \<Rightarrow> (res, fst st, s)))"

text \<open>One probe of the primary store: its error, if any.\<close>

definition fs_check :: "string option \<Rightarrow> FallbackStore \<Rightarrow> FallbackStore \<times> fallback_event list" where
  "fs_check probe fs =
    (case probe of
       Some err \<Rightarrow> if fs_healthy fs then (fs\<lparr>fs_healthy := False\<rparr>, [RateLimitStoreFallback err]) else (fs, [])
     | None \<Rightarrow> if \<not> fs_healthy fs then (fs\<lparr>fs_healthy := True\<rparr>, [RateLimitStoreRecovered]) else (fs, []))"

section \<open>Histories\<close>

datatype ms_step = MSAllow "nat \<Rightarrow> instant" string | MSEvict instant

fun ms_run :: "('l, 'r) rate_lib \<Rightarrow> ms_step list \<Rightarrow> 'l MemoryStore \<Rightarrow> (string \<times> RateLimitResult) list" where
  "ms_run lib [] s = []"
| "ms_run lib (MSAllow ts k # xs) s = (case ms_Allow lib ts k s of (res, s') \<Rightarrow> (k, res) # ms_run lib xs s')"
| "ms_run lib (MSEvict t # xs) s = ms_run lib xs (ms_evict t s)"

fun concerns :: "string \<Rightarrow> ms_step \<Rightarrow> bool" where
  "concerns key (MSAllow ts k) = (k = key)"
| "concerns key (MSEvict t) = True"

text \<open>Two stores that a client of \<open>key\<close> cannot tell apart.\<close>

definition same_bucket :: "string \<Rightarrow> 'l MemoryStore \<Rightarrow> 'l MemoryStore \<Rightarrow> bool" where
  "same_bucket key s s' \<longleftrightarrow>
    map_of (ms_limiters s) key = map_of (ms_limiters s') key \<and> ms_rule s = ms_rule s' \<and> ms_entryTTL s = ms_entryTTL s' \<and>
    gomap_wf (ms_limiters s) \<and> gomap_wf (ms_limiters s')"

lemma same_bucket_Allow:
  "same_bucket key s s' \<Longrightarrow>
    fst (ms_Allow lib ts key s) = fst (ms_Allow lib ts key s') \<and>
    same_bucket key (snd (ms_Allow lib ts key s)) (snd (ms_Allow lib ts key s'))"
  by (auto simp: same_bucket_def ms_Allow_def ms_getOrCreate_def Let_def split: option.splits prod.splits)

lemma same_bucket_Allow_other:
  "same_bucket key s s' \<Longrightarrow> k \<noteq> key \<Longrightarrow> same_bucket key (snd (ms_Allow lib ts k s)) s'"
  by (auto simp: same_bucket_def ms_Allow_def ms_getOrCreate_def Let_def split: option.splits prod.splits)

lemma same_bucket_evict: "same_bucket key s s' \<Longrightarrow> same_bucket key (ms_evict t s) (ms_evict t s')"
  by (auto simp: same_bucket_def ms_evict_def map_of_filter_wf)

lemma ms_run_same_bucket:
  "same_bucket key s s' \<Longrightarrow>
   filter (\<lambda>p. fst p = key) (ms_run lib xs s) = ms_run lib (filter (concerns key) xs) s'"
proof (induction xs arbitrary: s s')
  case (Cons x xs)
  show ?case
  proof (cases x)
    case (MSAllow ts k)
    show ?thesis
    proof (cases "k = key")
      case True
      have "same_bucket key (snd (ms_Allow lib ts key s)) (snd (ms_Allow lib ts key s'))"
        and "fst (ms_Allow lib ts key s) = fst (ms_Allow lib ts key s')"
        using same_bucket_Allow [OF Cons.prems, of lib ts] by auto
      with Cons.IH MSAllow True show ?thesis by (auto split: prod.splits)
    next
      case False
      with Cons.IH [OF same_bucket_Allow_other [OF Cons.prems False, of lib ts]] MSAllow show ?thesis
        by (auto split: prod.splits)
    qed
  next
    case (MSEvict t)
    with Cons.IH [OF same_bucket_evict [OF Cons.prems]] show ?thesis by simp
  qed
qed simp

fun fs_checks :: "string option list \<Rightarrow> FallbackStore \<Rightarrow> FallbackStore \<times> fallback_event list" where
  "fs_checks [] fs = (fs, [])"
| "fs_checks (p # ps) fs =
    (case fs_check p fs of (fs1, es) \<Rightarrow> case fs_checks ps fs1 of (fs2, es') \<Rightarrow> (fs2, es @ es'))"

text \<open>The events of a history of probes: one fallback or recovery for each change of outcome.\<close>

fun outage_events :: "bool \<Rightarrow> string option list \<Rightarrow> fallback_event list" where
  "outage_events up [] = []"
| "outage_events up (None # ps) = (if up then [] else [RateLimitStoreRecovered]) @ outage_events True ps"
| "outage_events up (Some err # ps) = (if up then [RateLimitStoreFallback err] else []) @ outage_events False ps"

lemma fs_checks_eq:
  "fs_checks ps fs = (fs\<lparr>fs_healthy := (if ps = [] then fs_healthy fs else last ps = None)\<rparr>, outage_events (fs_healthy fs) ps)"
proof (induction ps arbitrary: fs)
  case (Cons p ps)
  then show ?case by (cases p) (auto simp: fs_check_def split: if_splits)
qed simp

section \<open>Properties\<close>

text \<open>C22: Which requests the rate limiter lets through, for every pair of limiters: those on an exempt
  path, and those whose client address is known, allowed by the address limiter and, when there is
  a user, allowed by the user limiter. A malformed pattern takes all configured exemptions away, and
  below the product's own prefix only single segments are exempt.\<close>

theorem ratelimit_gate:
  "fst (RateLimitMiddleware ipLimiter userLimiter cfg el al ident r (i, u)) = LimitNext \<longleftrightarrow>
    (if exempt_path (rc_ExemptPaths cfg) (cr_Path r) then True
     else
       let ip = ExtractClientIP r (rc_TrustProxyHeaders cfg); user = resolveUserID ident r in
       ip \<noteq> [] \<and> rl_Allowed (fst (ipLimiter ip i)) \<and>
       (if user = [] then True else rl_Allowed (fst (userLimiter user u))))"
  by (auto simp: RateLimitMiddleware_def exempt_matcher_iff Let_def split: prod.splits)

text \<open>The in-memory store keeps one bucket per key: in any history of calls and sweeps the answers one
  key gets are those it would get alone.\<close>

theorem memory_store_isolates_keys:
  "filter (\<lambda>p. fst p = key) (ms_run lib xs (NewMemoryStore rule ttl)) =
    ms_run lib (filter (concerns key) xs) (NewMemoryStore rule ttl)"
  by (rule ms_run_same_bucket) (simp add: same_bucket_def NewMemoryStore_def)

text \<open>The fallback store after any history of probes: it uses the primary store exactly when the last
  probe succeeded (or there was none), has reported one event for each change, and otherwise denies
  everything in fail-closed mode and asks only the secondary store in the other mode.\<close>

theorem fallback_follows_last_probe:
  "(let (fs, evs) = fs_checks probes (NewFallbackStore failClosed) in
    evs = outage_events True probes \<and>
    (if probes = [] \<or> last probes = None
     then fs_Allow primary secondary fs key (p, s) = (case primary key p of (res, p') \<Rightarrow> (res, p', s))
     else if failClosed then
       \<not> rl_Allowed (fst (fs_Allow primary secondary fs key (p, s))) \<and> snd (fs_Allow primary secondary fs key (p, s)) = (p, s)
     else fs_Allow primary secondary fs key (p, s) = (case secondary key s of (res, s') \<Rightarrow> (res, p, s'))))"
  by (auto simp: fs_checks_eq NewFallbackStore_def fs_Allow_def split: prod.splits)

end
