(* ===== verification/RedisBucket.thy ===== *)
theory RedisBucket
  imports RateLimit
begin

text \<open>The distributed token bucket (\<^verbatim>\<open>internal/adapters/ratelimit/redis_adapter.go\<close>): the script that runs
  in the store, with the bucket of one key as an optional pair of tokens and last refill, and the
  adapter around it. Numbers of the script are the rationals they denote.\<close>

section \<open>The script\<close>

record bucket =
  bk_tokens :: rat
  bk_last_us :: int

definition tokenBucketScript :: "int \<Rightarrow> rat \<Rightarrow> int \<Rightarrow> bucket option \<Rightarrow> (int \<times> int) \<times> bucket" where
  "tokenBucketScript burst rate_us now_us data =
    (let tokens =
           (case data of
              None \<Rightarrow> of_int burst
            | Some b \<Rightarrow>
                let elapsed = (if now_us - bk_last_us b < 0 then 0 else now_us - bk_last_us b);
                    tokens = bk_tokens b + of_int elapsed * rate_us in
                if tokens > of_int burst then of_int burst else tokens);
         allowed = (if tokens \<ge> 1 then 1 else 0 :: int);
         tokens' = (if tokens \<ge> 1 then tokens - 1 else tokens) in
     ((allowed, \<lfloor>tokens'\<rfloor>), \<lparr>bk_tokens = tokens', bk_last_us = now_us\<rparr>))"

section \<open>The adapter\<close>

text \<open>The store is a map from keys to buckets; \<open>err\<close> says that the script could not be run. A rate of
  zero gives the least lifetime, as the conversion of an infinite quotient does.\<close>

definition redis_ttlSecs :: "RateLimitRule \<Rightarrow> int" where
  "redis_ttlSecs rule =
    (let ttl = \<lceil>of_int (rr_Burst rule) / rr_RequestsPerSecond rule\<rceil> * 2 in if ttl < 60 then 60 else ttl)"

definition redis_Allow ::
    "RateLimitRule \<Rightarrow> string \<Rightarrow> bool \<Rightarrow> int \<Rightarrow> string \<Rightarrow> (string \<rightharpoonup> bucket) \<Rightarrow> RateLimitResult \<times> (string \<rightharpoonup> bucket)" where
  "redis_Allow rule keyPrefix err now_us key db =
    (let burst = rr_Burst rule; rps = rr_RequestsPerSecond rule;
         redisKey = keyPrefix @ '':'' @ key in
     if err then
       (\<lparr>rl_Allowed = True, rl_Remaining = burst, rl_RetryAfter = 0, rl_Limit = rps, rl_Burst = burst\<rparr>, db)
     else
       case tokenBucketScript burst (rps / 1000000) now_us (db redisKey) of ((a, remaining), b) \<Rightarrow>
         let allowed = (a = 1);
             retryAfter = (if \<not> allowed \<and> rps > 0 then \<lfloor>of_int second / rps\<rfloor> else 0) in
         (\<lparr>rl_Allowed = allowed, rl_Remaining = remaining, rl_RetryAfter = retryAfter, rl_Limit = rps, rl_Burst = burst\<rparr>,
          db(redisKey \<mapsto> b)))"

section \<open>Histories of one bucket\<close>

fun bucket_run :: "int \<Rightarrow> rat \<Rightarrow> int list \<Rightarrow> bucket option \<Rightarrow> bool list" where
  "bucket_run burst rate [] b = []"
| "bucket_run burst rate (t # ts) b =
    (case tokenBucketScript burst rate t b of ((a, _), b') \<Rightarrow> (a = 1) # bucket_run burst rate ts (Some b'))"

definition allowed_count :: "bool list \<Rightarrow> nat" where
  "allowed_count xs = length (filter id xs)"

lemma allowed_count_simps [simp]:
  "allowed_count [] = 0" "allowed_count (x # xs) = (if x then Suc (allowed_count xs) else allowed_count xs)"
  by (simp_all add: allowed_count_def)

definition level :: "int \<Rightarrow> rat \<Rightarrow> int \<Rightarrow> bucket option \<Rightarrow> rat" where
  "level burst rate t b =
    (case b of None \<Rightarrow> of_int burst
     | Some b \<Rightarrow> min (of_int burst) (bk_tokens b + of_int (max 0 (t - bk_last_us b)) * rate))"

lemma script_level:
  "tokenBucketScript burst rate t b =
    (let l = level burst rate t b in
     if l \<ge> 1 then ((1, \<lfloor>l - 1\<rfloor>), \<lparr>bk_tokens = l - 1, bk_last_us = t\<rparr>)
     else ((0, \<lfloor>l\<rfloor>), \<lparr>bk_tokens = l, bk_last_us = t\<rparr>))"
  by (auto simp: tokenBucketScript_def level_def Let_def max_def min_def split: option.splits)

lemma level_Some: "level burst rate t (Some b) = min (of_int burst) (bk_tokens b + of_int (max 0 (t - bk_last_us b)) * rate)"
  by (simp add: level_def)

text \<open>With a clock that does not run backwards the answers spend at most what the bucket held at the
  first call and what was refilled since.\<close>

lemma bucket_run_bound:
  "0 \<le> rate \<Longrightarrow> 0 \<le> level burst rate t b \<Longrightarrow> sorted (t # ts) \<Longrightarrow>
   of_nat (allowed_count (bucket_run burst rate (t # ts) b)) \<le> level burst rate t b + of_int (last (t # ts) - t) * rate"
proof (induction ts arbitrary: t b)
  case Nil
  then show ?case by (simp add: script_level Let_def)
next
  case (Cons u ts)
  define l where "l = level burst rate t b"
  define b' where "b' = \<lparr>bk_tokens = (if l \<ge> 1 then l - 1 else l), bk_last_us = t\<rparr>"
  have tu: "t \<le> u" and s: "sorted (u # ts)" using Cons.prems(3) by auto
  have up: "level burst rate u (Some b') \<le> bk_tokens b' + of_int (u - t) * rate"
    using tu by (simp add: level_Some b'_def)
  have "l \<le> of_int burst" by (auto simp: l_def level_def split: option.splits)
  moreover have "0 \<le> bk_tokens b'" "bk_tokens b' \<le> l" using Cons.prems(2) by (auto simp: b'_def l_def)
  moreover have "0 \<le> of_int (u - t) * rate" using tu Cons.prems(1) by simp
  ultimately have "0 \<le> level burst rate u (Some b')" using tu by (simp add: level_Some b'_def)
  from Cons.IH [OF Cons.prems(1) this s]
  have "of_nat (allowed_count (bucket_run burst rate (u # ts) (Some b'))) \<le>
      bk_tokens b' + of_int (u - t) * rate + of_int (last (u # ts) - u) * rate" using up by linarith
  also have "\<dots> = bk_tokens b' + of_int (last (u # ts) - t) * rate" by (simp add: algebra_simps)
  finally have IH: "of_nat (allowed_count (bucket_run burst rate (u # ts) (Some b'))) \<le>
      bk_tokens b' + of_int (last (u # ts) - t) * rate" .
  have run: "bucket_run burst rate (t # u # ts) b = (l \<ge> 1) # bucket_run burst rate (u # ts) (Some b')"
    by (subst bucket_run.simps) (simp add: script_level Let_def l_def b'_def del: bucket_run.simps)
  show ?case using IH unfolding run l_def [symmetric] by (auto simp: b'_def simp del: bucket_run.simps split: if_splits)
qed

text \<open>Clocks that disagree by more than the refill time of one token, asked in turn.\<close>

fun alternate :: "nat \<Rightarrow> int \<Rightarrow> int \<Rightarrow> int list" where
  "alternate 0 t u = []"
| "alternate (Suc n) t u = t # u # alternate n t u"

lemma alternate_allowed:
  "2 \<le> burst \<Longrightarrow> u < t \<Longrightarrow> 2 \<le> of_int (t - u) * rate \<Longrightarrow> bk_last_us b = u \<Longrightarrow> 0 \<le> bk_tokens b \<Longrightarrow>
   list_all (\<lambda>a. a) (bucket_run burst rate (alternate n t u) (Some b))"
proof (induction n arbitrary: b)
  case (Suc n)
  define l where "l = level burst rate t (Some b)"
  have l: "2 \<le> l" using Suc.prems by (simp add: l_def level_Some)
  have l': "l \<le> of_int burst" by (simp add: l_def level_Some)
  have m: "level burst rate u (Some \<lparr>bk_tokens = l - 1, bk_last_us = t\<rparr>) = l - 1"
    using Suc.prems(2) l' by (simp add: level_Some)
  have "list_all (\<lambda>a. a) (bucket_run burst rate (alternate n t u) (Some \<lparr>bk_tokens = l - 1 - 1, bk_last_us = u\<rparr>))"
    using Suc.prems l by (intro Suc.IH) simp_all
  then show ?case using l m by (simp add: script_level Let_def l_def [symmetric])
qed simp

lemma level_expired:
  assumes "0 < rr_RequestsPerSecond rule" "0 \<le> bk_tokens b" "redis_ttlSecs rule * 1000000 \<le> t - bk_last_us b"
  shows "level (rr_Burst rule) (rr_RequestsPerSecond rule / 1000000) t (Some b) = of_int (rr_Burst rule)"
proof (cases "rr_Burst rule \<le> 0")
  case True
  have "0 \<le> of_int (max 0 (t - bk_last_us b)) * (rr_RequestsPerSecond rule / 1000000)" using assms(1) by simp
  moreover have "of_int (rr_Burst rule) \<le> (0::rat)" using True by simp
  ultimately show ?thesis using assms(2) unfolding level_Some by linarith
next
  case False
  define r where "r = rr_RequestsPerSecond rule"
  define c where "c = \<lceil>of_int (rr_Burst rule) / r\<rceil>"
  have "of_int (rr_Burst rule) / r \<le> of_int c" unfolding c_def by (rule le_of_int_ceiling)
  moreover have "0 < of_int (rr_Burst rule) / r" using False assms(1) by (simp add: r_def)
  moreover have "c \<le> redis_ttlSecs rule" using \<open>0 < of_int (rr_Burst rule) / r\<close>
    by (simp add: redis_ttlSecs_def r_def [symmetric] c_def [symmetric] Let_def)
  ultimately have "of_int (rr_Burst rule) / r \<le> of_int (redis_ttlSecs rule)" by (meson le_of_int_ceiling of_int_le_iff order_trans)
  then have "of_int (rr_Burst rule) \<le> of_int (redis_ttlSecs rule) * r" using assms(1) by (simp add: r_def pos_divide_le_eq)
  also have "\<dots> = of_int (redis_ttlSecs rule * 1000000) * (r / 1000000)" by simp
  also have "\<dots> \<le> of_int (max 0 (t - bk_last_us b)) * (r / 1000000)"
    using assms(1,3) by (intro mult_right_mono) (simp_all add: r_def)
  finally show ?thesis using assms(2) by (simp add: level_Some r_def)
qed

lemma script_level_nonneg:
  "0 \<le> rate \<Longrightarrow> 0 \<le> burst \<Longrightarrow> (\<forall>b'. b = Some b' \<longrightarrow> 0 \<le> bk_tokens b') \<Longrightarrow> 0 \<le> bk_tokens (snd (tokenBucketScript burst rate t b))"
  by (auto simp: script_level level_def Let_def split: option.splits)

lemma bucket_run_append:
  "0 \<le> rate \<Longrightarrow> 0 \<le> burst \<Longrightarrow> (\<forall>b'. b = Some b' \<longrightarrow> 0 \<le> bk_tokens b') \<Longrightarrow>
   \<exists>c. (\<forall>b'. c = Some b' \<longrightarrow> 0 \<le> bk_tokens b') \<and> drop (length ts) (bucket_run burst rate (ts @ us) b) = bucket_run burst rate us c"
proof (induction ts arbitrary: b)
  case (Cons t ts)
  have "\<forall>b'. Some (snd (tokenBucketScript burst rate t b)) = Some b' \<longrightarrow> 0 \<le> bk_tokens b'"
    using script_level_nonneg [OF Cons.prems, of t] by simp
  from Cons.IH [OF Cons.prems(1,2) this] show ?case by (auto split: prod.splits)
qed auto

section \<open>Properties\<close>



text \<open>The bucket does not survive clocks that disagree: callers whose clocks differ by the refill time
  of two tokens, asking in turn, are all allowed, however many they are, because a reading from the
  past moves the last refill back and the next one refills the same time again.\<close>

theorem redis_bucket_unbounded_under_skew:
  assumes "2 \<le> burst" "u < t" "2 \<le> of_int (t - u) * rate"
  shows "list_all (\<lambda>a. a) (bucket_run burst rate (u # alternate n t u) None)"
proof -
  have "tokenBucketScript burst rate u None = ((1, burst - 1), \<lparr>bk_tokens = of_int burst - 1, bk_last_us = u\<rparr>)"
    using assms(1) by (simp add: script_level level_def Let_def)
  then show ?thesis
    using alternate_allowed [OF assms, of "\<lparr>bk_tokens = of_int burst - 1, bk_last_us = u\<rparr>" n] assms(1) by simp
qed

theorem redis_bucket_unbounded_under_skew_witness:
  "list_all (\<lambda>a. a) (bucket_run 2 (1/100000) (0 # alternate 1000 200000 0) None)"
  using redis_bucket_unbounded_under_skew [of 2 0 200000 "1/100000" 1000] by simp

text \<open>The lifetime of the key is long enough: a bucket the store has dropped was full.\<close>

theorem redis_expiry_unobservable:
  assumes "0 < rr_RequestsPerSecond rule" "0 \<le> bk_tokens b" "redis_ttlSecs rule * 1000000 \<le> t - bk_last_us b"
  shows "tokenBucketScript (rr_Burst rule) (rr_RequestsPerSecond rule / 1000000) t None =
    tokenBucketScript (rr_Burst rule) (rr_RequestsPerSecond rule / 1000000) t (Some b)"
  using level_expired [OF assms] by (simp add: script_level level_def [of _ _ _ None])

end
