(* ===== verification/Health.thy ===== *)
theory Health
  imports Prelude
begin

text \<open>Upstream health: the threshold state machine (\<^verbatim>\<open>internal/domain/health/health.go\<close>), the checker that
  feeds it with probe results (\<^verbatim>\<open>internal/adapters/health/checker.go\<close>), the states and their aggregation
  (\<^verbatim>\<open>internal/domain/upstream/state.go\<close>, \<^verbatim>\<open>internal/domain/healthsummary/aggregate.go\<close>,
  \<^verbatim>\<open>internal/domain/tls/state.go\<close>) and the report of the health endpoint
  (\<^verbatim>\<open>internal/adapters/caddy/health_handler.go\<close>).\<close>

section \<open>The state machine\<close>

datatype UpstreamStatus = StatusUnknown | StatusHealthy | StatusUnhealthy

fun us_String :: "UpstreamStatus \<Rightarrow> string" where
  "us_String StatusHealthy = ''healthy''"
| "us_String StatusUnhealthy = ''unhealthy''"
| "us_String StatusUnknown = ''unknown''"

record HealthConfig =
  hc_Enabled :: bool
  hc_Path :: string
  hc_Interval :: duration
  hc_Timeout :: duration
  hc_UnhealthyThreshold :: int
  hc_HealthyThreshold :: int

datatype health_config_error =
    HealthPathEmpty | HealthIntervalNotPositive | HealthTimeoutNotPositive
  | UnhealthyThresholdNotPositive | HealthyThresholdNotPositive

definition hc_Validate :: "HealthConfig \<Rightarrow> health_config_error option" where
  "hc_Validate c =
    (if \<not> hc_Enabled c then None
     else if hc_Path c = [] then Some HealthPathEmpty
     else if hc_Interval c \<le> 0 then Some HealthIntervalNotPositive
     else if hc_Timeout c \<le> 0 then Some HealthTimeoutNotPositive
     else if hc_UnhealthyThreshold c \<le> 0 then Some UnhealthyThresholdNotPositive
     else if hc_HealthyThreshold c \<le> 0 then Some HealthyThresholdNotPositive
     else None)"

record UpstreamHealth =
  uh_cfg :: HealthConfig
  uh_status :: UpstreamStatus
  uh_successes :: int
  uh_failures :: int
  uh_lastProbed :: instant
  uh_lastError :: string

definition NewUpstreamHealth :: "HealthConfig \<Rightarrow> health_config_error + UpstreamHealth" where
  "NewUpstreamHealth cfg =
    (case hc_Validate cfg of
       Some e \<Rightarrow> Inl e
     | None \<Rightarrow> Inr \<lparr>uh_cfg = cfg, uh_status = StatusUnknown, uh_successes = 0, uh_failures = 0,
                   uh_lastProbed = 0, uh_lastError = []\<rparr>)"

definition uh_RecordSuccess :: "instant \<Rightarrow> UpstreamHealth \<Rightarrow> (UpstreamStatus \<times> bool) \<times> UpstreamHealth" where
  "uh_RecordSuccess now u =
    (let previous = uh_status u;
         u1 = u\<lparr>uh_lastProbed := now, uh_lastError := [], uh_failures := 0, uh_successes := uh_successes u + 1\<rparr> in
     if uh_status u1 \<noteq> StatusHealthy \<and> uh_successes u1 \<ge> hc_HealthyThreshold (uh_cfg u1)
     then ((previous, previous \<noteq> StatusHealthy), u1\<lparr>uh_status := StatusHealthy\<rparr>)
     else ((previous, False), u1))"

definition uh_RecordFailure :: "instant \<Rightarrow> string \<Rightarrow> UpstreamHealth \<Rightarrow> (UpstreamStatus \<times> bool) \<times> UpstreamHealth" where
  "uh_RecordFailure now errMsg u =
    (let previous = uh_status u;
         u1 = u\<lparr>uh_lastProbed := now, uh_lastError := errMsg, uh_successes := 0, uh_failures := uh_failures u + 1\<rparr> in
     if uh_status u1 \<noteq> StatusUnhealthy \<and> uh_failures u1 \<ge> hc_UnhealthyThreshold (uh_cfg u1)
     then ((previous, previous \<noteq> StatusUnhealthy), u1\<lparr>uh_status := StatusUnhealthy\<rparr>)
     else ((previous, False), u1))"

section \<open>The checker\<close>

text \<open>What a probe may find: the request cannot be built, the call fails, or a status code arrives.\<close>

datatype probe_outcome = BuildError string | CallError string | StatusCode int string

text \<open>The text of a status code is part of its outcome, formatted by the standard library.\<close>

datatype health_event = UpstreamHealthChanged string string int string

record HTTPChecker =
  hk_entity :: UpstreamHealth
  hk_eventer :: bool
  hk_metrics :: bool
  hk_events :: "health_event list"
  hk_gauge :: "bool list"

definition hk_announce :: "UpstreamStatus \<times> bool \<Rightarrow> int \<Rightarrow> string \<Rightarrow> HTTPChecker \<Rightarrow> HTTPChecker" where
  "hk_announce pt n err c =
    (if snd pt then
       c\<lparr>hk_events := hk_events c @
            (if hk_eventer c
             then [UpstreamHealthChanged (us_String (fst pt)) (us_String (uh_status (hk_entity c))) n err] else []),
          hk_gauge := hk_gauge c @ (if hk_metrics c then [uh_status (hk_entity c) = StatusHealthy] else [])\<rparr>
     else c)"

definition hk_recordSuccess :: "instant \<Rightarrow> HTTPChecker \<Rightarrow> HTTPChecker" where
  "hk_recordSuccess now c =
    (case uh_RecordSuccess now (hk_entity c) of
       (pt, u) \<Rightarrow> hk_announce pt (uh_successes u) [] (c\<lparr>hk_entity := u\<rparr>))"

definition hk_recordFailure :: "instant \<Rightarrow> string \<Rightarrow> HTTPChecker \<Rightarrow> HTTPChecker" where
  "hk_recordFailure now errMsg c =
    (case uh_RecordFailure now errMsg (hk_entity c) of
       (pt, u) \<Rightarrow> hk_announce pt (uh_failures u) errMsg (c\<lparr>hk_entity := u\<rparr>))"

definition hk_probe :: "instant \<Rightarrow> probe_outcome \<Rightarrow> HTTPChecker \<Rightarrow> HTTPChecker" where
  "hk_probe now out c =
    (case out of
       BuildError e \<Rightarrow> hk_recordFailure now (''building probe request: '' @ e) c
     | CallError e \<Rightarrow> hk_recordFailure now e c
     | StatusCode code shown \<Rightarrow>
         if code \<ge> 200 \<and> code < 300 then hk_recordSuccess now c
         else hk_recordFailure now (''non-2xx status: '' @ shown) c)"

section \<open>States and their aggregation\<close>

datatype upstream_kind = UKindUnknown | UKindOk | UKindDegraded | UKindFailing

record upstream_state =
  up_kind :: upstream_kind
  up_lastError :: string

definition up_Healthy :: "upstream_state \<Rightarrow> bool" where
  "up_Healthy s = (case up_kind s of UKindOk \<Rightarrow> True | UKindDegraded \<Rightarrow> True | _ \<Rightarrow> False)"

definition up_String :: "upstream_state \<Rightarrow> string" where
  "up_String s = (case up_kind s of UKindOk \<Rightarrow> ''ok'' | UKindDegraded \<Rightarrow> ''degraded'' | UKindFailing \<Rightarrow> ''failing'' | UKindUnknown \<Rightarrow> ''unknown'')"

datatype tls_kind =
    TKindUnknown | TKindDisabled | TKindSelfSignedLocal | TKindObtaining | TKindObtained | TKindExpiringSoon | TKindFailing

record tls_state =
  tl_kind :: tls_kind
  tl_expiresAt :: instant
  tl_daysLeft :: int
  tl_lastError :: string

definition tl_NewExpiringSoon :: "int \<Rightarrow> instant \<Rightarrow> tls_state" where
  "tl_NewExpiringSoon daysLeft expiresAt =
    \<lparr>tl_kind = TKindExpiringSoon, tl_expiresAt = expiresAt, tl_daysLeft = (if daysLeft < 0 then 0 else daysLeft), tl_lastError = []\<rparr>"

definition tl_Healthy :: "tls_state \<Rightarrow> bool" where
  "tl_Healthy s = (case tl_kind s of TKindDisabled \<Rightarrow> True | TKindSelfSignedLocal \<Rightarrow> True | TKindObtained \<Rightarrow> True | _ \<Rightarrow> False)"

text \<open>A component is its verdict; \<^const>\<open>None\<close> is the nil interface. The map is any list of its entries.\<close>

datatype summary_status = StatusOK | StatusDegraded

fun AggregateStatus :: "(string, bool option) gomap \<Rightarrow> summary_status" where
  "AggregateStatus [] = StatusOK"
| "AggregateStatus ((_, c) # cs) =
    (if c = None \<or> c = Some False then StatusDegraded else AggregateStatus cs)"

definition mapUpstreamStatus :: "UpstreamStatus \<Rightarrow> string \<Rightarrow> upstream_state" where
  "mapUpstreamStatus s lastError =
    (case s of
       StatusHealthy \<Rightarrow> \<lparr>up_kind = UKindOk, up_lastError = []\<rparr>
     | StatusUnhealthy \<Rightarrow> \<lparr>up_kind = UKindFailing, up_lastError = lastError\<rparr>
     | StatusUnknown \<Rightarrow> \<lparr>up_kind = UKindUnknown, up_lastError = []\<rparr>)"

definition resolveUpstreamState :: "HTTPChecker option \<Rightarrow> upstream_state" where
  "resolveUpstreamState checker =
    (case checker of
       None \<Rightarrow> \<lparr>up_kind = UKindUnknown, up_lastError = []\<rparr>
     | Some c \<Rightarrow> mapUpstreamStatus (uh_status (hk_entity c)) (uh_lastError (hk_entity c)))"

record health_report =
  hr_Status :: summary_status
  hr_Version :: string
  hr_Site :: string
  hr_Components :: "(string \<times> string) list"

definition health_ServeHTTP :: "HTTPChecker option \<Rightarrow> string \<Rightarrow> bool \<Rightarrow> string \<Rightarrow> int \<times> health_report" where
  "health_ServeHTTP checker version suppressVersion siteName =
    (let upstreamState = resolveUpstreamState checker;
         outer = AggregateStatus [(''sidecar'', Some True), (''upstream'', Some (up_Healthy upstreamState))] in
     (200, \<lparr>hr_Status = outer, hr_Version = (if suppressVersion then [] else version), hr_Site = siteName,
            hr_Components = [(''sidecar'', ''ok''), (''upstream'', up_String upstreamState)]\<rparr>))"

section \<open>Histories\<close>

fun hk_run :: "(instant \<times> probe_outcome) list \<Rightarrow> HTTPChecker \<Rightarrow> HTTPChecker" where
  "hk_run [] c = c"
| "hk_run ((now, out) # xs) c = hk_run xs (hk_probe now out c)"

definition succeeded :: "probe_outcome \<Rightarrow> bool" where
  "succeeded out = (case out of StatusCode code _ \<Rightarrow> code \<ge> 200 \<and> code < 300 | _ \<Rightarrow> False)"

text \<open>The verdict on a history, newest probe first: the newest complete streak of probes with the same
  outcome decides, where a streak is complete at its threshold.\<close>

fun verdict :: "nat \<Rightarrow> nat \<Rightarrow> bool list \<Rightarrow> UpstreamStatus" where
  "verdict h u [] = StatusUnknown"
| "verdict h u (x # xs) =
    (if h \<le> length (takeWhile id (x # xs)) then StatusHealthy
     else if u \<le> length (takeWhile Not (x # xs)) then StatusUnhealthy
     else verdict h u xs)"

text \<open>The changes of the verdict along the probes that follow a history.\<close>

fun verdict_changes :: "nat \<Rightarrow> nat \<Rightarrow> bool list \<Rightarrow> bool list \<Rightarrow> (UpstreamStatus \<times> UpstreamStatus) list" where
  "verdict_changes h u past [] = []"
| "verdict_changes h u past (x # xs) =
    (if verdict h u (x # past) \<noteq> verdict h u past then [(verdict h u past, verdict h u (x # past))] else []) @
    verdict_changes h u (x # past) xs"

fun event_change :: "health_event \<Rightarrow> string \<times> string" where
  "event_change (UpstreamHealthChanged previous current n err) = (previous, current)"

lemma takeWhile_neg: "0 < u \<Longrightarrow> u \<le> length (takeWhile Not (x # xs)) \<Longrightarrow> \<not> x"
  by (cases x) auto

text \<open>The state after a history (newest first) of outcomes.\<close>

definition tracks :: "nat \<Rightarrow> nat \<Rightarrow> bool list \<Rightarrow> UpstreamHealth \<Rightarrow> bool" where
  "tracks h u xs s \<longleftrightarrow>
    hc_HealthyThreshold (uh_cfg s) = int h \<and> hc_UnhealthyThreshold (uh_cfg s) = int u \<and> 0 < h \<and> 0 < u \<and>
    uh_successes s = int (length (takeWhile id xs)) \<and> uh_failures s = int (length (takeWhile Not xs)) \<and>
    uh_status s = verdict h u xs"

lemma tracks_success:
  "tracks h u xs s \<Longrightarrow> tracks h u (True # xs) (snd (uh_RecordSuccess now s)) \<and>
    fst (uh_RecordSuccess now s) = (verdict h u xs, verdict h u (True # xs) \<noteq> verdict h u xs)"
  by (auto simp: tracks_def uh_RecordSuccess_def Let_def)

lemma tracks_failure:
  "tracks h u xs s \<Longrightarrow> tracks h u (False # xs) (snd (uh_RecordFailure now e s)) \<and>
    fst (uh_RecordFailure now e s) = (verdict h u xs, verdict h u (False # xs) \<noteq> verdict h u xs)"
  by (auto simp: tracks_def uh_RecordFailure_def Let_def)

lemma probe_step:
  assumes "tracks h u xs (hk_entity c)"
  shows "tracks h u (succeeded out # xs) (hk_entity (hk_probe now out c)) \<and>
    map event_change (hk_events (hk_probe now out c)) = map event_change (hk_events c) @
      (if hk_eventer c \<and> verdict h u (succeeded out # xs) \<noteq> verdict h u xs
       then [(us_String (verdict h u xs), us_String (verdict h u (succeeded out # xs)))] else []) \<and>
    hk_eventer (hk_probe now out c) = hk_eventer c"
proof -
  have ok: "tracks h u (True # xs) (hk_entity (hk_recordSuccess now c)) \<and>
    map event_change (hk_events (hk_recordSuccess now c)) = map event_change (hk_events c) @
      (if hk_eventer c \<and> verdict h u (True # xs) \<noteq> verdict h u xs
       then [(us_String (verdict h u xs), us_String (verdict h u (True # xs)))] else []) \<and>
    hk_eventer (hk_recordSuccess now c) = hk_eventer c"
    using tracks_success [OF assms, of now]
    by (auto simp: hk_recordSuccess_def hk_announce_def tracks_def simp del: verdict.simps split: prod.splits)
  have bad: "tracks h u (False # xs) (hk_entity (hk_recordFailure now e c)) \<and>
    map event_change (hk_events (hk_recordFailure now e c)) = map event_change (hk_events c) @
      (if hk_eventer c \<and> verdict h u (False # xs) \<noteq> verdict h u xs
       then [(us_String (verdict h u xs), us_String (verdict h u (False # xs)))] else []) \<and>
    hk_eventer (hk_recordFailure now e c) = hk_eventer c" for e
    using tracks_failure [OF assms, of now e]
    by (auto simp: hk_recordFailure_def hk_announce_def tracks_def simp del: verdict.simps split: prod.splits)
  show ?thesis
    using ok bad by (auto simp: hk_probe_def succeeded_def simp del: verdict.simps split: probe_outcome.splits)
qed

lemma run_tracks:
  "tracks h u past (hk_entity c) \<Longrightarrow>
   tracks h u (rev (map (succeeded \<circ> snd) xs) @ past) (hk_entity (hk_run xs c)) \<and>
   map event_change (hk_events (hk_run xs c)) = map event_change (hk_events c) @
     (if hk_eventer c then map (map_prod us_String us_String) (verdict_changes h u past (map (succeeded \<circ> snd) xs)) else [])"
proof (induction xs arbitrary: c past)
  case (Cons x xs)
  obtain now out where x: "x = (now, out)" by (cases x)
  from probe_step [OF Cons.prems, of out now]
  have t: "tracks h u (succeeded out # past) (hk_entity (hk_probe now out c))"
    and e: "map event_change (hk_events (hk_probe now out c)) = map event_change (hk_events c) @
      (if hk_eventer c \<and> verdict h u (succeeded out # past) \<noteq> verdict h u past
       then [(us_String (verdict h u past), us_String (verdict h u (succeeded out # past)))] else [])"
    and ev: "hk_eventer (hk_probe now out c) = hk_eventer c" by auto
  from Cons.IH [OF t] e ev show ?case by (simp add: x del: verdict.simps)
qed simp

section \<open>Properties\<close>

text \<open>C24: The health endpoint after any history of probes of an enabled, valid configuration: it answers 200
  and reports ok exactly when the newest complete streak of equal outcomes was one of successes; and
  the checker has emitted one event for each change of that verdict, in order.\<close>

theorem health_report_follows_probes:
  assumes "NewUpstreamHealth cfg = Inr e" "hc_Enabled cfg"
  shows "let c = hk_run probes \<lparr>hk_entity = e, hk_eventer = True, hk_metrics = m, hk_events = [], hk_gauge = []\<rparr>;
             outcomes = map (succeeded \<circ> snd) probes;
             h = nat (hc_HealthyThreshold cfg); u = nat (hc_UnhealthyThreshold cfg) in
    fst (health_ServeHTTP (Some c) version suppress site) = 200 \<and>
    (hr_Status (snd (health_ServeHTTP (Some c) version suppress site)) = StatusOK \<longleftrightarrow> verdict h u (rev outcomes) = StatusHealthy) \<and>
    map event_change (hk_events c) = map (map_prod us_String us_String) (verdict_changes h u [] outcomes)"
proof -
  let ?c = "\<lparr>hk_entity = e, hk_eventer = True, hk_metrics = m, hk_events = [], hk_gauge = []\<rparr>"
  have "tracks (nat (hc_HealthyThreshold cfg)) (nat (hc_UnhealthyThreshold cfg)) [] (hk_entity ?c)"
    using assms by (auto simp: NewUpstreamHealth_def hc_Validate_def tracks_def split: if_splits option.splits)
  from run_tracks [OF this, of probes] show ?thesis
    by (auto simp: health_ServeHTTP_def resolveUpstreamState_def mapUpstreamStatus_def up_Healthy_def tracks_def Let_def
        simp del: verdict.simps split: UpstreamStatus.splits)
qed

theorem health_report_follows_probes_witness:
  "let cfg = \<lparr>hc_Enabled = True, hc_Path = ''/health'', hc_Interval = 1, hc_Timeout = 1, hc_UnhealthyThreshold = 3, hc_HealthyThreshold = 2\<rparr>;
       e = projr (NewUpstreamHealth cfg);
       probes = [(1, StatusCode 200 ''200''), (2, StatusCode 204 ''204''), (3, CallError ''timeout''), (4, StatusCode 503 ''503'')];
       c = hk_run probes \<lparr>hk_entity = e, hk_eventer = True, hk_metrics = True, hk_events = [], hk_gauge = []\<rparr> in
   hr_Status (snd (health_ServeHTTP (Some c) [] True [])) = StatusOK \<and>
   map event_change (hk_events c) = [(''unknown'', ''healthy'')]"
proof -
  let ?cfg = "\<lparr>hc_Enabled = True, hc_Path = ''/health'', hc_Interval = 1, hc_Timeout = 1, hc_UnhealthyThreshold = 3, hc_HealthyThreshold = 2\<rparr>"
  let ?probes = "[(1, StatusCode 200 ''200''), (2, StatusCode 204 ''204''), (3, CallError ''timeout''), (4, StatusCode 503 ''503'')]"
  have "NewUpstreamHealth ?cfg = Inr (projr (NewUpstreamHealth ?cfg))"
    by (simp add: NewUpstreamHealth_def hc_Validate_def)
  from health_report_follows_probes [OF this, of ?probes True "[]" True "[]"] show ?thesis
    unfolding Let_def by (simp add: succeeded_def)
qed

end
