(* ===== verification/Proposals.thy ===== *)
theory Proposals
  imports Prelude
begin

text \<open>The propose and approve workflow: the entity (\<^verbatim>\<open>internal/domain/proposal/proposal.go\<close>), the in-memory
  store (\<^verbatim>\<open>internal/adapters/proposal/store.go\<close>) and the service over any store and applier
  (\<^verbatim>\<open>internal/app/proposal/service.go\<close>).\<close>

section \<open>The entity\<close>

datatype proposal_status = PropPending | PropApproved | PropDismissed | PropExpired

datatype action_type = ActionBlockIP | ActionAdjustRateLimit | ActionUpdateConfig | ActionOther string

record 'p Proposal =
  pr_ID :: string
  pr_Type :: action_type
  pr_Params :: 'p
  pr_Reason :: string
  pr_Diff :: string
  pr_Status :: proposal_status
  pr_CreatedAt :: instant
  pr_ExpiresAt :: instant
  pr_Source :: string

definition DefaultProposalTTL :: duration where
  "DefaultProposalTTL = 60 * minute"

definition pr_IsExpired :: "instant \<Rightarrow> 'p Proposal \<Rightarrow> bool" where
  "pr_IsExpired now p \<longleftrightarrow> now > pr_ExpiresAt p"

section \<open>The in-memory store\<close>

type_synonym 'p proposal_items = "(string, 'p Proposal) gomap"

datatype proposal_error = ErrProposalNotFound | ErrProposalNotPending | ErrStore string

definition expire :: "instant \<Rightarrow> 'p Proposal \<Rightarrow> 'p Proposal" where
  "expire now p = (if pr_Status p = PropPending \<and> pr_IsExpired now p then p\<lparr>pr_Status := PropExpired\<rparr> else p)"

definition ps_Create :: "'p Proposal \<Rightarrow> 'p proposal_items \<Rightarrow> (proposal_error + 'p Proposal) \<times> 'p proposal_items" where
  "ps_Create p items = (Inr p, AList.update (pr_ID p) p items)"

definition ps_expireAll :: "instant \<Rightarrow> 'p proposal_items \<Rightarrow> 'p proposal_items" where
  "ps_expireAll now items = map (\<lambda>(i, p). (i, expire now p)) items"

definition ps_List ::
    "instant \<Rightarrow> proposal_status option \<Rightarrow> 'p proposal_items \<Rightarrow> (proposal_error + 'p Proposal list) \<times> 'p proposal_items" where
  "ps_List now status items =
    (let items' = ps_expireAll now items in
     (Inr (filter (\<lambda>p. status = None \<or> status = Some (pr_Status p)) (map snd items')), items'))"

definition ps_Get :: "instant \<Rightarrow> string \<Rightarrow> 'p proposal_items \<Rightarrow> (proposal_error + 'p Proposal) \<times> 'p proposal_items" where
  "ps_Get now i items =
    (case map_of items i of
       None \<Rightarrow> (Inl ErrProposalNotFound, items)
     | Some p \<Rightarrow> (Inr (expire now p), AList.update i (expire now p) items))"

definition ps_transition ::
    "proposal_status \<Rightarrow> instant \<Rightarrow> string \<Rightarrow> 'p proposal_items \<Rightarrow> (proposal_error + 'p Proposal) \<times> 'p proposal_items" where
  "ps_transition next now i items =
    (case map_of items i of
       None \<Rightarrow> (Inl ErrProposalNotFound, items)
     | Some p0 \<Rightarrow>
         (let p = expire now p0; items1 = AList.update i p items in
          if pr_Status p \<noteq> PropPending then (Inl ErrProposalNotPending, items1)
          else (Inr (p\<lparr>pr_Status := next\<rparr>), AList.update i (p\<lparr>pr_Status := next\<rparr>) items1)))"

definition ps_Approve :: "instant \<Rightarrow> string \<Rightarrow> 'p proposal_items \<Rightarrow> (proposal_error + 'p Proposal) \<times> 'p proposal_items" where
  "ps_Approve = ps_transition PropApproved"

definition ps_Dismiss :: "instant \<Rightarrow> string \<Rightarrow> 'p proposal_items \<Rightarrow> (proposal_error + 'p Proposal) \<times> 'p proposal_items" where
  "ps_Dismiss = ps_transition PropDismissed"

section \<open>The service\<close>

record ('s, 'p) ProposalStore =
  sp_Create :: "'p Proposal \<Rightarrow> 's \<Rightarrow> (proposal_error + 'p Proposal) \<times> 's"
  sp_Get :: "instant \<Rightarrow> string \<Rightarrow> 's \<Rightarrow> (proposal_error + 'p Proposal) \<times> 's"
  sp_List :: "instant \<Rightarrow> proposal_status option \<Rightarrow> 's \<Rightarrow> (proposal_error + 'p Proposal list) \<times> 's"
  sp_Approve :: "instant \<Rightarrow> string \<Rightarrow> 's \<Rightarrow> (proposal_error + 'p Proposal) \<times> 's"
  sp_Dismiss :: "instant \<Rightarrow> string \<Rightarrow> 's \<Rightarrow> (proposal_error + 'p Proposal) \<times> 's"

definition memory_store_port :: "('p proposal_items, 'p) ProposalStore" where
  "memory_store_port =
    \<lparr>sp_Create = ps_Create, sp_Get = ps_Get, sp_List = ps_List, sp_Approve = ps_Approve, sp_Dismiss = ps_Dismiss\<rparr>"

datatype proposal_event =
    ProposalCreated string action_type string string
  | ProposalApproved string action_type
  | ProposalDismissed string action_type

text \<open>The state of the service: its store, the proposals handed to the applier so far, each with the time
  of the approval, and the events. The applier's answer to each call is an argument of the call.\<close>

record ('s, 'p) proposal_service =
  sv_store :: 's
  sv_eventLog :: bool
  sv_applied :: "(instant \<times> 'p Proposal) list"
  sv_events :: "proposal_event list"

datatype 'p service_result = Failed proposal_error | ApplyFailed | Done "'p Proposal"

record 'p CreateParams =
  cp_Type :: action_type
  cp_Params :: 'p
  cp_Reason :: string
  cp_TTL :: duration
  cp_Source :: string

definition sv_emit :: "proposal_event \<Rightarrow> ('s, 'p) proposal_service \<Rightarrow> ('s, 'p) proposal_service" where
  "sv_emit ev s = (if sv_eventLog s then s\<lparr>sv_events := sv_events s @ [ev]\<rparr> else s)"

text \<open>The identifier a new proposal gets is drawn by the caller.\<close>

definition sv_Create ::
    "('s, 'p) ProposalStore \<Rightarrow> instant \<Rightarrow> string \<Rightarrow> 'p CreateParams \<Rightarrow> ('s, 'p) proposal_service \<Rightarrow>
     'p service_result \<times> ('s, 'p) proposal_service" where
  "sv_Create st now uuid p s =
    (let ttl = (if cp_TTL p \<le> 0 then DefaultProposalTTL else cp_TTL p);
         source = (if cp_Source p = [] then ''mcp_agent'' else cp_Source p);
         prop = \<lparr>pr_ID = uuid, pr_Type = cp_Type p, pr_Params = cp_Params p, pr_Reason = cp_Reason p, pr_Diff = [],
                 pr_Status = PropPending, pr_CreatedAt = now, pr_ExpiresAt = now + ttl, pr_Source = source\<rparr> in
     case sp_Create st prop (sv_store s) of (res, store') \<Rightarrow>
       (let s1 = s\<lparr>sv_store := store'\<rparr> in
        case res of
          Inl e \<Rightarrow> (Failed e, s1)
        | Inr created \<Rightarrow>
            (Done created,
             sv_emit (ProposalCreated (pr_ID created) (pr_Type created) (pr_Reason created) (pr_Source created)) s1)))"

definition sv_Get :: "('s, 'p) ProposalStore \<Rightarrow> instant \<Rightarrow> string \<Rightarrow> ('s, 'p) proposal_service \<Rightarrow> 'p service_result \<times> ('s, 'p) proposal_service" where
  "sv_Get st now i s =
    (case sp_Get st now i (sv_store s) of (res, store') \<Rightarrow>
       ((case res of Inl e \<Rightarrow> Failed e | Inr p \<Rightarrow> Done p), s\<lparr>sv_store := store'\<rparr>))"

definition sv_List :: "('s, 'p) ProposalStore \<Rightarrow> instant \<Rightarrow> proposal_status option \<Rightarrow> ('s, 'p) proposal_service \<Rightarrow>
    (proposal_error + 'p Proposal list) \<times> ('s, 'p) proposal_service" where
  "sv_List st now status s = (case sp_List st now status (sv_store s) of (ps, store') \<Rightarrow> (ps, s\<lparr>sv_store := store'\<rparr>))"

definition sv_Approve ::
    "('s, 'p) ProposalStore \<Rightarrow> instant \<Rightarrow> bool \<Rightarrow> string \<Rightarrow> ('s, 'p) proposal_service \<Rightarrow>
     'p service_result \<times> ('s, 'p) proposal_service" where
  "sv_Approve st now applies i s =
    (case sp_Approve st now i (sv_store s) of (res, store') \<Rightarrow>
       (let s1 = s\<lparr>sv_store := store'\<rparr> in
        case res of
          Inl e \<Rightarrow> (Failed e, s1)
        | Inr p \<Rightarrow>
            (let s2 = s1\<lparr>sv_applied := sv_applied s1 @ [(now, p)]\<rparr> in
             if \<not> applies then (ApplyFailed, s2)
             else (Done p, sv_emit (ProposalApproved (pr_ID p) (pr_Type p)) s2))))"

definition sv_Dismiss ::
    "('s, 'p) ProposalStore \<Rightarrow> instant \<Rightarrow> string \<Rightarrow> ('s, 'p) proposal_service \<Rightarrow>
     'p service_result \<times> ('s, 'p) proposal_service" where
  "sv_Dismiss st now i s =
    (case sp_Dismiss st now i (sv_store s) of (res, store') \<Rightarrow>
       (let s1 = s\<lparr>sv_store := store'\<rparr> in
        case res of
          Inl e \<Rightarrow> (Failed e, s1)
        | Inr p \<Rightarrow> (Done p, sv_emit (ProposalDismissed (pr_ID p) (pr_Type p)) s1)))"

section \<open>Histories of calls\<close>

datatype 'p proposal_call =
    CallCreate instant string "'p CreateParams"
  | CallGet instant string
  | CallList instant "proposal_status option"
  | CallApprove instant bool string
  | CallDismiss instant string

fun sv_step :: "('s, 'p) ProposalStore \<Rightarrow> 'p proposal_call \<Rightarrow> ('s, 'p) proposal_service \<Rightarrow> ('s, 'p) proposal_service" where
  "sv_step st (CallCreate now uuid p) s = snd (sv_Create st now uuid p s)"
| "sv_step st (CallGet now i) s = snd (sv_Get st now i s)"
| "sv_step st (CallList now status) s = snd (sv_List st now status s)"
| "sv_step st (CallApprove now applies i) s = snd (sv_Approve st now applies i s)"
| "sv_step st (CallDismiss now i) s = snd (sv_Dismiss st now i s)"

fun sv_run :: "('s, 'p) ProposalStore \<Rightarrow> 'p proposal_call list \<Rightarrow> ('s, 'p) proposal_service \<Rightarrow> ('s, 'p) proposal_service" where
  "sv_run st [] s = s"
| "sv_run st (c # cs) s = sv_run st cs (sv_step st c s)"

fun created_ids :: "'p proposal_call list \<Rightarrow> string list" where
  "created_ids [] = []"
| "created_ids (CallCreate now uuid p # cs) = uuid # created_ids cs"
| "created_ids (_ # cs) = created_ids cs"

section \<open>What the service needs of a store\<close>

text \<open>The contract of the store over an abstraction \<open>view\<close> from identifiers to proposals: reading may
  expire what is due, and approval and dismissal act on pending, unexpired proposals only.\<close>

definition settled :: "instant \<Rightarrow> (string \<Rightarrow> 'p Proposal option) \<Rightarrow> (string \<Rightarrow> 'p Proposal option) \<Rightarrow> bool" where
  "settled now v v' \<longleftrightarrow> (\<forall>k. v' k = v k \<or> v' k = map_option (expire now) (v k))"

definition transitions :: "proposal_status \<Rightarrow> instant \<Rightarrow> string \<Rightarrow> (string \<Rightarrow> 'p Proposal option) \<Rightarrow>
    (proposal_error + 'p Proposal) \<Rightarrow> (string \<Rightarrow> 'p Proposal option) \<Rightarrow> bool" where
  "transitions next now i v res v' \<longleftrightarrow>
    (case v i of
       Some p \<Rightarrow>
         if pr_Status (expire now p) = PropPending
         then res = Inr (p\<lparr>pr_Status := next\<rparr>) \<and> v' = v(i \<mapsto> p\<lparr>pr_Status := next\<rparr>)
         else res = Inl ErrProposalNotPending \<and> settled now v v'
     | None \<Rightarrow> res = Inl ErrProposalNotFound \<and> v' = v)"

text \<open>What holds between calls: every proposal handed to the applier was so once, in time, and stands as
  approved in the store ever since; and the store files proposals under their own identifiers.\<close>

definition applied_ok :: "(string \<Rightarrow> 'p Proposal option) \<Rightarrow> (instant \<times> 'p Proposal) list \<Rightarrow> bool" where
  "applied_ok v app \<longleftrightarrow>
    distinct (map (pr_ID \<circ> snd) app) \<and>
    (\<forall>x\<in>set app. fst x \<le> pr_ExpiresAt (snd x) \<and> pr_Status (snd x) = PropApproved \<and> v (pr_ID (snd x)) = Some (snd x))"

definition filed :: "string set \<Rightarrow> (string \<Rightarrow> 'p Proposal option) \<Rightarrow> bool" where
  "filed used v \<longleftrightarrow> (\<forall>k p. v k = Some p \<longrightarrow> pr_ID p = k \<and> k \<in> used)"

lemma expire_fixed: "pr_Status p \<noteq> PropPending \<Longrightarrow> expire now p = p"
  by (simp add: expire_def)

lemma expire_ID [simp]: "pr_ID (expire now p) = pr_ID p"
  by (simp add: expire_def)

lemma expire_pending: "pr_Status (expire now p) = PropPending \<longleftrightarrow> pr_Status p = PropPending \<and> now \<le> pr_ExpiresAt p"
  by (auto simp: expire_def pr_IsExpired_def)

lemma settled_Some:
  assumes "settled now v v'" "v k = Some p" "pr_Status p \<noteq> PropPending"
  shows "v' k = Some p"
proof -
  have "v' k = v k \<or> v' k = map_option (expire now) (v k)" using assms(1) by (simp add: settled_def)
  with assms(2,3) show ?thesis by (auto simp: expire_fixed)
qed

lemma settled_refl [simp]: "settled now v v"
  by (simp add: settled_def)

lemma filed_settled:
  assumes "filed used v" "settled now v v'"
  shows "filed used v'"
proof -
  have "pr_ID p = k \<and> k \<in> used" if "v' k = Some p" for k p
  proof -
    have "v' k = v k \<or> v' k = map_option (expire now) (v k)" using assms(2) by (simp add: settled_def)
    moreover from this that obtain q where "v k = Some q" "p = q \<or> p = expire now q" by (cases "v k") auto
    ultimately show ?thesis using assms(1) by (auto simp: filed_def)
  qed
  then show ?thesis by (simp add: filed_def)
qed

lemma applied_ok_settled:
  assumes "applied_ok v app" "settled now v v'"
  shows "applied_ok v' app"
proof -
  have "v' (pr_ID (snd x)) = Some (snd x)" if "x \<in> set app" for x
    using assms(1) that by (intro settled_Some [OF assms(2)]) (auto simp: applied_ok_def)
  with assms(1) show ?thesis by (simp add: applied_ok_def)
qed

lemma applied_ok_update:
  "applied_ok v app \<Longrightarrow> i \<notin> (pr_ID \<circ> snd) ` set app \<Longrightarrow> applied_ok (v(i \<mapsto> q)) app"
  by (auto simp: applied_ok_def image_iff)

lemma filed_update: "filed used v \<Longrightarrow> pr_ID q = i \<Longrightarrow> filed (insert i used) (v(i \<mapsto> q))"
  by (simp add: filed_def)

lemma not_applied: "applied_ok v app \<Longrightarrow> v i = None \<or> (\<exists>p. v i = Some p \<and> pr_Status p = PropPending) \<Longrightarrow>
    i \<notin> (pr_ID \<circ> snd) ` set app"
  by (auto simp: applied_ok_def)

lemma transitions_cases:
  assumes "transitions next now i v res v'"
  obtains e where "res = Inl e" "settled now v v'"
  | p where "res = Inr (p\<lparr>pr_Status := next\<rparr>)" "v i = Some p" "pr_Status p = PropPending" "now \<le> pr_ExpiresAt p"
      "v' = v(i \<mapsto> p\<lparr>pr_Status := next\<rparr>)"
  using assms by (auto simp: transitions_def expire_pending split: option.splits if_splits)

locale proposal_store =
  fixes st :: "('s, 'p) ProposalStore" and view :: "'s \<Rightarrow> string \<Rightarrow> 'p Proposal option"
  assumes create: "sp_Create st p s = (Inr q, s') \<Longrightarrow> q = p \<and> view s' = (view s)(pr_ID p \<mapsto> p)"
    and create_failed: "sp_Create st p s = (Inl e, s') \<Longrightarrow> view s' = view s"
    and get: "settled now (view s) (view (snd (sp_Get st now i s)))"
    and list: "settled now (view s) (view (snd (sp_List st now status s)))"
    and approve: "transitions PropApproved now i (view s) (fst (sp_Approve st now i s)) (view (snd (sp_Approve st now i s)))"
    and dismiss: "transitions PropDismissed now i (view s) (fst (sp_Dismiss st now i s)) (view (snd (sp_Dismiss st now i s)))"
begin

definition service_ok :: "string set \<Rightarrow> ('s, 'p) proposal_service \<Rightarrow> bool" where
  "service_ok used s \<longleftrightarrow> applied_ok (view (sv_store s)) (sv_applied s) \<and> filed used (view (sv_store s))"

lemma service_ok_settled:
  "service_ok used s \<Longrightarrow> settled now (view (sv_store s)) (view store') \<Longrightarrow> service_ok used (s\<lparr>sv_store := store'\<rparr>)"
  using applied_ok_settled filed_settled by (fastforce simp: service_ok_def)

lemma service_ok_emit [simp]: "service_ok used (sv_emit ev s) = service_ok used s"
  by (simp add: service_ok_def sv_emit_def)

lemma service_ok_create:
  assumes "service_ok used s" "uuid \<notin> used"
  shows "service_ok (insert uuid used) (snd (sv_Create st now uuid p s))"
proof -
  have "view (sv_store s) uuid = None" using assms by (cases "view (sv_store s) uuid") (auto simp: service_ok_def filed_def)
  then have new: "service_ok (insert uuid used) (s\<lparr>sv_store := s'\<rparr>)"
    if "view s' = (view (sv_store s))(uuid \<mapsto> q)" "pr_ID q = uuid" for s' q
    using that assms(1) not_applied [of "view (sv_store s)" "sv_applied s" uuid]
    by (simp add: service_ok_def applied_ok_update filed_update)
  have old: "service_ok (insert uuid used) (s\<lparr>sv_store := s'\<rparr>)" if "view s' = view (sv_store s)" for s'
    using that assms(1) by (auto simp: service_ok_def filed_def)
  show ?thesis
    unfolding sv_Create_def Let_def
    by (auto split: prod.splits sum.splits dest!: create create_failed intro: new old)
qed

lemma service_ok_approve:
  assumes "service_ok used s"
  shows "service_ok used (snd (sv_Approve st now applies i s))"
proof -
  obtain res store' where r: "sp_Approve st now i (sv_store s) = (res, store')" by fastforce
  have "transitions PropApproved now i (view (sv_store s)) res (view store')" using approve [of now i "sv_store s"] r by simp
  then show ?thesis
  proof (cases rule: transitions_cases)
    case (1 e)
    with service_ok_settled [OF assms 1(2)] r show ?thesis by (simp add: sv_Approve_def)
  next
    case (2 p)
    let ?q = "p\<lparr>pr_Status := PropApproved\<rparr>"
    have i: "pr_ID p = i" "i \<in> used" using assms 2 by (auto simp: service_ok_def filed_def)
    have "i \<notin> (pr_ID \<circ> snd) ` set (sv_applied s)"
      using assms 2 not_applied [of "view (sv_store s)" "sv_applied s" i] by (simp add: service_ok_def)
    then have "applied_ok (view store') (sv_applied s @ [(now, ?q)])"
      using assms 2 i applied_ok_update [of "view (sv_store s)" "sv_applied s" i ?q]
      by (auto simp: service_ok_def applied_ok_def)
    moreover have "filed used (view store')"
      using assms 2 i filed_update [of used "view (sv_store s)" ?q i] by (simp add: service_ok_def insert_absorb)
    ultimately show ?thesis using 2 r by (simp add: sv_Approve_def Let_def service_ok_def sv_emit_def)
  qed
qed

lemma service_ok_dismiss:
  assumes "service_ok used s"
  shows "service_ok used (snd (sv_Dismiss st now i s))"
proof -
  obtain res store' where r: "sp_Dismiss st now i (sv_store s) = (res, store')" by fastforce
  have "transitions PropDismissed now i (view (sv_store s)) res (view store')" using dismiss [of now i "sv_store s"] r by simp
  then show ?thesis
  proof (cases rule: transitions_cases)
    case (1 e)
    with service_ok_settled [OF assms 1(2)] r show ?thesis by (simp add: sv_Dismiss_def)
  next
    case (2 p)
    let ?q = "p\<lparr>pr_Status := PropDismissed\<rparr>"
    have i: "pr_ID p = i" "i \<in> used" using assms 2 by (auto simp: service_ok_def filed_def)
    have "service_ok used (s\<lparr>sv_store := store'\<rparr>)"
      using assms 2 i not_applied [of "view (sv_store s)" "sv_applied s" i] filed_update [of used "view (sv_store s)" ?q i]
      by (simp add: service_ok_def applied_ok_update insert_absorb)
    with 2 r show ?thesis by (simp add: sv_Dismiss_def Let_def)
  qed
qed

lemma service_ok_get: "service_ok used s \<Longrightarrow> service_ok used (snd (sv_Get st now i s))"
  using service_ok_settled [OF _ get, of used s now i] by (simp add: sv_Get_def case_prod_beta)

lemma service_ok_list: "service_ok used s \<Longrightarrow> service_ok used (snd (sv_List st now status s))"
  using service_ok_settled [OF _ list, of used s now status] by (simp add: sv_List_def case_prod_beta)

lemma service_ok_run:
  "service_ok used s \<Longrightarrow> distinct (created_ids cs) \<Longrightarrow> used \<inter> set (created_ids cs) = {} \<Longrightarrow>
   \<exists>used'. service_ok used' (sv_run st cs s)"
proof (induction cs arbitrary: used s)
  case (Cons c cs)
  show ?case
  proof (cases c)
    case (CallCreate now uuid p)
    with Cons.prems Cons.IH [OF service_ok_create [of used s uuid now p]] show ?thesis by simp
  next
    case (CallGet now i)
    with Cons.prems Cons.IH [OF service_ok_get] show ?thesis by simp
  next
    case (CallList now status)
    with Cons.prems Cons.IH [OF service_ok_list] show ?thesis by simp
  next
    case (CallApprove now applies i)
    with Cons.prems Cons.IH [OF service_ok_approve] show ?thesis by simp
  next
    case (CallDismiss now i)
    with Cons.prems Cons.IH [OF service_ok_dismiss] show ?thesis by simp
  qed
qed auto

end

section \<open>The in-memory store keeps the contract\<close>

lemma map_of_expireAll: "map_of (ps_expireAll now items) k = map_option (expire now) (map_of items k)"
  by (induction items) (auto simp: ps_expireAll_def)

lemma expire_twice_update: "map_of items i = Some p \<Longrightarrow> settled now (map_of items) (map_of (AList.update i (expire now p) items))"
  by (auto simp: settled_def)

lemma ps_transition_transitions:
  "transitions next now i (map_of items) (fst (ps_transition next now i items)) (map_of (snd (ps_transition next now i items)))"
proof (cases "map_of items i")
  case (Some p)
  show ?thesis
  proof (cases "pr_Status (expire now p) = PropPending")
    case True
    then have "expire now p = p" by (auto simp: expire_def)
    with Some True show ?thesis by (simp add: transitions_def ps_transition_def Let_def fun_eq_iff)
  next
    case False
    with Some expire_twice_update [OF Some, of now] show ?thesis by (simp add: transitions_def ps_transition_def Let_def)
  qed
qed (simp add: transitions_def ps_transition_def)

interpretation memory_store: proposal_store memory_store_port map_of
proof
  fix now i and s :: "'p proposal_items"
  show "settled now (map_of s) (map_of (snd (sp_Get memory_store_port now i s)))"
    by (auto simp: memory_store_port_def ps_Get_def settled_def split: option.splits)
next
  fix now status and s :: "'p proposal_items"
  show "settled now (map_of s) (map_of (snd (sp_List memory_store_port now status s)))"
    by (simp add: memory_store_port_def ps_List_def settled_def map_of_expireAll Let_def)
qed (auto simp: memory_store_port_def ps_Create_def ps_Approve_def ps_Dismiss_def ps_transition_transitions)

section \<open>Properties\<close>

definition new_service :: "bool \<Rightarrow> ('p proposal_items, 'p) proposal_service" where
  "new_service eventLog = \<lparr>sv_store = [], sv_eventLog = eventLog, sv_applied = [], sv_events = []\<rparr>"

text \<open>C25: Through any history of calls in which no identifier is drawn twice, the service hands each
  proposal to the applier at most once, only before it expires, and what was handed over stands as
  approved, unchanged, ever after: no dismissed or expired proposal is applied and no applied one is
  dismissed.\<close>

theorem proposals_applied_once:
  assumes "distinct (created_ids cs)"
  shows "let s = sv_run memory_store_port cs (new_service eventLog) in
    distinct (map (pr_ID \<circ> snd) (sv_applied s)) \<and>
    list_all (\<lambda>(t, p). t \<le> pr_ExpiresAt p \<and> pr_Status p = PropApproved \<and> map_of (sv_store s) (pr_ID p) = Some p) (sv_applied s)"
proof -
  have "memory_store.service_ok {} (new_service eventLog)"
    by (simp add: memory_store.service_ok_def new_service_def applied_ok_def filed_def)
  from memory_store.service_ok_run [OF this assms] obtain used
    where "memory_store.service_ok used (sv_run memory_store_port cs (new_service eventLog))" by auto
  then show ?thesis by (auto simp: memory_store.service_ok_def applied_ok_def list_all_iff Let_def split: prod.splits)
qed

theorem proposals_applied_once_witness:
  "let p = \<lparr>cp_Type = ActionBlockIP, cp_Params = ''1.2.3.4'', cp_Reason = ''r'', cp_TTL = 10, cp_Source = []\<rparr>;
       s = sv_run memory_store_port [CallCreate 0 ''a'' p, CallApprove 5 True ''a'', CallApprove 6 True ''a'', CallDismiss 7 ''a'']
             (new_service True) in
   distinct (map (pr_ID \<circ> snd) (sv_applied s)) \<and> length (sv_applied s) = 1"
proof -
  let ?p = "\<lparr>cp_Type = ActionBlockIP, cp_Params = ''1.2.3.4'', cp_Reason = ''r'', cp_TTL = 10, cp_Source = []\<rparr>"
  let ?cs = "[CallCreate 0 ''a'' ?p, CallApprove 5 True ''a'', CallApprove 6 True ''a'', CallDismiss 7 ''a'']"
  have "length (sv_applied (sv_run memory_store_port ?cs (new_service True))) = 1"
    by (simp add: new_service_def sv_Create_def sv_Approve_def sv_Dismiss_def memory_store_port_def ps_Create_def ps_Approve_def
        ps_Dismiss_def ps_transition_def sv_emit_def expire_def pr_IsExpired_def Let_def)
  with proposals_applied_once [of ?cs True] show ?thesis unfolding Let_def by simp
qed

text \<open>An approval whose application fails is final all the same: the proposal stands as approved
  although nothing was applied, no event is emitted, and it can be neither approved again nor
  dismissed.\<close>

theorem failed_application_stays_approved:
  assumes "sv_Approve memory_store_port now applies i s = (ApplyFailed, s')"
  shows "map_option pr_Status (map_of (sv_store s') i) = Some PropApproved \<and> sv_events s' = sv_events s \<and>
    fst (sv_Approve memory_store_port later True i s') = Failed ErrProposalNotPending \<and>
    fst (sv_Dismiss memory_store_port later i s') = Failed ErrProposalNotPending"
proof -
  obtain res store' where r: "sp_Approve memory_store_port now i (sv_store s) = (res, store')" by fastforce
  have "transitions PropApproved now i (map_of (sv_store s)) res (map_of store')"
    using memory_store.approve [of now i "sv_store s"] r by simp
  then show ?thesis
  proof (cases rule: transitions_cases)
    case (2 p)
    then have "map_of (sv_store s') i = Some (p\<lparr>pr_Status := PropApproved\<rparr>)" "sv_events s' = sv_events s"
      using assms r by (auto simp: sv_Approve_def Let_def split: if_splits)
    then show ?thesis
      by (simp add: sv_Approve_def sv_Dismiss_def memory_store_port_def ps_Approve_def ps_Dismiss_def ps_transition_def expire_def Let_def)
  qed (use assms r in \<open>auto simp: sv_Approve_def\<close>)
qed

theorem failed_application_stays_approved_witness:
  "let p = \<lparr>cp_Type = ActionBlockIP, cp_Params = ''1.2.3.4'', cp_Reason = ''r'', cp_TTL = 10, cp_Source = []\<rparr>;
       s = sv_run memory_store_port [CallCreate 0 ''a'' p, CallApprove 5 False ''a''] (new_service True) in
   map_option pr_Status (map_of (sv_store s) ''a'') = Some PropApproved \<and>
   fst (sv_Dismiss memory_store_port 6 ''a'' s) = Failed ErrProposalNotPending"
proof -
  let ?p = "\<lparr>cp_Type = ActionBlockIP, cp_Params = ''1.2.3.4'', cp_Reason = ''r'', cp_TTL = 10, cp_Source = []\<rparr>"
  let ?s = "sv_run memory_store_port [CallCreate 0 ''a'' ?p] (new_service True)"
  have "fst (sv_Approve memory_store_port 5 False ''a'' ?s) = ApplyFailed"
    by (simp add: new_service_def sv_Create_def sv_Approve_def memory_store_port_def ps_Create_def ps_Approve_def
        ps_transition_def sv_emit_def expire_def pr_IsExpired_def Let_def)
  then have "sv_Approve memory_store_port 5 False ''a'' ?s = (ApplyFailed, snd (sv_Approve memory_store_port 5 False ''a'' ?s))"
    by (metis prod.collapse)
  from failed_application_stays_approved [OF this, of 6] show ?thesis unfolding Let_def by simp
qed

end
