(* ===== verification/RingBuffer.thy ===== *)
theory RingBuffer
  imports GoStrings
begin

text \<open>The in-memory event ring (\<^verbatim>\<open>internal/adapters/log/ringbuffer.go\<close>). Cursors are 64-bit words. A slot
  that was never written is \<^const>\<open>None\<close>. Logging is two steps, because the cursor is taken from the
  atomic counter before the lock: \<open>rb_take\<close> and \<open>rb_put\<close>.\<close>

section \<open>The buffer\<close>

record 'e Event =
  ev_EventType :: string
  ev_Payload :: 'e

record 'e StoredEvent =
  se_Cursor :: "64 word"
  se_Event :: "'e Event"

record 'e RingBuffer =
  rb_slots :: "'e StoredEvent option list"
  rb_capacity :: nat
  rb_head :: nat
  rb_count :: nat
  rb_counter :: "64 word"

definition DefaultRingBufferCapacity :: nat where
  "DefaultRingBufferCapacity = 1000"

definition NewRingBuffer :: "int \<Rightarrow> 'e RingBuffer" where
  "NewRingBuffer capacity =
    (let cap = (if capacity < 1 then DefaultRingBufferCapacity else nat capacity) in
     \<lparr>rb_slots = replicate cap None, rb_capacity = cap, rb_head = 0, rb_count = 0, rb_counter = 0\<rparr>)"

definition rb_take :: "'e RingBuffer \<Rightarrow> 64 word \<times> 'e RingBuffer" where
  "rb_take r = (rb_counter r + 1, r\<lparr>rb_counter := rb_counter r + 1\<rparr>)"

definition rb_put :: "64 word \<Rightarrow> 'e Event \<Rightarrow> 'e RingBuffer \<Rightarrow> 'e RingBuffer" where
  "rb_put cursor event r =
    r\<lparr>rb_slots := (rb_slots r)[rb_head r := Some \<lparr>se_Cursor = cursor, se_Event = event\<rparr>],
      rb_head := (rb_head r + 1) mod rb_capacity r,
      rb_count := (if rb_count r < rb_capacity r then rb_count r + 1 else rb_count r)\<rparr>"

definition rb_Log :: "'e Event \<Rightarrow> 'e RingBuffer \<Rightarrow> 'e RingBuffer" where
  "rb_Log event r = (case rb_take r of (cursor, r1) \<Rightarrow> rb_put cursor event r1)"

definition buildTypeSet :: "string list \<Rightarrow> string set" where
  "buildTypeSet types = set (filter (\<lambda>t. t \<noteq> []) (map TrimSpace types))"

text \<open>The scan from the \<open>i\<close>-th oldest slot over the \<open>n\<close> remaining ones.\<close>

fun rb_scan ::
    "'e RingBuffer \<Rightarrow> nat \<Rightarrow> 64 word \<Rightarrow> string set \<Rightarrow> nat \<Rightarrow> nat \<Rightarrow> nat \<Rightarrow> 'e StoredEvent list \<Rightarrow> 'e StoredEvent list" where
  "rb_scan r start since typeSet limit i 0 result = result"
| "rb_scan r start since typeSet limit i (Suc n) result =
    (case rb_slots r ! ((start + i) mod rb_capacity r) of
       None \<Rightarrow> rb_scan r start since typeSet limit (Suc i) n result
     | Some se \<Rightarrow>
         if se_Cursor se \<le> since then rb_scan r start since typeSet limit (Suc i) n result
         else if typeSet \<noteq> {} \<and> ev_EventType (se_Event se) \<notin> typeSet
         then rb_scan r start since typeSet limit (Suc i) n result
         else if length (result @ [se]) = limit then result @ [se]
         else rb_scan r start since typeSet limit (Suc i) n (result @ [se]))"

definition rb_Query :: "64 word \<Rightarrow> string list \<Rightarrow> int \<Rightarrow> 'e RingBuffer \<Rightarrow> 'e StoredEvent list \<times> 64 word" where
  "rb_Query since types limit r =
    (let lim = (if limit < 1 then 1 else nat limit);
         typeSet = buildTypeSet types;
         start = (if rb_count r = rb_capacity r then rb_head r else 0);
         result = rb_scan r start since typeSet lim 0 (rb_count r) [] in
     (result, (if 0 < length result then se_Cursor (last result) else since)))"

section \<open>The abstract log\<close>

text \<open>The events in the buffer, oldest first.\<close>

definition contents :: "'e RingBuffer \<Rightarrow> 'e StoredEvent option list" where
  "contents r =
    (let start = (if rb_count r = rb_capacity r then rb_head r else 0) in
     map (\<lambda>i. rb_slots r ! ((start + i) mod rb_capacity r)) [0..<rb_count r])"

definition rb_wf :: "'e RingBuffer \<Rightarrow> bool" where
  "rb_wf r \<longleftrightarrow>
    0 < rb_capacity r \<and> length (rb_slots r) = rb_capacity r \<and> rb_head r < rb_capacity r \<and> rb_count r \<le> rb_capacity r \<and>
    (rb_count r < rb_capacity r \<longrightarrow> rb_head r = rb_count r)"

text \<open>Only the newest \<open>n\<close> entries of a list.\<close>

definition newest :: "nat \<Rightarrow> 'a list \<Rightarrow> 'a list" where
  "newest n xs = drop (length xs - n) xs"

definition wanted :: "64 word \<Rightarrow> string list \<Rightarrow> 'e StoredEvent \<Rightarrow> bool" where
  "wanted since types se \<longleftrightarrow>
    since < se_Cursor se \<and> (buildTypeSet types = {} \<or> ev_EventType (se_Event se) \<in> buildTypeSet types)"

lemma rb_wf_new: "rb_wf (NewRingBuffer capacity)"
  by (simp add: rb_wf_def NewRingBuffer_def Let_def DefaultRingBufferCapacity_def)

lemma rb_wf_put: "rb_wf r \<Longrightarrow> rb_wf (rb_put c e r)"
  by (auto simp: rb_wf_def rb_put_def mod_Suc)

lemma contents_put:
  assumes "rb_wf r"
  shows "contents (rb_put c e r) = newest (rb_capacity r) (contents r @ [Some \<lparr>se_Cursor = c, se_Event = e\<rparr>])"
proof (cases "rb_count r < rb_capacity r")
  case True
  with assms have h: "rb_head r = rb_count r" and len: "length (rb_slots r) = rb_capacity r" by (auto simp: rb_wf_def)
  show ?thesis
  proof (rule nth_equalityI)
    show "length (contents (rb_put c e r)) = length (newest (rb_capacity r) (contents r @ [Some \<lparr>se_Cursor = c, se_Event = e\<rparr>]))"
      using True by (simp add: contents_def rb_put_def newest_def Let_def)
  next
    fix i assume "i < length (contents (rb_put c e r))"
    then have i: "i \<le> rb_count r" using True by (simp add: contents_def rb_put_def Let_def)
    have s: "(if Suc (rb_count r) = rb_capacity r then Suc (rb_count r) mod rb_capacity r else 0) = 0" by simp
    show "contents (rb_put c e r) ! i = newest (rb_capacity r) (contents r @ [Some \<lparr>se_Cursor = c, se_Event = e\<rparr>]) ! i"
      using True i len h s
      by (cases "i = rb_count r") (auto simp: contents_def rb_put_def newest_def Let_def nth_append)
  qed
next
  case False
  with assms have cnt: "rb_count r = rb_capacity r" and len: "length (rb_slots r) = rb_capacity r"
    and h: "rb_head r < rb_capacity r" by (auto simp: rb_wf_def)
  show ?thesis
  proof (rule nth_equalityI)
    show "length (contents (rb_put c e r)) = length (newest (rb_capacity r) (contents r @ [Some \<lparr>se_Cursor = c, se_Event = e\<rparr>]))"
      using cnt by (simp add: contents_def rb_put_def newest_def Let_def)
  next
    fix i assume "i < length (contents (rb_put c e r))"
    then have i: "i < rb_capacity r" using cnt by (simp add: contents_def rb_put_def Let_def)
    have m: "(Suc (rb_head r) mod rb_capacity r + i) mod rb_capacity r = (rb_head r + Suc i) mod rb_capacity r"
      by (simp add: mod_add_left_eq)
    have ne: "(rb_head r + Suc i) mod rb_capacity r = rb_head r \<longleftrightarrow> Suc i = rb_capacity r"
    proof -
      have "(rb_head r + Suc i) mod rb_capacity r =
          (if rb_head r + Suc i < rb_capacity r then rb_head r + Suc i else rb_head r + Suc i - rb_capacity r)"
        using h i by (simp add: mod_if)
      then show ?thesis using h i by auto
    qed
    show "contents (rb_put c e r) ! i = newest (rb_capacity r) (contents r @ [Some \<lparr>se_Cursor = c, se_Event = e\<rparr>]) ! i"
      using cnt i len h m ne
      by (cases "Suc i = rb_capacity r")
         (auto simp: contents_def rb_put_def newest_def Let_def nth_append nth_list_update)
  qed
qed

lemma rb_scan_take:
  "length result < limit \<Longrightarrow>
   rb_scan r start since (buildTypeSet types) limit i n result =
   result @ take (limit - length result)
     (filter (wanted since types)
       (List.map_filter id (map (\<lambda>j. rb_slots r ! ((start + j) mod rb_capacity r)) [i..<i + n])))"
proof (induction n arbitrary: i result)
  case (Suc n)
  have up: "[i..<i + Suc n] = i # [Suc i..<Suc i + n]" by (simp add: upt_conv_Cons)
  show ?case
  proof (cases "rb_slots r ! ((start + i) mod rb_capacity r)")
    case None
    with Suc.IH [OF Suc.prems, of "Suc i"] show ?thesis
      unfolding up by (simp add: List.map_filter_simps del: upt_Suc)
  next
    case (Some se)
    show ?thesis
    proof (cases "wanted since types se")
      case True
      then have w: "\<not> se_Cursor se \<le> since" "\<not> (buildTypeSet types \<noteq> {} \<and> ev_EventType (se_Event se) \<notin> buildTypeSet types)"
        by (auto simp: wanted_def not_le split: if_splits)
      have d: "limit - length result = Suc (limit - Suc (length result))" using Suc.prems by simp
      show ?thesis
      proof (cases "length (result @ [se]) = limit")
        case True
        with Some w \<open>wanted since types se\<close> d show ?thesis
          unfolding up by (auto simp: List.map_filter_simps simp del: upt_Suc)
      next
        case False
        then have "length (result @ [se]) < limit" using Suc.prems by simp
        from Suc.IH [OF this, of "Suc i"] False Some w \<open>wanted since types se\<close> d show ?thesis
          unfolding up by (auto simp: List.map_filter_simps simp del: upt_Suc)
      qed
    next
      case False
      then have "se_Cursor se \<le> since \<or> (buildTypeSet types \<noteq> {} \<and> ev_EventType (se_Event se) \<notin> buildTypeSet types)"
        by (auto simp: wanted_def not_le split: if_splits)
      with Suc.IH [OF Suc.prems, of "Suc i"] Some False show ?thesis
        unfolding up by (auto simp: List.map_filter_simps simp del: upt_Suc)
    qed
  qed
qed (simp add: List.map_filter_simps)

lemma rb_Query_contents:
  "fst (rb_Query since types limit r) =
    take (if limit < 1 then 1 else nat limit) (filter (wanted since types) (List.map_filter id (contents r)))"
  using rb_scan_take [of "[]" "if limit < 1 then 1 else nat limit" r _ since types 0 "rb_count r"]
  by (simp add: rb_Query_def contents_def Let_def)

lemma newest_newest: "newest n (newest n xs @ ys) = newest n (xs @ ys)"
proof (cases "length xs \<le> n")
  case False
  then have "length (newest n xs) = n" by (simp add: newest_def)
  then have "newest n (newest n xs @ ys) = drop (length ys) (newest n xs @ ys)" by (simp add: newest_def)
  also have "\<dots> = drop (length ys) (newest n xs) @ drop (length ys - n) ys" using \<open>length (newest n xs) = n\<close> by simp
  also have "\<dots> = newest n (xs @ ys)" using False by (simp add: newest_def add.commute)
  finally show ?thesis .
qed (simp add: newest_def)

lemma newest_map: "newest n (map f xs) = map f (newest n xs)"
  by (simp add: newest_def drop_map)

text \<open>The events as the buffer numbers them.\<close>

definition numbered :: "'e Event list \<Rightarrow> 'e StoredEvent list" where
  "numbered evs = map (\<lambda>(i, e). \<lparr>se_Cursor = of_nat (Suc i), se_Event = e\<rparr>) (enumerate 0 evs)"

lemma numbered_snoc: "numbered (evs @ [e]) = numbered evs @ [\<lparr>se_Cursor = of_nat (Suc (length evs)), se_Event = e\<rparr>]"
  by (simp add: numbered_def enumerate_append_eq)

definition capacity_of :: "int \<Rightarrow> nat" where
  "capacity_of capacity = (if capacity < 1 then DefaultRingBufferCapacity else nat capacity)"

lemma rb_Log_eq: "rb_Log e r = rb_put (rb_counter r + 1) e (r\<lparr>rb_counter := rb_counter r + 1\<rparr>)"
  by (simp add: rb_Log_def rb_take_def)

lemma logged:
  "rb_wf (fold rb_Log evs (NewRingBuffer capacity)) \<and>
   rb_capacity (fold rb_Log evs (NewRingBuffer capacity)) = capacity_of capacity \<and>
   rb_counter (fold rb_Log evs (NewRingBuffer capacity)) = of_nat (length evs) \<and>
   contents (fold rb_Log evs (NewRingBuffer capacity)) = map Some (newest (capacity_of capacity) (numbered evs))"
proof (induction evs rule: rev_induct)
  case Nil
  show ?case
    using rb_wf_new [of capacity]
    by (simp add: NewRingBuffer_def capacity_of_def contents_def numbered_def newest_def Let_def)
next
  case (snoc e evs)
  let ?r = "fold rb_Log evs (NewRingBuffer capacity)"
  have wf: "rb_wf (?r\<lparr>rb_counter := c\<rparr>)" and con: "contents (?r\<lparr>rb_counter := c\<rparr>) = contents ?r" for c
    using snoc by (auto simp: rb_wf_def contents_def Let_def)
  have step: "fold rb_Log (evs @ [e]) (NewRingBuffer capacity) =
      rb_put (of_nat (Suc (length evs))) e (?r\<lparr>rb_counter := of_nat (Suc (length evs))\<rparr>)"
  proof -
    have "rb_counter ?r + 1 = of_nat (Suc (length evs))" using snoc by (simp add: add.commute)
    then show ?thesis unfolding fold_append fold.simps comp_apply id_apply rb_Log_eq by (simp only:)
  qed
  have "contents (fold rb_Log (evs @ [e]) (NewRingBuffer capacity)) =
      newest (capacity_of capacity)
        (map Some (newest (capacity_of capacity) (numbered evs)) @ [Some \<lparr>se_Cursor = of_nat (Suc (length evs)), se_Event = e\<rparr>])"
    unfolding step contents_put [OF wf] con using snoc by simp
  also have "\<dots> = map Some (newest (capacity_of capacity) (numbered (evs @ [e])))"
    unfolding numbered_snoc newest_map [symmetric] newest_newest by simp
  finally show ?case using rb_wf_put [OF wf] snoc unfolding step by (simp add: rb_put_def)
qed

lemma Query_logged:
  "fst (rb_Query since types limit (fold rb_Log evs (NewRingBuffer capacity))) =
    take (if limit < 1 then 1 else nat limit) (filter (wanted since types) (newest (capacity_of capacity) (numbered evs)))"
proof -
  have "List.map_filter id (map Some xs) = xs" for xs :: "'a StoredEvent list"
    by (induction xs) (simp_all add: List.map_filter_simps)
  then show ?thesis using logged [of evs capacity] by (simp add: rb_Query_contents)
qed

section \<open>A reader that resumes\<close>

text \<open>The protocol of the reader: ask again from the returned cursor until nothing is returned.\<close>

fun poll :: "nat \<Rightarrow> 64 word \<Rightarrow> string list \<Rightarrow> int \<Rightarrow> 'e RingBuffer \<Rightarrow> 'e StoredEvent list option" where
  "poll 0 since types limit r = None"
| "poll (Suc fuel) since types limit r =
    (case rb_Query since types limit r of (res, cursor) \<Rightarrow>
       if res = [] then Some [] else map_option (\<lambda>more. res @ more) (poll fuel cursor types limit r))"

definition ascending :: "'e StoredEvent list \<Rightarrow> bool" where
  "ascending xs \<longleftrightarrow> sorted_wrt (\<lambda>a b. se_Cursor a < se_Cursor b) xs"

lemma ascending_numbered: "length evs < 2 ^ 64 \<Longrightarrow> ascending (numbered evs)"
proof -
  assume len: "length evs < 2 ^ 64"
  have "(of_nat (Suc i) :: 64 word) < of_nat (Suc j)" if "i < j" "j < length evs" for i j
    using that len by (simp add: word_less_nat_alt unat_of_nat del: of_nat_Suc)
  then show ?thesis
    by (auto simp: ascending_def numbered_def sorted_wrt_iff_nth_less nth_enumerate_eq simp del: of_nat_Suc)
qed

lemma ascending_newest: "ascending xs \<Longrightarrow> ascending (newest n xs)"
  by (simp add: ascending_def newest_def sorted_wrt_drop)

lemma ascending_filter: "ascending xs \<Longrightarrow> ascending (filter P xs)"
  by (simp add: ascending_def sorted_wrt_filter)

lemma ascending_above:
  assumes "ascending (us @ [u] @ vs)"
  shows "filter (\<lambda>x. se_Cursor u < se_Cursor x) (us @ [u] @ vs) = vs"
proof -
  have "filter (\<lambda>x. se_Cursor u < se_Cursor x) us = []"
    using assms by (auto simp: ascending_def sorted_wrt_append filter_empty_conv dest: order_less_imp_not_less)
  moreover have "filter (\<lambda>x. se_Cursor u < se_Cursor x) vs = vs"
    using assms by (auto simp: ascending_def sorted_wrt_append filter_id_conv)
  ultimately show ?thesis by simp
qed

lemma wanted_resume:
  assumes "ascending xs" "0 < k" "filter (wanted since types) xs \<noteq> []"
  shows "filter (wanted (se_Cursor (last (take k (filter (wanted since types) xs)))) types) xs =
    drop k (filter (wanted since types) xs)"
proof -
  let ?ys = "filter (wanted since types) xs"
  let ?u = "last (take k ?ys)"
  have ne: "take k ?ys \<noteq> []" using assms(2,3) by simp
  have ys: "?ys = butlast (take k ?ys) @ [?u] @ drop k ?ys"
    using append_butlast_last_id [OF ne] append_take_drop_id [of k ?ys] by (metis append_assoc)
  have "?u \<in> set ?ys" using ne by (metis in_set_takeD last_in_set)
  then have since: "since < se_Cursor ?u" by (simp add: wanted_def)
  have "filter (wanted (se_Cursor ?u) types) xs = filter (\<lambda>x. se_Cursor ?u < se_Cursor x) ?ys"
    using since by (auto simp: filter_filter wanted_def intro!: filter_cong)
  also have "\<dots> = drop k ?ys"
    using ascending_above [of "butlast (take k ?ys)" ?u "drop k ?ys"] ascending_filter [OF assms(1), of "wanted since types"] ys
    by metis
  finally show ?thesis .
qed

lemma poll_drains:
  assumes "\<And>since. fst (rb_Query since types limit r) = take (if limit < 1 then 1 else nat limit) (filter (wanted since types) xs)"
    and "ascending xs"
  shows "length (filter (wanted since types) xs) < fuel \<Longrightarrow> poll fuel since types limit r = Some (filter (wanted since types) xs)"
proof (induction fuel arbitrary: since)
  case (Suc fuel)
  let ?k = "if limit < 1 then 1 else nat limit"
  let ?ys = "filter (wanted since types) xs"
  have k: "0 < ?k" by simp
  show ?case
  proof (cases "?ys = []")
    case True
    with assms(1) [of since] show ?thesis by (simp add: case_prod_beta)
  next
    case False
    define c where "c = se_Cursor (last (take ?k ?ys))"
    have q: "rb_Query since types limit r = (take ?k ?ys, c)"
      using assms(1) [of since] False k by (simp add: rb_Query_def Let_def c_def split: if_splits)
    have rest: "filter (wanted c types) xs = drop ?k ?ys"
      unfolding c_def by (rule wanted_resume [OF assms(2) k False])
    have "length (drop ?k ?ys) < fuel" using Suc.prems k False by (cases ?ys) auto
    with Suc.IH [of c] have "poll fuel c types limit r = Some (drop ?k ?ys)" unfolding rest by simp
    with q False k show ?thesis by simp
  qed
qed simp

section \<open>Concurrent loggers\<close>

text \<open>Loggers that have taken their cursor but not yet the lock.\<close>

datatype 'e log_step = TakeCursor nat "'e Event" | PutEvent nat

fun log_steps :: "'e log_step list \<Rightarrow> 'e RingBuffer \<times> (nat \<times> 64 word \<times> 'e Event) list \<Rightarrow>
    'e RingBuffer \<times> (nat \<times> 64 word \<times> 'e Event) list" where
  "log_steps [] st = st"
| "log_steps (TakeCursor tid e # xs) (r, waiting) =
    (case rb_take r of (c, r') \<Rightarrow> log_steps xs (r', waiting @ [(tid, c, e)]))"
| "log_steps (PutEvent tid # xs) (r, waiting) =
    (case List.extract (\<lambda>w. fst w = tid) waiting of
       None \<Rightarrow> log_steps xs (r, waiting)
     | Some (ws, (_, c, e), ws') \<Rightarrow> log_steps xs (rb_put c e r, ws @ ws'))"

section \<open>Properties\<close>

text \<open>What a query returns after any sequence of logged events: of the newest events, as many as the
  capacity holds, the first ones up to the limit that are newer than the cursor and of a wanted type.\<close>

theorem ring_query_newest:
  "fst (rb_Query since types limit (fold rb_Log evs (NewRingBuffer capacity))) =
    take (if limit < 1 then 1 else nat limit) (filter (wanted since types) (newest (capacity_of capacity) (numbered evs)))"
  by (rule Query_logged)

text \<open>C26: A reader that asks again from the returned cursor comes to an end after at most one query per
  event and one more, and has then received every wanted event still in the buffer, each once, in order.\<close>

theorem ring_poll_terminates:
  assumes "length evs < 2 ^ 64"
  shows "poll (Suc (length evs)) since types limit (fold rb_Log evs (NewRingBuffer capacity)) =
    Some (filter (wanted since types) (newest (capacity_of capacity) (numbered evs)))"
proof (rule poll_drains [OF Query_logged])
  show "ascending (newest (capacity_of capacity) (numbered evs))"
    by (rule ascending_newest [OF ascending_numbered [OF assms]])
  have "length (filter (wanted since types) (newest (capacity_of capacity) (numbered evs))) \<le> length (numbered evs)"
    by (rule order_trans [OF length_filter_le]) (simp add: newest_def)
  then show "length (filter (wanted since types) (newest (capacity_of capacity) (numbered evs))) < Suc (length evs)"
    by (simp add: numbered_def)
qed

theorem ring_poll_terminates_witness:
  "map_option (map se_Cursor) (poll 4 0 [] 1 (fold rb_Log (replicate 3 \<lparr>ev_EventType = ''a'', ev_Payload = ()\<rparr>) (NewRingBuffer 2))) =
    Some [2, 3]"
proof -
  let ?evs = "replicate 3 \<lparr>ev_EventType = ''a'', ev_Payload = ()\<rparr>"
  have len: "length ?evs < 2 ^ 64" "Suc (length ?evs) = 4" by simp_all
  have "map se_Cursor (filter (wanted 0 []) (newest (capacity_of 2) (numbered ?evs))) = [2, 3]"
    by (simp add: numbered_def newest_def capacity_of_def wanted_def buildTypeSet_def numeral_3_eq_3)
  with ring_poll_terminates [OF len(1), of 0 "[]" 1 2] show ?thesis unfolding len(2) by simp
qed

text \<open>Two loggers whose insertions are in the other order than their cursors make a resuming reader miss
  an event: the second one's event is returned, its cursor is past the first one's, and the first
  one's event is in the buffer but never returned.\<close>

theorem ring_reader_misses_event:
  "let a = \<lparr>ev_EventType = ''a'', ev_Payload = ()\<rparr>; b = \<lparr>ev_EventType = ''b'', ev_Payload = ()\<rparr>;
       r1 = log_steps [TakeCursor 1 a, TakeCursor 2 b, PutEvent 2] (NewRingBuffer 4, []);
       (res, cursor) = rb_Query 0 [] 10 (fst r1);
       r2 = log_steps [PutEvent 1] r1 in
   map se_Event res = [b] \<and> map (map_option se_Event) (contents (fst r2)) = [Some b, Some a] \<and>
   fst (rb_Query cursor [] 10 (fst r2)) = []"
  by code_simp

end
