(* ===== verification/GoRegexp.thy ===== *)
theory GoRegexp
  imports GoStrings
begin

text \<open>The regular expressions of the Go standard library the code compiles with the case-insensitive
  flag: abstract syntax, the matches of an expression at a position, and \<^verbatim>\<open>MatchString\<close> as a search.
  A position is the character before it and the text after it. Texts are bytes; the Unicode folding
  of the letters k and s (to U+212A and U+017F) is part of the case-insensitive constructors, so that
  the search decides as the rune-wise one does.\<close>

section \<open>Syntax and matching\<close>

datatype re =
    Eps
  | Cls "char \<Rightarrow> bool"
  | Seq re re
  | Alt re re
  | Rep re
  | WordBoundary
  | EndText

type_synonym pos = "char option \<times> string"

definition word_char :: "char \<Rightarrow> bool" where
  "word_char c \<longleftrightarrow> is_digit c \<or> 65 \<le> byte_of c \<and> byte_of c \<le> 90 \<or> 97 \<le> byte_of c \<and> byte_of c \<le> 122 \<or> c = CHR ''_''"

definition re_blank :: "char \<Rightarrow> bool" where
  "re_blank c \<longleftrightarrow> byte_of c = 32 \<or> byte_of c = 9 \<or> byte_of c = 10 \<or> byte_of c = 12 \<or> byte_of c = 13"

text \<open>Repetition: every further round has to consume something, so the length of the text bounds the
  number of rounds.\<close>

fun rep_match :: "(pos \<Rightarrow> pos list) \<Rightarrow> nat \<Rightarrow> pos \<Rightarrow> pos list" where
  "rep_match f 0 st = [st]"
| "rep_match f (Suc n) st =
    st # concat (map (rep_match f n) (filter (\<lambda>st'. length (snd st') < length (snd st)) (f st)))"

primrec re_match :: "re \<Rightarrow> pos \<Rightarrow> pos list" where
  "re_match Eps = (\<lambda>st. [st])"
| "re_match (Cls P) = (\<lambda>(p, s). case s of [] \<Rightarrow> [] | c # cs \<Rightarrow> if P c then [(Some c, cs)] else [])"
| "re_match (Seq a b) = (\<lambda>st. concat (map (re_match b) (re_match a st)))"
| "re_match (Alt a b) = (\<lambda>st. re_match a st @ re_match b st)"
| "re_match (Rep a) = (\<lambda>st. rep_match (re_match a) (length (snd st)) st)"
| "re_match WordBoundary = (\<lambda>(p, s).
    let before = (case p of None \<Rightarrow> False | Some c \<Rightarrow> word_char c);
        after = (case s of [] \<Rightarrow> False | c # _ \<Rightarrow> word_char c) in
    if before \<noteq> after then [(p, s)] else [])"
| "re_match EndText = (\<lambda>(p, s). if s = [] then [(p, s)] else [])"

fun re_search :: "re \<Rightarrow> char option \<Rightarrow> string \<Rightarrow> bool" where
  "re_search r p [] = (re_match r (p, []) \<noteq> [])"
| "re_search r p (c # cs) = (re_match r (p, c # cs) \<noteq> [] \<or> re_search r (Some c) cs)"

definition MatchString :: "re \<Rightarrow> string \<Rightarrow> bool" where
  "MatchString r s = re_search r None s"

section \<open>Derived forms\<close>

definition Plus :: "re \<Rightarrow> re" where
  "Plus r = Seq r (Rep r)"

fun alts :: "re list \<Rightarrow> re" where
  "alts [] = Cls (\<lambda>_. False)"
| "alts [r] = r"
| "alts (r # rs) = Alt r (alts rs)"

fun seqs :: "re list \<Rightarrow> re" where
  "seqs [] = Eps"
| "seqs [r] = r"
| "seqs (r # rs) = Seq r (seqs rs)"

definition bytes :: "nat list \<Rightarrow> re" where
  "bytes ns = seqs (map (\<lambda>n. Cls (\<lambda>c. byte_of c = n)) ns)"

definition ci_char :: "char \<Rightarrow> re" where
  "ci_char c =
    (let r = Cls (\<lambda>x. lower_char x = lower_char c) in
     if lower_char c = CHR ''k'' then Alt r (bytes [0xE2, 0x84, 0xAA])
     else if lower_char c = CHR ''s'' then Alt r (bytes [0xC5, 0xBF])
     else r)"

fun ci :: "string \<Rightarrow> re" where
  "ci [] = Eps"
| "ci (c # cs) = Seq (ci_char c) (ci cs)"

definition one_of :: "string \<Rightarrow> re" where
  "one_of cs = Cls (\<lambda>x. \<exists>c\<in>set cs. lower_char x = lower_char c)"

definition blanks :: re where
  "blanks = Rep (Cls re_blank)"

definition ci_word :: re where
  "ci_word = alts [Cls word_char, bytes [0xE2, 0x84, 0xAA], bytes [0xC5, 0xBF]]"

definition any_char :: re where
  "any_char = Cls (\<lambda>_. True)"

section \<open>Lemmas\<close>

lemma re_match_Seq: "x \<in> set (re_match (Seq a b) st) \<longleftrightarrow> (\<exists>y\<in>set (re_match a st). x \<in> set (re_match b y))"
  by auto

lemma re_match_Seq_nonempty: "y \<in> set (re_match a st) \<Longrightarrow> re_match b y \<noteq> [] \<Longrightarrow> re_match (Seq a b) st \<noteq> []"
  by auto

lemma rep_match_self: "st \<in> set (rep_match f n st)"
  by (cases n) auto

lemma re_match_Rep_self: "st \<in> set (re_match (Rep a) st)"
  by (simp add: rep_match_self)

lemma re_search_append: "re_match r (if a = [] then p else Some (last a), s) \<noteq> [] \<Longrightarrow> re_search r p (a @ s)"
proof (induction a arbitrary: p)
  case Nil
  then show ?case by (cases s) auto
next
  case (Cons c a)
  then show ?case by (cases "a = []") (auto simp: append_Cons)
qed

lemma MatchString_inside: "(\<And>p. re_match r (p, s) \<noteq> []) \<Longrightarrow> MatchString r (a @ s)"
  unfolding MatchString_def by (rule re_search_append) simp

lemma ci_char_self: "lower_char x = lower_char c \<Longrightarrow> (Some x, b) \<in> set (re_match (ci_char c) (p, x # b))"
  by (simp add: ci_char_def Let_def)

lemma ci_match:
  "ToLower m = ToLower l \<Longrightarrow> \<exists>q. (q, b) \<in> set (re_match (ci l) (p, m @ b))"
proof (induction l arbitrary: m p)
  case (Cons c l)
  then obtain x m' where m: "m = x # m'" "lower_char x = lower_char c" "ToLower m' = ToLower l"
    by (cases m) (auto simp: ToLower_def)
  from Cons.IH [OF m(3), of "Some x"] obtain q where "(q, b) \<in> set (re_match (ci l) (Some x, m' @ b))" by auto
  moreover have "(Some x, m' @ b) \<in> set (re_match (ci_char c) (p, m @ b))" using ci_char_self [OF m(2)] m(1) by simp
  ultimately show ?case unfolding ci.simps re_match_Seq by blast
qed (simp add: ToLower_def)

lemma rep_any:
  "length mid \<le> n \<Longrightarrow> \<exists>q. (q, b) \<in> set (rep_match (re_match any_char) n (p, mid @ b))"
proof (induction n arbitrary: mid p)
  case (Suc n)
  show ?case
  proof (cases mid)
    case (Cons c mid')
    with Suc.IH [of mid' "Some c"] Suc.prems show ?thesis by (auto simp: any_char_def)
  qed auto
qed auto

lemma re_match_any: "\<exists>q. (q, b) \<in> set (re_match (Rep any_char) (p, mid @ b))"
  using rep_any [of mid "length (mid @ b)" b p] by simp

text \<open>The characters an expression may consume.\<close>

primrec re_within :: "(char \<Rightarrow> bool) \<Rightarrow> re \<Rightarrow> bool" where
  "re_within P Eps \<longleftrightarrow> True"
| "re_within P (Cls Q) \<longleftrightarrow> (\<forall>c. Q c \<longrightarrow> P c)"
| "re_within P (Seq a b) \<longleftrightarrow> re_within P a \<and> re_within P b"
| "re_within P (Alt a b) \<longleftrightarrow> re_within P a \<and> re_within P b"
| "re_within P (Rep a) \<longleftrightarrow> re_within P a"
| "re_within P WordBoundary \<longleftrightarrow> True"
| "re_within P EndText \<longleftrightarrow> True"

definition consumes :: "(char \<Rightarrow> bool) \<Rightarrow> string \<Rightarrow> string \<Rightarrow> bool" where
  "consumes P s t \<longleftrightarrow> (\<exists>a. s = a @ t \<and> list_all P a)"

lemma consumes_refl: "consumes P s s"
  by (simp add: consumes_def)

lemma consumes_trans: "consumes P s t \<Longrightarrow> consumes P t u \<Longrightarrow> consumes P s u"
  unfolding consumes_def by (metis append.assoc list_all_append)

lemma rep_match_consumes:
  assumes "\<And>st x. x \<in> set (f st) \<Longrightarrow> consumes P (snd st) (snd x)"
  shows "x \<in> set (rep_match f n st) \<Longrightarrow> consumes P (snd st) (snd x)"
proof (induction n arbitrary: st)
  case 0
  then show ?case by (simp add: consumes_refl)
next
  case (Suc n)
  then consider "x = st" | y where "y \<in> set (f st)" "x \<in> set (rep_match f n y)" by auto
  then show ?case
  proof cases
    case 1
    then show ?thesis by (simp add: consumes_refl)
  next
    case 2
    then show ?thesis using assms Suc.IH consumes_trans by blast
  qed
qed

lemma re_match_consumes: "re_within P r \<Longrightarrow> x \<in> set (re_match r st) \<Longrightarrow> consumes P (snd st) (snd x)"
proof (induction r arbitrary: st x)
  case (Cls Q)
  then show ?case by (cases st) (auto simp: consumes_def split: list.splits if_splits)
next
  case (Seq a b)
  then obtain y where "y \<in> set (re_match a st)" "x \<in> set (re_match b y)" by auto
  with Seq.IH Seq.prems(1) have "consumes P (snd st) (snd y)" "consumes P (snd y) (snd x)" by auto
  then show ?case by (rule consumes_trans)
next
  case (Rep a)
  have "consumes P (snd u) (snd y)" if "y \<in> set (re_match a u)" for u y using Rep.IH Rep.prems(1) that by simp
  moreover have "x \<in> set (rep_match (re_match a) (length (snd st)) st)" using Rep.prems(2) by simp
  ultimately show ?case by (rule rep_match_consumes)
next
  case WordBoundary
  then show ?case by (cases st) (auto simp: consumes_refl Let_def split: if_splits)
next
  case EndText
  then show ?case by (cases st) (auto simp: consumes_refl split: if_splits)
qed (auto simp: consumes_refl)

end
