(* ===== verification/Webhook.thy ===== *)
theory Webhook
  imports GoCrypto IpFilter "HOL-Library.List_Lexorder" "HOL-Library.Char_ord"
begin

text \<open>Signatures of inbound webhooks: \<^verbatim>\<open>internal/domain/webhook/verify.go\<close> and
  \<^verbatim>\<open>internal/middleware/webhook_signature.go\<close>. \<^verbatim>\<open>url.ParseQuery\<close> is modelled without its limit on the
  number of parameters.\<close>

section \<open>Query strings\<close>

fun QueryUnescape :: "string \<Rightarrow> string option" where
  "QueryUnescape [] = Some []"
| "QueryUnescape (c # cs) =
    (if c = CHR ''%'' then
       (case cs of
          h # l # rest \<Rightarrow>
            (case (hex_value h, hex_value l) of
               (Some a, Some b) \<Rightarrow> map_option (\<lambda>s. char_of (a * 16 + b) # s) (QueryUnescape rest)
             | _ \<Rightarrow> None)
        | _ \<Rightarrow> None)
     else map_option (\<lambda>s. (if c = CHR ''+'' then CHR '' '' else c) # s) (QueryUnescape cs))"

type_synonym url_values = "(string, string list) gomap"

text \<open>One parameter; \<^const>\<open>None\<close> is an error, which drops the parameter and is reported at the end.\<close>

definition query_param :: "string \<Rightarrow> (string \<times> string) option" where
  "query_param p =
    (if CHR '';'' \<in> set p then None
     else
       let (k, v) = (case CutByte CHR ''='' p of None \<Rightarrow> (p, []) | Some kv \<Rightarrow> kv) in
       case (QueryUnescape k, QueryUnescape v) of (Some k', Some v') \<Rightarrow> Some (k', v') | _ \<Rightarrow> None)"

definition values_Add :: "string \<Rightarrow> string \<Rightarrow> url_values \<Rightarrow> url_values" where
  "values_Add k v m = AList.update k ((case map_of m k of Some vs \<Rightarrow> vs | None \<Rightarrow> []) @ [v]) m"

text \<open>\<^verbatim>\<open>url.ParseQuery\<close>: the values read, and whether there was no error.\<close>

definition ParseQuery :: "string \<Rightarrow> url_values \<times> bool" where
  "ParseQuery q =
    (let ps = filter (\<lambda>p. p \<noteq> []) (SplitByte CHR ''&'' q) in
     (fold (\<lambda>p m. case query_param p of Some (k, v) \<Rightarrow> values_Add k v m | None \<Rightarrow> m) ps [],
      list_all (\<lambda>p. query_param p \<noteq> None) ps))"

definition values_Get :: "url_values \<Rightarrow> string \<Rightarrow> string" where
  "values_Get m k = (case map_of m k of Some (v # _) \<Rightarrow> v | _ \<Rightarrow> [])"

section \<open>Verification\<close>

datatype webhook_error = ErrMissingSignature | ErrInvalidSignature | ErrInvalidFormat string | ErrUnknownProvider string

record VerifyConfig =
  vc_Provider :: string
  vc_Secret :: string
  vc_Header :: string

definition computeHMACSHA256Hex :: "string \<Rightarrow> string \<Rightarrow> string" where
  "computeHMACSHA256Hex key message = hex_EncodeToString (hmac sha256 (bytes_of key) (bytes_of message))"

definition computeHMACSHA1Base64 :: "string \<Rightarrow> string \<Rightarrow> string" where
  "computeHMACSHA1Base64 key message = base64_EncodeToString (hmac sha1 (bytes_of key) (bytes_of message))"

text \<open>The loop over the parts of a Stripe header: the last timestamp and all signatures.\<close>

fun stripe_parts :: "string list \<Rightarrow> string \<times> string list \<Rightarrow> string \<times> string list" where
  "stripe_parts [] acc = acc"
| "stripe_parts (part # parts) (timestamp, signatures) =
    (case CutByte CHR ''='' part of
       None \<Rightarrow> stripe_parts parts (timestamp, signatures)
     | Some (k, v) \<Rightarrow>
         if k = ''t'' then stripe_parts parts (v, signatures)
         else if k = ''v1'' then stripe_parts parts (timestamp, signatures @ [v])
         else stripe_parts parts (timestamp, signatures))"

definition parseStripeSig :: "string \<Rightarrow> string + string \<times> string list" where
  "parseStripeSig sig =
    (let (timestamp, signatures) = stripe_parts (SplitByte CHR '','' sig) ([], []) in
     if timestamp = [] then Inl ''missing t= timestamp field''
     else if signatures = [] then Inl ''missing v1= signature field''
     else Inr (timestamp, signatures))"

definition VerifyStripe :: "string \<Rightarrow> header \<Rightarrow> string \<Rightarrow> webhook_error option" where
  "VerifyStripe secret headers body =
    (let sig = hdr_Get headers ''Stripe-Signature'' in
     if sig = [] then Some ErrMissingSignature
     else case parseStripeSig sig of
       Inl e \<Rightarrow> Some (ErrInvalidFormat e)
     | Inr (timestamp, signatures) \<Rightarrow>
         if list_ex (\<lambda>s. computeHMACSHA256Hex secret (timestamp @ ''.'' @ body) = s) signatures then None
         else Some ErrInvalidSignature)"

definition VerifyGitHub :: "string \<Rightarrow> header \<Rightarrow> string \<Rightarrow> webhook_error option" where
  "VerifyGitHub secret headers body =
    (let sig = hdr_Get headers ''X-Hub-Signature-256'' in
     if sig = [] then Some ErrMissingSignature
     else if \<not> prefix ''sha256='' sig then Some (ErrInvalidFormat ''expected sha256= prefix'')
     else if computeHMACSHA256Hex secret body \<noteq> TrimPrefix ''sha256='' sig then Some ErrInvalidSignature
     else None)"

definition VerifySlack :: "string \<Rightarrow> header \<Rightarrow> string \<Rightarrow> webhook_error option" where
  "VerifySlack secret headers body =
    (let sig = hdr_Get headers ''X-Slack-Signature''; timestamp = hdr_Get headers ''X-Slack-Request-Timestamp'' in
     if sig = [] then Some ErrMissingSignature
     else if timestamp = [] then Some (ErrInvalidFormat ''X-Slack-Request-Timestamp header missing'')
     else if \<not> prefix ''v0='' sig then Some (ErrInvalidFormat ''expected v0= prefix'')
     else if computeHMACSHA256Hex secret (''v0:'' @ timestamp @ '':'' @ body) \<noteq> TrimPrefix ''v0='' sig
     then Some ErrInvalidSignature
     else None)"

definition buildTwilioPayload :: "string \<Rightarrow> url_values \<Rightarrow> string" where
  "buildTwilioPayload fullURL params =
    (if params = [] then fullURL
     else fullURL @ concat (map (\<lambda>k. k @ values_Get params k) (sort (map fst params))))"

definition VerifyTwilio :: "string \<Rightarrow> header \<Rightarrow> string \<Rightarrow> url_values \<Rightarrow> webhook_error option" where
  "VerifyTwilio secret headers fullURL formParams =
    (let sig = hdr_Get headers ''X-Twilio-Signature'' in
     if sig = [] then Some ErrMissingSignature
     else if computeHMACSHA1Base64 secret (buildTwilioPayload fullURL formParams) \<noteq> sig then Some ErrInvalidSignature
     else None)"

definition VerifyGeneric :: "string \<Rightarrow> header \<Rightarrow> string \<Rightarrow> string \<Rightarrow> webhook_error option" where
  "VerifyGeneric secret headers body headerName =
    (if headerName = [] then Some (ErrInvalidFormat ''header name is required for generic provider'')
     else
       let sig = hdr_Get headers headerName in
       if sig = [] then Some ErrMissingSignature
       else if computeHMACSHA256Hex secret body \<noteq> sig then Some ErrInvalidSignature
       else None)"

definition Verify :: "VerifyConfig \<Rightarrow> header \<Rightarrow> string \<Rightarrow> string \<Rightarrow> url_values \<Rightarrow> webhook_error option" where
  "Verify cfg headers body fullURL formParams =
    (if vc_Provider cfg = ''stripe'' then VerifyStripe (vc_Secret cfg) headers body
     else if vc_Provider cfg = ''github'' then VerifyGitHub (vc_Secret cfg) headers body
     else if vc_Provider cfg = ''slack'' then VerifySlack (vc_Secret cfg) headers body
     else if vc_Provider cfg = ''twilio'' then VerifyTwilio (vc_Secret cfg) headers fullURL formParams
     else if vc_Provider cfg = ''generic'' then VerifyGeneric (vc_Secret cfg) headers body (vc_Header cfg)
     else Some (ErrUnknownProvider (vc_Provider cfg)))"

section \<open>The middleware\<close>

record WebhookSignatureRule =
  wr_Path :: string
  wr_Config :: VerifyConfig

record WebhookRequest = ClientRequest +
  wq_TLS :: bool
  wq_Host :: string
  wq_RequestURI :: string
  wq_Body :: "string option"

datatype webhook_event =
    WebhookSignatureValid string string string string
  | WebhookSignatureInvalid string string string string string

datatype webhook_response = WebhookNext string | WebhookPassed | WebhookUnauthorized string

definition buildFullURL :: "WebhookRequest \<Rightarrow> string" where
  "buildFullURL r = (if wq_TLS r then ''https'' else ''http'') @ ''://'' @ wq_Host r @ wq_RequestURI r"

text \<open>The text of an unknown provider is quoted as Go's quoting verb does it for a plain name.\<close>

definition classifyError :: "webhook_error \<Rightarrow> string" where
  "classifyError e =
    (case e of
       ErrMissingSignature \<Rightarrow> ''signature header missing''
     | ErrInvalidFormat _ \<Rightarrow> ''signature format invalid''
     | ErrInvalidSignature \<Rightarrow> ''signature mismatch''
     | ErrUnknownProvider p \<Rightarrow> ''unknown webhook provider '' @ [CHR 0x22] @ p @ [CHR 0x22])"

definition rule_index :: "WebhookSignatureRule list \<Rightarrow> (string, VerifyConfig) gomap" where
  "rule_index rules = fold (\<lambda>r m. AList.update (wr_Path r) (wr_Config r) m) rules []"

definition form_params :: "VerifyConfig \<Rightarrow> string \<Rightarrow> url_values" where
  "form_params cfg body =
    (if vc_Provider cfg = ''twilio'' then
       (case ParseQuery body of (parsed, True) \<Rightarrow> parsed | (_, False) \<Rightarrow> [])
     else [])"

text \<open>The client address in the events is taken from the forwarded header whenever there is one. A
  body that cannot be read is \<^const>\<open>None\<close>; on success the next handler gets the same bytes.\<close>

definition WebhookSignatureMiddleware ::
    "WebhookSignatureRule list \<Rightarrow> WebhookRequest \<Rightarrow> webhook_response \<times> webhook_event list" where
  "WebhookSignatureMiddleware rules r =
    (case map_of (rule_index rules) (cr_Path r) of
       None \<Rightarrow> (WebhookPassed, [])
     | Some cfg \<Rightarrow>
         (let ip = ExtractClientIP (ClientRequest.truncate r) True;
              invalid = (\<lambda>reason. WebhookSignatureInvalid (cr_Path r) (cr_Method r) (vc_Provider cfg) reason ip) in
          case wq_Body r of
            None \<Rightarrow> (WebhookUnauthorized ''could not read request body'', [invalid ''failed to read request body''])
          | Some body \<Rightarrow>
              (case Verify cfg (cr_Header r) body (buildFullURL r) (form_params cfg body) of
                 Some e \<Rightarrow> (WebhookUnauthorized ''webhook signature verification failed'', [invalid (classifyError e)])
               | None \<Rightarrow>
                   (WebhookNext body, [WebhookSignatureValid (cr_Path r) (cr_Method r) (vc_Provider cfg) ip]))))"

section \<open>What a signature says\<close>

text \<open>The fields of a Stripe header: its timestamp is the value of the last \<^verbatim>\<open>t\<close> field.\<close>

definition stripe_timestamp :: "string list \<Rightarrow> string" where
  "stripe_timestamp parts =
    (case rev (filter (\<lambda>part. prefix ''t='' part) parts) of [] \<Rightarrow> [] | part # _ \<Rightarrow> drop 2 part)"

definition authentic :: "VerifyConfig \<Rightarrow> header \<Rightarrow> string \<Rightarrow> string \<Rightarrow> url_values \<Rightarrow> bool" where
  "authentic cfg h body url params \<longleftrightarrow>
    (let sec = vc_Secret cfg; prov = vc_Provider cfg; get = hdr_Get h in
     prov = ''github'' \<and> get ''X-Hub-Signature-256'' = ''sha256='' @ computeHMACSHA256Hex sec body \<or>
     prov = ''generic'' \<and> vc_Header cfg \<noteq> [] \<and> get (vc_Header cfg) = computeHMACSHA256Hex sec body \<or>
     prov = ''slack'' \<and> get ''X-Slack-Request-Timestamp'' \<noteq> [] \<and>
       get ''X-Slack-Signature'' =
         ''v0='' @ computeHMACSHA256Hex sec (''v0:'' @ get ''X-Slack-Request-Timestamp'' @ '':'' @ body) \<or>
     prov = ''twilio'' \<and> get ''X-Twilio-Signature'' = computeHMACSHA1Base64 sec (buildTwilioPayload url params) \<or>
     prov = ''stripe'' \<and>
       (let parts = SplitByte CHR '','' (get ''Stripe-Signature''); ts = stripe_timestamp parts in
        ts \<noteq> [] \<and> ''v1='' @ computeHMACSHA256Hex sec (ts @ ''.'' @ body) \<in> set parts))"

lemma mac_nonempty [simp]: "computeHMACSHA256Hex k m \<noteq> []" "computeHMACSHA1Base64 k m \<noteq> []"
  using length_hmac [of "bytes_of k" "bytes_of m"]
  by (auto simp: computeHMACSHA256Hex_def computeHMACSHA1Base64_def simp del: length_hmac)

lemma CutByte_field: "c \<notin> set k \<Longrightarrow> CutByte c part = Some (k, v) \<longleftrightarrow> part = k @ c # v"
  using CutByte_SomeD [of c part k v] CutByte_append [of c k v] by auto

lemma stripe_timestamp_simps [simp]:
  "stripe_timestamp [] = []"
  "stripe_timestamp (p # ps) =
    (if \<exists>q\<in>set ps. prefix ''t='' q then stripe_timestamp ps else if prefix ''t='' p then drop 2 p else [])"
proof -
  show "stripe_timestamp (p # ps) =
    (if \<exists>q\<in>set ps. prefix ''t='' q then stripe_timestamp ps else if prefix ''t='' p then drop 2 p else [])"
  proof (cases "rev (filter (prefix ''t='') ps)")
    case Nil
    then have "\<not> (\<exists>q\<in>set ps. prefix ''t='' q)" by (simp add: filter_empty_conv)
    with Nil show ?thesis by (simp add: stripe_timestamp_def)
  next
    case (Cons q qs)
    then have "q \<in> set (filter (prefix ''t='') ps)" by (metis list.set_intros(1) set_rev)
    then have "\<exists>q\<in>set ps. prefix ''t='' q" by auto
    with Cons show ?thesis by (simp add: stripe_timestamp_def)
  qed
qed (simp add: stripe_timestamp_def)

lemma stripe_parts_eq:
  "stripe_parts parts (ts, sigs) =
    (if \<exists>q\<in>set parts. prefix ''t='' q then stripe_timestamp parts else ts,
     sigs @ map (drop 3) (filter (prefix ''v1='') parts))"
proof (induction parts arbitrary: ts sigs)
  case (Cons part parts)
  have t: "CutByte CHR ''='' part = Some (''t'', v) \<longleftrightarrow> part = ''t='' @ v" for v
    using CutByte_field [of "CHR ''=''" "''t''" part v] by simp
  have v1: "CutByte CHR ''='' part = Some (''v1'', v) \<longleftrightarrow> part = ''v1='' @ v" for v
    using CutByte_field [of "CHR ''=''" "''v1''" part v] by simp
  consider (time) v where "part = ''t='' @ v" | (mac) v where "part = ''v1='' @ v"
    | (other) "\<not> prefix ''t='' part" "\<not> prefix ''v1='' part" by (auto simp: prefix_def)
  then show ?case
  proof cases
    case (time v)
    then have "CutByte CHR ''='' part = Some (''t'', v)" using t by blast
    with Cons.IH time show ?thesis by simp
  next
    case (mac v)
    then have "CutByte CHR ''='' part = Some (''v1'', v)" using v1 by blast
    with Cons.IH mac show ?thesis by simp
  next
    case other
    then have "stripe_parts (part # parts) (ts, sigs) = stripe_parts parts (ts, sigs)"
      using t v1 by (auto simp: prefix_def split: option.splits)
    with Cons.IH other show ?thesis by simp
  qed
qed simp

lemma VerifyStripe_None:
  "VerifyStripe sec h body = None \<longleftrightarrow>
    (let parts = SplitByte CHR '','' (hdr_Get h ''Stripe-Signature''); ts = stripe_timestamp parts in
     ts \<noteq> [] \<and> ''v1='' @ computeHMACSHA256Hex sec (ts @ ''.'' @ body) \<in> set parts)"
proof -
  let ?sig = "hdr_Get h ''Stripe-Signature''"
  let ?parts = "SplitByte CHR '','' ?sig"
  let ?ts = "stripe_timestamp ?parts"
  have ts: "stripe_timestamp ps \<noteq> [] \<Longrightarrow> \<exists>q\<in>set ps. prefix ''t='' q" for ps
    by (induction ps) (auto split: if_splits)
  have mem: "x \<in> set (map (drop 3) (filter (prefix ''v1='') ps)) \<longleftrightarrow> ''v1='' @ x \<in> set ps" for x ps
    by (force simp: prefix_def)
  have empty: "?sig = [] \<Longrightarrow> ?ts = []" by simp
  show ?thesis
  proof (cases "?sig = [] \<or> ?ts = []")
    case True
    with empty ts [of ?parts] show ?thesis
      by (auto simp: VerifyStripe_def parseStripeSig_def stripe_parts_eq filter_empty_conv Let_def)
  next
    case False
    then have "?sig \<noteq> []" "?ts \<noteq> []" "\<exists>q\<in>set ?parts. prefix ''t='' q" using ts [of ?parts] by auto
    moreover have "list_ex (\<lambda>s. m = s) xs \<longleftrightarrow> m \<in> set xs" for m :: string and xs by (auto simp: list_ex_iff)
    ultimately show ?thesis
      using mem [of _ ?parts, symmetric] by (auto simp: VerifyStripe_def parseStripeSig_def stripe_parts_eq filter_empty_conv Let_def)
  qed
qed

lemma Verify_authentic: "Verify cfg h body url params = None \<longleftrightarrow> authentic cfg h body url params"
proof -
  have pre: "prefix p s \<and> x = TrimPrefix p s \<longleftrightarrow> s = p @ x" for p s x :: string
    by (auto simp: TrimPrefix_def prefix_def)
  have gh: "VerifyGitHub sec h body = None \<longleftrightarrow> hdr_Get h ''X-Hub-Signature-256'' = ''sha256='' @ computeHMACSHA256Hex sec body" for sec
    using pre [of "''sha256=''" "hdr_Get h ''X-Hub-Signature-256''" "computeHMACSHA256Hex sec body"]
    by (auto simp: VerifyGitHub_def Let_def)
  have sl: "VerifySlack sec h body = None \<longleftrightarrow> hdr_Get h ''X-Slack-Request-Timestamp'' \<noteq> [] \<and>
      hdr_Get h ''X-Slack-Signature'' = ''v0='' @ computeHMACSHA256Hex sec (''v0:'' @ hdr_Get h ''X-Slack-Request-Timestamp'' @ '':'' @ body)" for sec
    using pre [of "''v0=''" "hdr_Get h ''X-Slack-Signature''"]
    by (auto simp: VerifySlack_def Let_def)
  have ge: "VerifyGeneric sec h body hn = None \<longleftrightarrow> hn \<noteq> [] \<and> hdr_Get h hn = computeHMACSHA256Hex sec body" for sec hn
    by (auto simp: VerifyGeneric_def Let_def)
  have tw: "VerifyTwilio sec h url params = None \<longleftrightarrow>
      hdr_Get h ''X-Twilio-Signature'' = computeHMACSHA1Base64 sec (buildTwilioPayload url params)" for sec
    by (auto simp: VerifyTwilio_def Let_def)
  consider "vc_Provider cfg = ''stripe''" | "vc_Provider cfg = ''github''" | "vc_Provider cfg = ''slack''"
    | "vc_Provider cfg = ''twilio''" | "vc_Provider cfg = ''generic''"
    | "vc_Provider cfg \<notin> {''stripe'', ''github'', ''slack'', ''twilio'', ''generic''}" by auto
  then show ?thesis
    by cases (simp_all add: Verify_def authentic_def VerifyStripe_None gh sl ge tw Let_def)
qed

section \<open>Properties\<close>


text \<open>A Twilio request whose body is not a well-formed form is verified without its body: a signature
  valid for the bare URL authenticates any malformed body sent to that URL, and the body is handed on.\<close>

theorem twilio_malformed_body_unsigned:
  assumes "map_of (rule_index rules) (cr_Path r) = Some cfg" "vc_Provider cfg = ''twilio''"
    and "\<not> snd (ParseQuery body)"
    and "hdr_Get (cr_Header r) ''X-Twilio-Signature'' = computeHMACSHA1Base64 (vc_Secret cfg) (buildFullURL r)"
  shows "fst (WebhookSignatureMiddleware rules (r\<lparr>wq_Body := Some body\<rparr>)) = WebhookNext body"
proof -
  have "form_params cfg body = []" using assms(2,3) by (auto simp: form_params_def split: prod.splits bool.splits)
  moreover have "buildFullURL (r\<lparr>wq_Body := Some body\<rparr>) = buildFullURL r" by (simp add: buildFullURL_def)
  ultimately have "Verify cfg (cr_Header r) body (buildFullURL (r\<lparr>wq_Body := Some body\<rparr>)) (form_params cfg body) = None"
    using assms(2,4) by (simp add: Verify_authentic authentic_def buildTwilioPayload_def)
  with assms(1) show ?thesis by (simp add: WebhookSignatureMiddleware_def Let_def)
qed

theorem twilio_malformed_body_unsigned_witness:
  "let cfg = \<lparr>vc_Provider = ''twilio'', vc_Secret = ''k'', vc_Header = []\<rparr>;
       r = \<lparr>cr_Method = ''POST'', cr_Path = ''/sms'',
            cr_Header = [(''X-Twilio-Signature'', [computeHMACSHA1Base64 ''k'' ''https://h/sms''])],
            cr_RemoteAddr = ''10.0.0.9:1'', wq_TLS = True, wq_Host = ''h'', wq_RequestURI = ''/sms'', wq_Body = None\<rparr> in
   fst (WebhookSignatureMiddleware [\<lparr>wr_Path = ''/sms'', wr_Config = cfg\<rparr>] (r\<lparr>wq_Body := Some ''Body=pay&x=%''\<rparr>))
     = WebhookNext ''Body=pay&x=%''"
proof -
  let ?cfg = "\<lparr>vc_Provider = ''twilio'', vc_Secret = ''k'', vc_Header = []\<rparr>"
  let ?r = "\<lparr>cr_Method = ''POST'', cr_Path = ''/sms'',
            cr_Header = [(''X-Twilio-Signature'', [computeHMACSHA1Base64 ''k'' ''https://h/sms''])],
            cr_RemoteAddr = ''10.0.0.9:1'', wq_TLS = True, wq_Host = ''h'', wq_RequestURI = ''/sms'', wq_Body = None\<rparr>"
  have idx: "map_of (rule_index [\<lparr>wr_Path = ''/sms'', wr_Config = ?cfg\<rparr>]) (cr_Path ?r) = Some ?cfg"
    by (simp add: rule_index_def)
  have "CanonicalHeaderKey ''X-Twilio-Signature'' = ''X-Twilio-Signature''" by code_simp
  then have sig: "hdr_Get (cr_Header ?r) ''X-Twilio-Signature'' = computeHMACSHA1Base64 (vc_Secret ?cfg) (buildFullURL ?r)"
    by (simp add: hdr_Get_def hdr_Values_def buildFullURL_def)
  have "\<not> snd (ParseQuery ''Body=pay&x=%'')"
    by (simp add: ParseQuery_def query_param_def CutByte_def)
  then show ?thesis unfolding Let_def
    by (intro twilio_malformed_body_unsigned [OF idx _ _ sig]) simp_all
qed

end
