(* ===== verification/Waf.thy ===== *)
theory Waf
  imports GoRegexp Webhook ExemptPaths
begin

text \<open>The web application firewall: rules, detections and the rule set (\<^verbatim>\<open>internal/domain/waf\<close>), the
  middleware (\<^verbatim>\<open>internal/middleware/waf.go\<close>) and the handler that configures it
  (\<^verbatim>\<open>internal/adapters/caddy/waf_engine_handler.go\<close>). A rule carries its compiled expression. The
  parameters of the query are scanned in the order of the list that stands for the Go map.\<close>

section \<open>Rules\<close>

datatype Severity = SeverityLow | SeverityMedium | SeverityHigh | SeverityCritical

datatype Category = CategorySQLInjection | CategoryXSS | CategoryPathTraversal | CategoryCommandInjection

record Rule =
  ru_name :: string
  ru_pattern :: re
  ru_severity :: Severity
  ru_category :: Category

definition ru_MatchString :: "Rule \<Rightarrow> string \<Rightarrow> bool" where
  "ru_MatchString r input = MatchString (ru_pattern r) input"

definition unix_commands :: "string list" where
  "unix_commands =
    [''ls'', ''cat'', ''id'', ''whoami'', ''uname'', ''pwd'', ''echo'', ''curl'', ''wget'', ''bash'', ''sh'', ''nc'',
     ''python'', ''perl'', ''ruby'']"

definition word_end :: re where
  "word_end = alts [Cls re_blank, EndText, one_of ''/'']"

definition BuiltinRules :: "Rule list" where
  "BuiltinRules =
    (let operand = Plus (Alt ci_word (one_of [CHR 0x27, CHR 0x22]));
         digits = Plus (Cls is_digit);
         rule = (\<lambda>name pattern severity category.
           \<lparr>ru_name = name, ru_pattern = pattern, ru_severity = severity, ru_category = category\<rparr>);
         filler = Plus (Alt (Cls re_blank) (one_of ''+/*''));
         slash = one_of [CHR 0x5C, CHR ''/''];
         tag = (\<lambda>name. seqs [one_of ''<'', blanks, name, Rep any_char, one_of ''>'']);
         command = seqs [blanks, alts (map ci unix_commands), word_end] in
     [rule ''sqli-tautology''
        (seqs [one_of [CHR 0x27], blanks, ci ''or'', Plus (Cls re_blank),
               Alt (seqs [operand, blanks, one_of ''='', blanks, operand]) (seqs [digits, blanks, one_of ''='', blanks, digits])])
        SeverityCritical CategorySQLInjection,
      rule ''sqli-union-select'' (seqs [ci ''union'', filler, ci ''select'']) SeverityCritical CategorySQLInjection,
      rule ''sqli-drop-delete''
        (seqs [alts [ci ''drop'', ci ''delete''], filler, alts [ci ''table'', ci ''database'', ci ''from'']])
        SeverityCritical CategorySQLInjection,
      rule ''sqli-comment-terminator'' (seqs [alts [ci ''--'', ci ''#''], blanks, EndText]) SeverityHigh CategorySQLInjection,
      rule ''sqli-stacked-query''
        (seqs [one_of '';'', blanks, alts (map ci [''select'', ''insert'', ''update'', ''delete'', ''drop'', ''create'', ''alter'', ''exec'', ''execute''])])
        SeverityHigh CategorySQLInjection,
      rule ''xss-script-tag'' (tag (ci ''script'')) SeverityCritical CategoryXSS,
      rule ''xss-javascript-uri'' (seqs [ci ''javascript'', blanks, one_of '':'']) SeverityHigh CategoryXSS,
      rule ''xss-event-handler'' (seqs [WordBoundary, ci ''on'', Plus ci_word, blanks, one_of ''='']) SeverityHigh CategoryXSS,
      rule ''xss-html-injection-tag''
        (tag (alts (map ci [''img'', ''iframe'', ''svg'', ''object'', ''embed'', ''link'', ''meta'']))) SeverityMedium CategoryXSS,
      rule ''xss-dangerous-scheme''
        (seqs [alts (map ci [''vbscript'', ''expression'', ''data:text/html'']), blanks, one_of '':'']) SeverityHigh CategoryXSS,
      rule ''path-traversal-dotdot'' (Plus (seqs [ci ''..'', slash])) SeverityHigh CategoryPathTraversal,
      rule ''path-traversal-encoded''
        (Seq (alts [ci ''%2e%2e'', ci ''%252e%252e'']) (one_of [CHR ''%'', CHR ''2'', CHR ''f'', CHR ''5'', CHR ''c'', CHR ''/'', CHR 0x5C]))
        SeverityHigh CategoryPathTraversal,
      rule ''path-traversal-etc-passwd''
        (Seq (ci ''/etc/'') (alts (map ci [''passwd'', ''shadow'', ''hosts'', ''hostname'', ''issue'', ''group'', ''crontab''])))
        SeverityCritical CategoryPathTraversal,
      rule ''path-traversal-windows-system''
        (alts [seqs [ci ''windows'', slash, ci ''system32''], seqs [ci ''winnt'', slash, ci ''system32''], ci ''boot.ini''])
        SeverityCritical CategoryPathTraversal,
      rule ''cmdi-semicolon'' (Seq (one_of '';'') command) SeverityCritical CategoryCommandInjection,
      rule ''cmdi-pipe'' (Seq (one_of ''|'') command) SeverityCritical CategoryCommandInjection,
      rule ''cmdi-backtick''
        (seqs [one_of [CHR 0x60], Plus (Cls (\<lambda>c. c \<noteq> CHR 0x60)), one_of [CHR 0x60]]) SeverityHigh CategoryCommandInjection,
      rule ''cmdi-dollar-paren''
        (seqs [ci ''$('', Plus (Cls (\<lambda>c. c \<noteq> CHR '')'')), one_of '')'']) SeverityHigh CategoryCommandInjection,
      rule ''cmdi-logical-chain'' (Seq (alts [ci ''&&'', ci ''||'']) command) SeverityCritical CategoryCommandInjection])"

section \<open>Detections\<close>

datatype InputLocation = LocationQueryParam | LocationHeader | LocationBody

record Detection =
  de_rule :: Rule
  de_location :: InputLocation
  de_locationKey :: string
  de_matchedValue :: string

definition maxMatchedValueLen :: nat where
  "maxMatchedValueLen = 256"

text \<open>\<^const>\<open>None\<close> is the error of an empty location key; a location is never empty here.\<close>

definition NewDetection :: "Rule \<Rightarrow> InputLocation \<Rightarrow> string \<Rightarrow> string \<Rightarrow> Detection option" where
  "NewDetection rule location locationKey matchedValue =
    (if locationKey = [] then None
     else Some \<lparr>de_rule = rule, de_location = location, de_locationKey = locationKey,
                de_matchedValue = (if length matchedValue > maxMatchedValueLen then take maxMatchedValueLen matchedValue else matchedValue)\<rparr>)"

fun rs_Evaluate :: "Rule list \<Rightarrow> InputLocation \<Rightarrow> string \<Rightarrow> string \<Rightarrow> Detection list" where
  "rs_Evaluate [] location locationKey input = []"
| "rs_Evaluate (rule # rules) location locationKey input =
    (if ru_MatchString rule input then
       (case NewDetection rule location locationKey input of
          None \<Rightarrow> rs_Evaluate rules location locationKey input
        | Some d \<Rightarrow> d # rs_Evaluate rules location locationKey input)
     else rs_Evaluate rules location locationKey input)"

section \<open>Scanning a request\<close>

text \<open>A body is what can be read of it and how reading ends.\<close>

datatype body_end = BodyEOF | BodyTimeout | BodyError

record request_body =
  bd_data :: string
  bd_end :: body_end

record WafRequest = ClientRequest +
  wf_RawQuery :: string
  wf_Body :: "request_body option"

definition maxBodyBytes :: nat where
  "maxBodyBytes = 8 * 1024"

definition headersToInspect :: "string list" where
  "headersToInspect = [''Cookie'', ''Referer'', ''User-Agent'']"

text \<open>The result is the detections, or how reading the body failed, and the body the next handler
  finds: the one that came, unless reading failed, which consumes what there was.\<close>

definition ScanRequest :: "Rule list \<Rightarrow> WafRequest \<Rightarrow> (body_end + Detection list) \<times> request_body option" where
  "ScanRequest rs r =
    (let query = concat (map (\<lambda>(key, values). concat (map (rs_Evaluate rs LocationQueryParam key) values)) (fst (ParseQuery (wf_RawQuery r))));
         hdrs = concat (map (\<lambda>name. let val = hdr_Get (cr_Header r) name in
                  if val \<noteq> [] then rs_Evaluate rs LocationHeader name val else []) headersToInspect) in
     case wf_Body r of
       None \<Rightarrow> (Inr (query @ hdrs), None)
     | Some b \<Rightarrow>
         if length (bd_data b) < maxBodyBytes \<and> bd_end b \<noteq> BodyEOF then (Inl (bd_end b), Some (b\<lparr>bd_data := []\<rparr>))
         else
           let bodySnippet = take maxBodyBytes (bd_data b) in
           (Inr (query @ hdrs @ (if bodySnippet \<noteq> [] then rs_Evaluate rs LocationBody ''body'' bodySnippet else [])), Some b))"

section \<open>The middleware\<close>

record WAFConfig =
  wm_Mode :: string
  wm_EnabledCategories :: "(Category, bool) gomap"
  wm_ExemptPaths :: "string list"

datatype waf_response = WAFNext "request_body option" | WAFBlocked string | WAFRequestTimeout

datatype waf_event = WAFMetric string string | WAFAudit bool Detection string

definition category_disabled :: "WAFConfig \<Rightarrow> Detection \<Rightarrow> bool" where
  "category_disabled cfg d \<longleftrightarrow> map_of (wm_EnabledCategories cfg) (ru_category (de_rule d)) = Some False"

text \<open>The loop over the detections; the result is the rule that blocks, if one does, and the metrics
  and audit records, when these are configured (an audit record says whether it is a block).\<close>

fun waf_react :: "WAFConfig \<Rightarrow> string \<Rightarrow> bool \<Rightarrow> bool \<Rightarrow> Detection list \<Rightarrow> string option \<times> waf_event list" where
  "waf_react cfg mode mc auditLogger [] = (None, [])"
| "waf_react cfg mode mc auditLogger (d # ds) =
    (if category_disabled cfg d then waf_react cfg mode mc auditLogger ds
     else
       let metric = (if mc then [WAFMetric (ru_name (de_rule d)) mode] else []) in
       if mode = ''block'' then
         (Some (ru_name (de_rule d)), metric @ (if auditLogger then [WAFAudit True d mode] else []))
       else
         case waf_react cfg mode mc auditLogger ds of
           (res, evs) \<Rightarrow> (res, metric @ (if auditLogger then [WAFAudit False d mode] else []) @ evs))"

definition WAFMiddleware :: "Rule list \<Rightarrow> WAFConfig \<Rightarrow> bool \<Rightarrow> bool \<Rightarrow> WafRequest \<Rightarrow> waf_response \<times> waf_event list" where
  "WAFMiddleware rs cfg mc auditLogger r =
    (let mode = (if wm_Mode cfg \<noteq> ''block'' \<and> wm_Mode cfg \<noteq> ''detect'' then ''detect'' else wm_Mode cfg) in
     if path_Matches (exempt_matcher (wm_ExemptPaths cfg)) (cr_Path r) then (WAFNext (wf_Body r), [])
     else
       case ScanRequest rs r of
         (Inl BodyTimeout, body) \<Rightarrow> (WAFRequestTimeout, [])
       | (Inl _, body) \<Rightarrow> (WAFNext body, [])
       | (Inr detections, body) \<Rightarrow>
           (case waf_react cfg mode mc auditLogger detections of
              (Some name, evs) \<Rightarrow> (WAFBlocked name, evs)
            | (None, evs) \<Rightarrow> (WAFNext body, evs)))"

section \<open>The handler\<close>

record WAFEngineHandlerConfig =
  we_Mode :: string
  we_SQLInjection :: bool
  we_XSS :: bool
  we_PathTraversal :: bool
  we_CmdInjection :: bool
  we_ExemptPaths :: "string list"

definition buildEnabledCategories :: "WAFEngineHandlerConfig \<Rightarrow> (Category, bool) gomap" where
  "buildEnabledCategories cfg =
    [(CategorySQLInjection, we_SQLInjection cfg), (CategoryXSS, we_XSS cfg),
     (CategoryPathTraversal, we_PathTraversal cfg), (CategoryCommandInjection, we_CmdInjection cfg)]"

definition buildEnabledRules :: "WAFEngineHandlerConfig \<Rightarrow> Rule list" where
  "buildEnabledRules cfg =
    (let selected = filter (\<lambda>rule. map_of (buildEnabledCategories cfg) (ru_category rule) = Some True) BuiltinRules in
     if length selected = 0 then BuiltinRules else selected)"

definition wafe_ServeHTTP :: "WAFEngineHandlerConfig \<Rightarrow> WafRequest \<Rightarrow> waf_response \<times> waf_event list" where
  "wafe_ServeHTTP cfg r =
    WAFMiddleware (buildEnabledRules cfg)
      \<lparr>wm_Mode = (if we_Mode cfg = [] then ''detect'' else we_Mode cfg), wm_EnabledCategories = buildEnabledCategories cfg,
       wm_ExemptPaths = we_ExemptPaths cfg\<rparr> False False r"

section \<open>What is inspected\<close>

definition inspected :: "WafRequest \<Rightarrow> (InputLocation \<times> string \<times> string) list" where
  "inspected r =
    concat (map (\<lambda>(key, values). map (\<lambda>v. (LocationQueryParam, key, v)) values) (fst (ParseQuery (wf_RawQuery r)))) @
    concat (map (\<lambda>name. if hdr_Get (cr_Header r) name \<noteq> [] then [(LocationHeader, name, hdr_Get (cr_Header r) name)] else []) headersToInspect) @
    (case wf_Body r of
       None \<Rightarrow> []
     | Some b \<Rightarrow> if bd_data b \<noteq> [] then [(LocationBody, ''body'', take maxBodyBytes (bd_data b))] else [])"

definition readable :: "WafRequest \<Rightarrow> bool" where
  "readable r \<longleftrightarrow> (case wf_Body r of None \<Rightarrow> True | Some b \<Rightarrow> maxBodyBytes \<le> length (bd_data b) \<or> bd_end b = BodyEOF)"

fun category_on :: "WAFEngineHandlerConfig \<Rightarrow> Category \<Rightarrow> bool" where
  "category_on cfg CategorySQLInjection = we_SQLInjection cfg"
| "category_on cfg CategoryXSS = we_XSS cfg"
| "category_on cfg CategoryPathTraversal = we_PathTraversal cfg"
| "category_on cfg CategoryCommandInjection = we_CmdInjection cfg"

lemma Evaluate_empty_key [simp]: "rs_Evaluate rs loc [] input = []"
  by (induction rs) (auto simp: NewDetection_def)

lemma Evaluate_rules:
  "key \<noteq> [] \<Longrightarrow> de_rule ` set (rs_Evaluate rs loc key input) = {rule \<in> set rs. ru_MatchString rule input}"
  by (induction rs) (auto simp: NewDetection_def)

lemma Evaluate_rule_iff:
  "(\<exists>d\<in>set (rs_Evaluate rs loc key input). P (de_rule d)) \<longleftrightarrow> key \<noteq> [] \<and> (\<exists>rule\<in>set rs. ru_MatchString rule input \<and> P rule)"
proof (cases "key = []")
  case False
  have "(\<exists>d\<in>set (rs_Evaluate rs loc key input). P (de_rule d)) \<longleftrightarrow> (\<exists>rule\<in>de_rule ` set (rs_Evaluate rs loc key input). P rule)"
    by blast
  with Evaluate_rules [OF False, of rs loc input] False show ?thesis by auto
qed simp

lemma ScanRequest_readable:
  assumes "readable r"
  shows "ScanRequest rs r = (Inr (concat (map (\<lambda>(loc, key, input). rs_Evaluate rs loc key input) (inspected r))), wf_Body r)"
proof -
  have q: "concat (map (\<lambda>(loc, key, input). rs_Evaluate rs loc key input)
        (concat (map (\<lambda>(key, values). map (\<lambda>v. (LocationQueryParam, key, v)) values) m))) =
      concat (map (\<lambda>(key, values). concat (map (rs_Evaluate rs LocationQueryParam key) values)) m)" for m
    by (induction m) (auto simp: o_def)
  have h: "concat (map (\<lambda>(loc, key, input). rs_Evaluate rs loc key input)
        (concat (map (\<lambda>name. if f name \<noteq> [] then [(LocationHeader, name, f name)] else []) names))) =
      concat (map (\<lambda>name. if f name \<noteq> [] then rs_Evaluate rs LocationHeader name (f name) else []) names)" for f names
    by (induction names) auto
  have n: "maxBodyBytes \<noteq> 0" by (simp add: maxBodyBytes_def)
  show ?thesis
    using assms q [of "fst (ParseQuery (wf_RawQuery r))"] h [of "hdr_Get (cr_Header r)" headersToInspect]
    by (auto simp: ScanRequest_def inspected_def readable_def n Let_def split: option.splits)
qed

lemma waf_react_block:
  "fst (waf_react cfg ''block'' mc al ds) = map_option (\<lambda>d. ru_name (de_rule d)) (find (\<lambda>d. \<not> category_disabled cfg d) ds)"
  by (induction ds) (auto simp: Let_def)

lemma waf_react_SomeD: "waf_react cfg mode mc al ds = (Some name, evs) \<Longrightarrow> mode = ''block''"
  by (induction ds arbitrary: evs) (auto simp: Let_def split: prod.splits if_splits)

text \<open>A request an enabled built-in rule objects to, in a place with a name.\<close>

definition objectionable :: "WAFEngineHandlerConfig \<Rightarrow> WafRequest \<Rightarrow> bool" where
  "objectionable cfg r \<longleftrightarrow>
    (\<exists>(loc, key, input)\<in>set (inspected r). key \<noteq> [] \<and>
      (\<exists>rule\<in>set BuiltinRules. category_on cfg (ru_category rule) \<and> ru_MatchString rule input))"

lemma enabled_category: "map_of (buildEnabledCategories cfg) c = Some (category_on cfg c)"
  by (cases c) (simp_all add: buildEnabledCategories_def)

lemma enabled_rules:
  "(\<exists>rule\<in>set (buildEnabledRules cfg). P rule \<and> category_on cfg (ru_category rule)) \<longleftrightarrow>
   (\<exists>rule\<in>set BuiltinRules. P rule \<and> category_on cfg (ru_category rule))"
  by (auto simp: buildEnabledRules_def enabled_category Let_def filter_empty_conv)

lemma objection_detected:
  "(\<exists>d\<in>set (concat (map (\<lambda>(loc, key, input). rs_Evaluate (buildEnabledRules cfg) loc key input) (inspected r))).
      category_on cfg (ru_category (de_rule d))) \<longleftrightarrow> objectionable cfg r"
proof -
  have "(\<exists>d\<in>set (concat (map (\<lambda>(loc, key, input). rs_Evaluate (buildEnabledRules cfg) loc key input) (inspected r))).
      category_on cfg (ru_category (de_rule d))) \<longleftrightarrow>
    (\<exists>(loc, key, input)\<in>set (inspected r). \<exists>d\<in>set (rs_Evaluate (buildEnabledRules cfg) loc key input).
      category_on cfg (ru_category (de_rule d)))" by fastforce
  also have "\<dots> \<longleftrightarrow> (\<exists>(loc, key, input)\<in>set (inspected r). key \<noteq> [] \<and>
      (\<exists>rule\<in>set (buildEnabledRules cfg). ru_MatchString rule input \<and> category_on cfg (ru_category rule)))"
    by (simp add: Evaluate_rule_iff [of _ _ _ _ "\<lambda>rule. category_on cfg (ru_category rule)"])
  also have "\<dots> \<longleftrightarrow> objectionable cfg r"
    unfolding objectionable_def enabled_rules [of cfg "\<lambda>rule. ru_MatchString rule _"] by (simp add: conj_commute)
  finally show ?thesis .
qed

lemma waf_decision:
  assumes "readable r"
  shows "(\<exists>name. fst (wafe_ServeHTTP cfg r) = WAFBlocked name) \<longleftrightarrow>
    we_Mode cfg = ''block'' \<and> \<not> exempt_path (we_ExemptPaths cfg) (cr_Path r) \<and> objectionable cfg r"
proof -
  let ?ds = "concat (map (\<lambda>(loc, key, input). rs_Evaluate (buildEnabledRules cfg) loc key input) (inspected r))"
  let ?cfg = "\<lparr>wm_Mode = ''block'', wm_EnabledCategories = buildEnabledCategories cfg, wm_ExemptPaths = we_ExemptPaths cfg\<rparr>"
  have dis: "\<not> category_disabled ?cfg d \<longleftrightarrow> category_on cfg (ru_category (de_rule d))" for d
    by (simp add: category_disabled_def enabled_category)
  have "find (\<lambda>d. \<not> category_disabled ?cfg d) ?ds \<noteq> None \<longleftrightarrow> objectionable cfg r"
    unfolding find_None_iff dis using objection_detected [of cfg r] by blast
  then have react: "(\<exists>name. fst (waf_react ?cfg ''block'' False False ?ds) = Some name) \<longleftrightarrow> objectionable cfg r"
    unfolding waf_react_block by auto
  show ?thesis
  proof (cases "we_Mode cfg = ''block''")
    case True
    with react show ?thesis
      by (auto simp: wafe_ServeHTTP_def WAFMiddleware_def ScanRequest_readable [OF assms] exempt_matcher_iff Let_def split: prod.splits option.splits)
  next
    case False
    then show ?thesis
      by (auto simp: wafe_ServeHTTP_def WAFMiddleware_def ScanRequest_readable [OF assms] Let_def
          split: prod.splits option.splits dest!: waf_react_SomeD)
  qed
qed

section \<open>Attacks the built-in rules find\<close>

lemma MatchString_middle: "(\<And>p. re_match r (p, m @ b) \<noteq> []) \<Longrightarrow> MatchString r (a @ m @ b)"
  by (rule MatchString_inside)

lemma nonemptyI: "x \<in> set xs \<Longrightarrow> xs \<noteq> []"
  by auto

lemma Plus_nonempty:
  assumes "re_match a st \<noteq> []"
  shows "re_match (Plus a) st \<noteq> []"
proof -
  from assms obtain y where "y \<in> set (re_match a st)" using hd_in_set by blast
  then have "y \<in> set (re_match (Plus a) st)" unfolding Plus_def re_match_Seq using re_match_Rep_self by blast
  then show ?thesis by (rule nonemptyI)
qed

lemma rule_found:
  "MatchString pat input \<Longrightarrow>
   \<lparr>ru_name = name, ru_pattern = pat, ru_severity = sev, ru_category = cat\<rparr> \<in> set BuiltinRules \<Longrightarrow>
   \<exists>rule\<in>set BuiltinRules. ru_category rule = cat \<and> ru_MatchString rule input"
  unfolding ru_MatchString_def by (metis Rule.select_convs(2,4))

lemma traversal_found:
  assumes "s = CHR ''/'' \<or> s = CHR 0x5C"
  shows "\<exists>rule\<in>set BuiltinRules. ru_category rule = CategoryPathTraversal \<and> ru_MatchString rule (a @ ''..'' @ s # b)"
proof -
  let ?r = "Plus (seqs [ci ''..'', one_of [CHR 0x5C, CHR ''/'']])"
  have "re_match (seqs [ci ''..'', one_of [CHR 0x5C, CHR ''/'']]) (p, (''..'' @ [s]) @ b) \<noteq> []" for p
    using assms by (auto simp: ci_char_def one_of_def Let_def)
  then have "MatchString ?r (a @ (''..'' @ [s]) @ b)" by (intro MatchString_middle Plus_nonempty)
  moreover have "\<lparr>ru_name = ''path-traversal-dotdot'', ru_pattern = ?r, ru_severity = SeverityHigh, ru_category = CategoryPathTraversal\<rparr> \<in> set BuiltinRules"
    by (simp add: BuiltinRules_def Let_def)
  ultimately show ?thesis using rule_found by simp
qed

lemma union_select_found:
  assumes "ToLower u = ToLower ''union''" "ToLower t = ToLower ''select''" "re_blank c \<or> c \<in> set ''+/*''"
  shows "\<exists>rule\<in>set BuiltinRules. ru_category rule = CategorySQLInjection \<and> ru_MatchString rule (a @ (u @ c # t) @ b)"
proof -
  let ?f = "Plus (Alt (Cls re_blank) (one_of ''+/*''))"
  let ?r = "seqs [ci ''union'', ?f, ci ''select'']"
  have "re_match ?r (p, (u @ c # t) @ b) \<noteq> []" for p
  proof -
    obtain q where q: "(q, c # t @ b) \<in> set (re_match (ci ''union'') (p, u @ c # t @ b))" using ci_match [OF assms(1)] by blast
    have "(Some c, t @ b) \<in> set (re_match (Alt (Cls re_blank) (one_of ''+/*'')) (q, c # t @ b))"
      using assms(3) by (auto simp: one_of_def)
    then have f: "(Some c, t @ b) \<in> set (re_match ?f (q, c # t @ b))"
      unfolding Plus_def re_match_Seq using re_match_Rep_self by blast
    obtain q' where "(q', b) \<in> set (re_match (ci ''select'') (Some c, t @ b))" using ci_match [OF assms(2)] by blast
    then have "re_match (ci ''select'') (Some c, t @ b) \<noteq> []" by (rule nonemptyI)
    then have "re_match (seqs [?f, ci ''select'']) (q, c # t @ b) \<noteq> []"
      using re_match_Seq_nonempty [OF f] by (simp del: re_match.simps ci.simps)
    then show ?thesis using re_match_Seq_nonempty [OF q] by (simp del: re_match.simps ci.simps)
  qed
  then have "MatchString ?r (a @ (u @ c # t) @ b)" by (rule MatchString_middle)
  moreover have "\<lparr>ru_name = ''sqli-union-select'', ru_pattern = ?r, ru_severity = SeverityCritical, ru_category = CategorySQLInjection\<rparr> \<in> set BuiltinRules"
    by (simp add: BuiltinRules_def Let_def)
  ultimately show ?thesis by (rule rule_found)
qed

lemma script_tag_found:
  assumes "ToLower s = ToLower ''script''"
  shows "\<exists>rule\<in>set BuiltinRules. ru_category rule = CategoryXSS \<and> ru_MatchString rule (a @ (''<'' @ s @ mid @ ''>'') @ b)"
proof -
  let ?r = "seqs [one_of ''<'', blanks, ci ''script'', Rep any_char, one_of ''>'']"
  have "re_match ?r (p, (''<'' @ s @ mid @ ''>'') @ b) \<noteq> []" for p
  proof -
    let ?s2 = "s @ mid @ ''>'' @ b"
    have lt: "(Some CHR ''<'', ?s2) \<in> set (re_match (one_of ''<'') (p, CHR ''<'' # ?s2))" by (simp add: one_of_def)
    have bl: "(Some CHR ''<'', ?s2) \<in> set (re_match blanks (Some CHR ''<'', ?s2))"
      unfolding blanks_def by (rule re_match_Rep_self)
    obtain q where sc: "(q, mid @ ''>'' @ b) \<in> set (re_match (ci ''script'') (Some CHR ''<'', ?s2))" using ci_match [OF assms] by blast
    obtain q' where an: "(q', ''>'' @ b) \<in> set (re_match (Rep any_char) (q, mid @ ''>'' @ b))" using re_match_any by blast
    have "re_match (one_of ''>'') (q', ''>'' @ b) \<noteq> []" by (simp add: one_of_def)
    then have "re_match (seqs [Rep any_char, one_of ''>'']) (q, mid @ ''>'' @ b) \<noteq> []"
      using re_match_Seq_nonempty [OF an] by (simp del: re_match.simps append_Cons)
    then have "re_match (seqs [ci ''script'', Rep any_char, one_of ''>'']) (Some CHR ''<'', ?s2) \<noteq> []"
      using re_match_Seq_nonempty [OF sc] by (simp del: re_match.simps ci.simps append_Cons)
    then have "re_match (seqs [blanks, ci ''script'', Rep any_char, one_of ''>'']) (Some CHR ''<'', ?s2) \<noteq> []"
      using re_match_Seq_nonempty [OF bl] by (simp del: re_match.simps ci.simps append_Cons)
    then have "re_match ?r (p, CHR ''<'' # ?s2) \<noteq> []"
      using re_match_Seq_nonempty [OF lt] by (simp del: re_match.simps ci.simps append_Cons)
    then show ?thesis by simp
  qed
  then have "MatchString ?r (a @ (''<'' @ s @ mid @ ''>'') @ b)" by (rule MatchString_middle)
  moreover have "\<lparr>ru_name = ''xss-script-tag'', ru_pattern = ?r, ru_severity = SeverityCritical, ru_category = CategoryXSS\<rparr> \<in> set BuiltinRules"
    by (simp add: BuiltinRules_def Let_def)
  ultimately show ?thesis by (rule rule_found)
qed

lemma found_enabled:
  "\<exists>rule\<in>set BuiltinRules. ru_category rule = c \<and> ru_MatchString rule input \<Longrightarrow> category_on cfg c \<Longrightarrow>
   \<exists>rule\<in>set BuiltinRules. category_on cfg (ru_category rule) \<and> ru_MatchString rule input"
  by metis

section \<open>Properties\<close>

text \<open>C27: What the firewall blocks: in blocking mode, off the exempt paths, a request whose body can be read
  is blocked exactly when a built-in rule of an enabled category matches one of the inspected texts,
  that is a query value of a named parameter, the first value of one of the three headers, or the
  first 8 KiB of the body. In any other mode nothing is blocked.\<close>

theorem waf_blocks_exactly:
  assumes "readable r"
  shows "(\<exists>name. fst (wafe_ServeHTTP cfg r) = WAFBlocked name) \<longleftrightarrow>
    we_Mode cfg = ''block'' \<and> \<not> exempt_path (we_ExemptPaths cfg) (cr_Path r) \<and>
    (\<exists>(loc, key, input)\<in>set (inspected r). key \<noteq> [] \<and>
      (\<exists>rule\<in>set BuiltinRules. category_on cfg (ru_category rule) \<and> MatchString (ru_pattern rule) input))"
  using waf_decision [OF assms, of cfg] by (simp add: objectionable_def ru_MatchString_def)

theorem waf_blocks_exactly_witness:
  "let cfg = \<lparr>we_Mode = ''block'', we_SQLInjection = True, we_XSS = True, we_PathTraversal = True, we_CmdInjection = True, we_ExemptPaths = []\<rparr>;
       r = \<lparr>cr_Method = ''GET'', cr_Path = ''/q'', cr_Header = [], cr_RemoteAddr = ''10.0.0.9:1'', wf_RawQuery = ''f=..%2Fx'', wf_Body = None\<rparr> in
   \<exists>name. fst (wafe_ServeHTTP cfg r) = WAFBlocked name"
proof -
  let ?cfg = "\<lparr>we_Mode = ''block'', we_SQLInjection = True, we_XSS = True, we_PathTraversal = True, we_CmdInjection = True, we_ExemptPaths = []\<rparr>"
  let ?r = "\<lparr>cr_Method = ''GET'', cr_Path = ''/q'', cr_Header = [], cr_RemoteAddr = ''10.0.0.9:1'', wf_RawQuery = ''f=..%2Fx'', wf_Body = None\<rparr>"
  have rd: "readable ?r" by (simp add: readable_def)
  have "fst (ParseQuery ''f=..%2Fx'') = [(''f'', [''../x''])]" by code_simp
  then have "(LocationQueryParam, ''f'', ''../x'') \<in> set (inspected ?r)" by (simp add: inspected_def)
  moreover have "\<exists>rule\<in>set BuiltinRules. category_on ?cfg (ru_category rule) \<and> MatchString (ru_pattern rule) ''../x''"
    using found_enabled [OF traversal_found [of "CHR ''/''" "[]" "''x''"], of ?cfg] by (simp add: ru_MatchString_def)
  ultimately have "\<exists>(loc, key, input)\<in>set (inspected ?r). key \<noteq> [] \<and>
      (\<exists>rule\<in>set BuiltinRules. category_on ?cfg (ru_category rule) \<and> MatchString (ru_pattern rule) input)"
    by (intro bexI [of _ "(LocationQueryParam, ''f'', ''../x'')"]) simp_all
  with waf_blocks_exactly [OF rd, of ?cfg] show ?thesis unfolding Let_def by (simp add: exempt_path_def)
qed

text \<open>C28: Attacks that are always caught where the firewall looks: a step to the parent directory, UNION
  SELECT in any case with a separator between the words, and a script tag in any case with anything
  inside, whatever stands before and after, are matched by an enabled built-in rule.\<close>

theorem waf_catches_classics:
  assumes "readable r" "we_Mode cfg = ''block''" "\<not> exempt_path (we_ExemptPaths cfg) (cr_Path r)"
    and "(loc, key, a @ m @ b) \<in> set (inspected r)" "key \<noteq> []"
    and "we_PathTraversal cfg \<and> (m = ''../'' \<or> m = ''..'' @ [CHR 0x5C]) \<or>
      we_SQLInjection cfg \<and> (\<exists>u c t. m = u @ c # t \<and> ToLower u = ''union'' \<and> ToLower t = ''select'' \<and> (re_blank c \<or> c \<in> set ''+/*'')) \<or>
      we_XSS cfg \<and> (\<exists>s mid. m = ''<'' @ s @ mid @ ''>'' \<and> ToLower s = ''script'')"
  shows "\<exists>name. fst (wafe_ServeHTTP cfg r) = WAFBlocked name"
proof -
  have low: "ToLower ''union'' = ''union''" "ToLower ''select'' = ''select''" "ToLower ''script'' = ''script''"
    by (simp_all add: ToLower_def lower_char_def)
  have "\<exists>rule\<in>set BuiltinRules. category_on cfg (ru_category rule) \<and> ru_MatchString rule (a @ m @ b)"
  proof -
    consider "we_PathTraversal cfg" "m = ''../''" | "we_PathTraversal cfg" "m = ''..'' @ [CHR 0x5C]"
      | u c t where "we_SQLInjection cfg" "m = u @ c # t" "ToLower u = ''union''" "ToLower t = ''select''" "re_blank c \<or> c \<in> set ''+/*''"
      | s mid where "we_XSS cfg" "m = ''<'' @ s @ mid @ ''>''" "ToLower s = ''script''"
      using assms(6) by blast
    then show ?thesis
    proof cases
      case 1
      then show ?thesis using found_enabled [OF traversal_found [of "CHR ''/''" a b], of cfg] by simp
    next
      case 2
      then show ?thesis using found_enabled [OF traversal_found [of "CHR 0x5C" a b], of cfg] by simp
    next
      case 3
      then show ?thesis using found_enabled [OF union_select_found [of u t c a b], of cfg] low by simp
    next
      case 4
      then show ?thesis using found_enabled [OF script_tag_found [of s a mid b], of cfg] low by simp
    qed
  qed
  with assms(4,5) have "objectionable cfg r" unfolding objectionable_def by blast
  with waf_decision [OF assms(1), of cfg] assms(2,3) show ?thesis by simp
qed

theorem waf_catches_classics_witness:
  "let cfg = \<lparr>we_Mode = ''block'', we_SQLInjection = True, we_XSS = False, we_PathTraversal = False, we_CmdInjection = False, we_ExemptPaths = []\<rparr>;
       r = \<lparr>cr_Method = ''POST'', cr_Path = ''/q'', cr_Header = [], cr_RemoteAddr = ''10.0.0.9:1'', wf_RawQuery = [],
            wf_Body = Some \<lparr>bd_data = ''x UnIoN/SELECT y'', bd_end = BodyEOF\<rparr>\<rparr> in
   \<exists>name. fst (wafe_ServeHTTP cfg r) = WAFBlocked name"
proof -
  let ?cfg = "\<lparr>we_Mode = ''block'', we_SQLInjection = True, we_XSS = False, we_PathTraversal = False, we_CmdInjection = False, we_ExemptPaths = []\<rparr>"
  let ?r = "\<lparr>cr_Method = ''POST'', cr_Path = ''/q'', cr_Header = [], cr_RemoteAddr = ''10.0.0.9:1'', wf_RawQuery = [],
            wf_Body = Some \<lparr>bd_data = ''x UnIoN/SELECT y'', bd_end = BodyEOF\<rparr>\<rparr>"
  have "(LocationBody, ''body'', ''x '' @ ''UnIoN/SELECT'' @ '' y'') \<in> set (inspected ?r)"
    by (simp add: inspected_def maxBodyBytes_def)
  moreover have "\<exists>u c t. ''UnIoN/SELECT'' = u @ c # t \<and> ToLower u = ''union'' \<and> ToLower t = ''select'' \<and> (re_blank c \<or> c \<in> set ''+/*'')"
  proof -
    have "ToLower ''UnIoN'' = ''union''" "ToLower ''SELECT'' = ''select''" by code_simp+
    then show ?thesis
      by - (rule exI [of _ "''UnIoN''"], rule exI [of _ "CHR ''/''"], rule exI [of _ "''SELECT''"], simp)
  qed
  ultimately show ?thesis
    using waf_catches_classics [of ?r ?cfg LocationBody "''body''" "''x ''" "''UnIoN/SELECT''" "'' y''"]
    unfolding Let_def by (simp add: readable_def exempt_path_def)
qed

text \<open>Three ways past the firewall, for every configuration: a payload under the empty parameter name is
  never reported; a body whose reading fails before 8 KiB sends the request on whatever its query and
  headers hold; and only the first value of a header is looked at.\<close>

theorem waf_blind_spots:
  "fst (wafe_ServeHTTP cfg (r\<lparr>wf_RawQuery := ''=<script>alert(1)</script>'', cr_Header := [], wf_Body := None\<rparr>)) = WAFNext None \<and>
   fst (wafe_ServeHTTP cfg (r\<lparr>wf_Body := Some \<lparr>bd_data = ''x'', bd_end = BodyError\<rparr>\<rparr>)) \<in>
    {WAFNext (Some \<lparr>bd_data = [], bd_end = BodyError\<rparr>), WAFNext (Some \<lparr>bd_data = ''x'', bd_end = BodyError\<rparr>)} \<and>
   ScanRequest rs (r\<lparr>cr_Header := [(''User-Agent'', v # vs)]\<rparr>) = ScanRequest rs (r\<lparr>cr_Header := [(''User-Agent'', [v])]\<rparr>)"
proof (intro conjI)
  have "fst (ParseQuery ''=<script>alert(1)</script>'') = [([], [''<script>alert(1)</script>''])]" by code_simp
  then have "ScanRequest rs (r\<lparr>wf_RawQuery := ''=<script>alert(1)</script>'', cr_Header := [], wf_Body := None\<rparr>) = (Inr [], None)" for rs
    by (simp add: ScanRequest_def hdr_Get_def hdr_Values_def headersToInspect_def)
  then show "fst (wafe_ServeHTTP cfg (r\<lparr>wf_RawQuery := ''=<script>alert(1)</script>'', cr_Header := [], wf_Body := None\<rparr>)) = WAFNext None"
    by (simp add: wafe_ServeHTTP_def WAFMiddleware_def)
  show "fst (wafe_ServeHTTP cfg (r\<lparr>wf_Body := Some \<lparr>bd_data = ''x'', bd_end = BodyError\<rparr>\<rparr>)) \<in>
    {WAFNext (Some \<lparr>bd_data = [], bd_end = BodyError\<rparr>), WAFNext (Some \<lparr>bd_data = ''x'', bd_end = BodyError\<rparr>)}"
    by (simp add: wafe_ServeHTTP_def WAFMiddleware_def ScanRequest_def maxBodyBytes_def Let_def)
  have "hdr_Get [(''User-Agent'', v # vs)] = hdr_Get [(''User-Agent'', [v])]"
    by (simp add: fun_eq_iff hdr_Get_def hdr_Values_def)
  then show "ScanRequest rs (r\<lparr>cr_Header := [(''User-Agent'', v # vs)]\<rparr>) = ScanRequest rs (r\<lparr>cr_Header := [(''User-Agent'', [v])]\<rparr>)"
    by (simp add: ScanRequest_def)
qed

end
