(* ===== verification/Identity.thy ===== *)
theory Identity
  imports Complex_Main IpFilter ExemptPaths
begin

text \<open>Authenticated identities (\<^verbatim>\<open>internal/domain/identity\<close>) and the authentication middleware over
  the identity provider port (\<^verbatim>\<open>internal/middleware/auth.go\<close>, \<^verbatim>\<open>internal/ports/identity.go\<close>).\<close>

section \<open>Claims\<close>

text \<open>A JSON value as the decoder leaves it in an \<^verbatim>\<open>any\<close>; a finite number is the rational it denotes.
  \<^verbatim>\<open>v, ok := claims[k].(string)\<close> is \<open>claim_string\<close>, \<^verbatim>\<open>.(bool)\<close> is \<open>claim_bool\<close>.\<close>

datatype claim =
    ClaimNull
  | ClaimBool bool
  | ClaimNumber rat
  | ClaimString string
  | ClaimList "claim list"
  | ClaimObject "(string \<times> claim) list"

type_synonym claims = "(string, claim) gomap"

definition claim_string :: "claims \<Rightarrow> string \<Rightarrow> string option" where
  "claim_string cs k = (case map_of cs k of Some (ClaimString s) \<Rightarrow> Some s | _ \<Rightarrow> None)"

definition claim_bool :: "claims \<Rightarrow> string \<Rightarrow> bool option" where
  "claim_bool cs k = (case map_of cs k of Some (ClaimBool b) \<Rightarrow> Some b | _ \<Rightarrow> None)"

section \<open>Roles\<close>

record Role =
  role_value :: string

definition validRoles :: "string list" where
  "validRoles = [''user'', ''admin'', ''moderator'']"

definition NewRole :: "string \<Rightarrow> string + Role" where
  "NewRole s = (if s \<notin> set validRoles then Inl s else Inr \<lparr>role_value = s\<rparr>)"

definition DefaultRole :: Role where
  "DefaultRole = \<lparr>role_value = ''user''\<rparr>"

definition role_IsZero :: "Role \<Rightarrow> bool" where
  "role_IsZero r \<longleftrightarrow> role_value r = []"

section \<open>Identities\<close>

record Identity =
  id_id :: string
  id_email :: string
  id_emailVerified :: bool
  id_provider :: string
  id_claims :: claims

datatype identity_error = IdentityIDEmpty | IdentityProviderEmpty | InvalidEmailFormat

definition NewIdentity :: "string \<Rightarrow> string \<Rightarrow> string \<Rightarrow> bool \<Rightarrow> claims \<Rightarrow> identity_error + Identity" where
  "NewIdentity i email provider emailVerified cs =
    (if i = [] then Inl IdentityIDEmpty
     else if provider = [] then Inl IdentityProviderEmpty
     else if email \<noteq> [] \<and> \<not> Contains email ''@'' then Inl InvalidEmailFormat
     else Inr \<lparr>id_id = i, id_email = email, id_emailVerified = emailVerified, id_provider = provider, id_claims = cs\<rparr>)"

definition zero_identity :: Identity where
  "zero_identity = \<lparr>id_id = [], id_email = [], id_emailVerified = False, id_provider = [], id_claims = []\<rparr>"

definition id_IsZero :: "Identity \<Rightarrow> bool" where
  "id_IsZero i \<longleftrightarrow> id_id i = []"

definition id_Role :: "Identity \<Rightarrow> Role" where
  "id_Role i =
    (case claim_string (id_claims i) ''role'' of
       None \<Rightarrow> DefaultRole
     | Some s \<Rightarrow> (case NewRole s of Inr r \<Rightarrow> r | Inl _ \<Rightarrow> DefaultRole))"

record SessionInfo =
  si_id :: string
  si_email :: string
  si_verified :: bool
  si_role :: Role

datatype session_info_error = SessionInfoIDEmpty | SessionInfoRoleZero

definition NewSessionInfo :: "string \<Rightarrow> string \<Rightarrow> bool \<Rightarrow> Role \<Rightarrow> session_info_error + SessionInfo" where
  "NewSessionInfo i email verified role =
    (if i = [] then Inl SessionInfoIDEmpty
     else if role_IsZero role then Inl SessionInfoRoleZero
     else Inr \<lparr>si_id = i, si_email = email, si_verified = verified, si_role = role\<rparr>)"

section \<open>Results of an authentication attempt\<close>

record AuthResult =
  ar_Identity :: Identity
  ar_Authenticated :: bool
  ar_Reason :: string
  ar_Message :: string

definition Success :: "Identity \<Rightarrow> AuthResult" where
  "Success i = \<lparr>ar_Identity = i, ar_Authenticated = True, ar_Reason = [], ar_Message = []\<rparr>"

definition Failure :: "string \<Rightarrow> string \<Rightarrow> AuthResult" where
  "Failure reason message =
    \<lparr>ar_Identity = zero_identity, ar_Authenticated = False, ar_Reason = reason, ar_Message = message\<rparr>"

text \<open>The context value an earlier middleware left behind.\<close>

definition IdentityFromContext :: "Identity option \<Rightarrow> Identity option" where
  "IdentityFromContext ctx = (case ctx of Some i \<Rightarrow> if id_IsZero i then None else Some i | None \<Rightarrow> None)"

section \<open>The middleware\<close>

definition has_user_prefix :: "string \<Rightarrow> bool" where
  "has_user_prefix k \<longleftrightarrow> prefix ''x-user-'' (ToLower k)"

definition stripXUserHeaders :: "header \<Rightarrow> header" where
  "stripXUserHeaders h = fold (\<lambda>k acc. if has_user_prefix k then hdr_Del k acc else acc) (gomap_keys h) h"

record AuthConfig =
  ac_KratosPublicURL :: string
  ac_LoginURL :: string
  ac_PublicPaths :: "string list"

definition public_matcher :: "string list \<Rightarrow> string list" where
  "public_matcher patterns =
    (case NewPublicPathMatcher patterns of
       Inr m \<Rightarrow> m
     | Inl _ \<Rightarrow> (case NewPublicPathMatcher [] of Inr m \<Rightarrow> m | Inl _ \<Rightarrow> []))"

datatype auth_event =
    AuthSucceeded string string
  | AuthFailed string string
  | ProviderUnavailable string string
  | ProviderRecovered string
  | AuditSucceeded string string
  | AuditFailed string

datatype auth_response =
    AuthNext ClientRequest "Identity option"
  | AuthRedirect string
  | AuthUnavailable

text \<open>\<open>provider\<close> answers \<^verbatim>\<open>Authenticate\<close> for this request, \<open>unavailable\<close> is the availability flag the
  requests share; its compare-and-swap and the emission it guards are one step here.\<close>

definition AuthMiddleware ::
    "(ClientRequest \<Rightarrow> AuthResult) \<Rightarrow> AuthConfig \<Rightarrow> bool \<Rightarrow> bool \<Rightarrow> ClientRequest \<Rightarrow> bool \<Rightarrow>
     auth_response \<times> auth_event list \<times> bool" where
  "AuthMiddleware provider cfg eventLogger auditLogger r unavailable =
    (let loginURL = (if ac_LoginURL cfg = [] then ''/self-service/login/browser'' else ac_LoginURL cfg);
         ev = (\<lambda>e. if eventLogger then [e] else []);
         audit = (\<lambda>e. if auditLogger then [e] else []);
         r1 = r\<lparr>cr_Header := stripXUserHeaders (cr_Header r)\<rparr> in
     if path_Matches (public_matcher (ac_PublicPaths cfg)) (cr_Path r1) then (AuthNext r1 None, [], unavailable)
     else
       let result = provider r1;
           recovered = (if unavailable then ev (ProviderRecovered (ac_KratosPublicURL cfg)) else []) in
       if \<not> ar_Authenticated result then
         (if ar_Reason result \<in> {''no_credentials'', ''session_not_found'', ''session_invalid''} then
            (AuthRedirect loginURL,
             recovered @ ev (AuthFailed (ar_Message result) []) @ audit (AuditFailed (ar_Message result)), False)
          else if ar_Reason result = ''provider_unavailable'' then
            (AuthUnavailable,
             (if \<not> unavailable then ev (ProviderUnavailable (ac_KratosPublicURL cfg) (ar_Message result)) else []) @
               ev (AuthFailed ''auth provider unavailable'' (ar_Message result)) @
               audit (AuditFailed ''auth provider unavailable''),
             True)
          else
            (AuthUnavailable,
             ev (AuthFailed ''unexpected auth error'' (ar_Message result)) @ audit (AuditFailed ''unexpected auth error''),
             unavailable))
       else
         (AuthNext r1 (Some (ar_Identity result)),
          recovered @ ev (AuthSucceeded (id_id (ar_Identity result)) (id_email (ar_Identity result))) @
            audit (AuditSucceeded (id_id (ar_Identity result)) (id_email (ar_Identity result))),
          False))"

section \<open>Lemmas\<close>

lemma claim_string_update [simp]:
  "claim_string (AList.update k (ClaimString s) cs) k' = (if k = k' then Some s else claim_string cs k')"
  by (simp add: claim_string_def)

lemma NewRole_valid: "NewRole s = Inr r \<Longrightarrow> role_value r \<in> set validRoles"
  by (auto simp: NewRole_def split: if_splits)

lemma DefaultRole_valid [simp]: "role_value DefaultRole \<in> set validRoles"
  by (simp add: DefaultRole_def validRoles_def)

lemma id_Role_valid: "role_value (id_Role i) \<in> set validRoles"
  by (auto simp: id_Role_def dest: NewRole_valid split: option.split sum.split)

lemma NewPublicPathMatcher_exempt: "NewPublicPathMatcher = NewExemptPathMatcher"
  by (rule ext) (simp only: NewPublicPathMatcher_def NewExemptPathMatcher_def exemptVibewardenPrefix_def)

lemma public_matcher_exempt: "public_matcher = exempt_matcher"
  by (rule ext) (simp only: public_matcher_def exempt_matcher_def NewPublicPathMatcher_exempt)

lemma map_of_strip_fold:
  "\<forall>k\<in>set ks. CanonicalHeaderKey k = k \<Longrightarrow>
   map_of (fold (\<lambda>k acc. if has_user_prefix k then hdr_Del k acc else acc) ks h) x =
     (if x \<in> set ks \<and> has_user_prefix x then None else map_of h x)"
  by (induction ks arbitrary: h) (auto simp: hdr_Del_def)

lemma map_of_stripXUserHeaders:
  assumes "hdr_ok h"
  shows "map_of (stripXUserHeaders h) k = (if has_user_prefix k then None else map_of h k)"
proof -
  have "\<forall>x\<in>set (gomap_keys h). CanonicalHeaderKey x = x" using assms by (auto simp: hdr_ok_def list_all_iff)
  from map_of_strip_fold [OF this, of h k] show ?thesis
    by (auto simp: stripXUserHeaders_def map_of_eq_None_iff)
qed

lemma hdr_ok_strip_fold:
  "hdr_ok h \<Longrightarrow> hdr_ok (fold (\<lambda>k acc. if has_user_prefix k then hdr_Del k acc else acc) ks h)"
  by (induction ks arbitrary: h) (simp_all add: hdr_ok_Del)

lemma hdr_ok_stripXUserHeaders [wf_intro]: "hdr_ok h \<Longrightarrow> hdr_ok (stripXUserHeaders h)"
  by (simp add: stripXUserHeaders_def hdr_ok_strip_fold)

section \<open>Availability reports\<close>

text \<open>A run of the middleware over requests and the provider's answers to them.\<close>

record auth_attempt =
  at_request :: ClientRequest
  at_answer :: AuthResult

fun auth_run :: "AuthConfig \<Rightarrow> bool \<Rightarrow> auth_attempt list \<Rightarrow> bool \<Rightarrow> auth_event list \<times> bool" where
  "auth_run cfg al [] u = ([], u)"
| "auth_run cfg al (a # as) u =
    (case AuthMiddleware (\<lambda>_. at_answer a) cfg True al (at_request a) u of
       (_, evs, u') \<Rightarrow> map_prod ((@) evs) id (auth_run cfg al as u'))"

fun availability :: "auth_event list \<Rightarrow> bool list" where
  "availability [] = []"
| "availability (ProviderUnavailable _ _ # es) = False # availability es"
| "availability (ProviderRecovered _ # es) = True # availability es"
| "availability (_ # es) = availability es"

text \<open>Reports of the availability alternate, and the next one contradicts the last.\<close>

fun alternates :: "bool \<Rightarrow> bool list \<Rightarrow> bool" where
  "alternates next [] = True"
| "alternates next (b # bs) = (b = next \<and> alternates (\<not> next) bs)"

lemma availability_append [simp]: "availability (xs @ ys) = availability xs @ availability ys"
  by (induction xs rule: availability.induct) auto

lemma alternates_append:
  "alternates u (xs @ ys) \<longleftrightarrow> alternates u xs \<and> alternates (u \<noteq> odd (length xs)) ys"
  by (induction u xs rule: alternates.induct) auto

lemma AuthMiddleware_availability:
  "AuthMiddleware provider cfg True al r u = (resp, evs, u') \<Longrightarrow>
   availability evs = (if u = u' then [] else [u])"
  by (auto simp: AuthMiddleware_def Let_def split: if_splits)

lemma auth_run_availability:
  "auth_run cfg al as u = (evs, u') \<Longrightarrow> alternates u (availability evs) \<and> (u' \<longleftrightarrow> u \<noteq> odd (length (availability evs)))"
proof (induction as arbitrary: u evs)
  case (Cons a as)
  obtain resp es v where step: "AuthMiddleware (\<lambda>_. at_answer a) cfg True al (at_request a) u = (resp, es, v)"
    by (metis prod_cases3)
  obtain es' where rest: "auth_run cfg al as v = (es', u')" and evs: "evs = es @ es'"
    using Cons.prems step by (cases "auth_run cfg al as v") auto
  from AuthMiddleware_availability [OF step] Cons.IH [OF rest] show ?case
    by (cases "u = v") (auto simp: evs alternates_append)
qed simp

end
