(* ===== verification/KratosAuth.thy ===== *)
theory KratosAuth
  imports Identity AdminAuth
begin

text \<open>Session authentication against Ory Kratos: the identity provider
  (\<^verbatim>\<open>internal/adapters/kratos/adapter.go\<close>), the handler that guards the upstream application
  (\<^verbatim>\<open>internal/adapters/caddy/auth_handler.go\<close>) and the session endpoint
  (\<^verbatim>\<open>internal/adapters/caddy/me_handler.go\<close>). The Kratos service behind its whoami endpoint is a
  parameter; a response body is the session it decodes to, or nothing when it cannot be read or
  decoded.\<close>

section \<open>Cookies\<close>

text \<open>\<^verbatim>\<open>http.Request.Cookie\<close>: the first well-formed cookie of that name in the \<^verbatim>\<open>Cookie\<close> headers. The
  bound of the standard library on the number of cookies is not modelled.\<close>

definition ascii_space :: "char \<Rightarrow> bool" where
  "ascii_space c \<longleftrightarrow> byte_of c \<in> {32, 9, 10, 13}"

definition TrimString :: "string \<Rightarrow> string" where
  "TrimString s = TrimRightWhile ascii_space (TrimLeftWhile ascii_space s)"

definition cookie_value_byte :: "char \<Rightarrow> bool" where
  "cookie_value_byte c \<longleftrightarrow> 32 \<le> byte_of c \<and> byte_of c < 127 \<and> byte_of c \<notin> {34, 59, 92}"

definition parseCookieValue :: "string \<Rightarrow> string option" where
  "parseCookieValue raw =
    (let v = (if 1 < length raw \<and> byte_of (hd raw) = 34 \<and> byte_of (last raw) = 34 then butlast (tl raw) else raw) in
     if list_all cookie_value_byte v then Some v else None)"

definition isToken :: "string \<Rightarrow> bool" where
  "isToken s \<longleftrightarrow> s \<noteq> [] \<and> list_all token_char s"

fun cookie_parts :: "string \<Rightarrow> string list \<Rightarrow> string list" where
  "cookie_parts name [] = []"
| "cookie_parts name (p # ps) =
    (let part = TrimString p;
         (n, v) = (case CutByte CHR ''='' part of Some (a, b) \<Rightarrow> (TrimString a, b) | None \<Rightarrow> (TrimString part, [])) in
     if part \<noteq> [] \<and> isToken n \<and> n = name
     then (case parseCookieValue v of Some x \<Rightarrow> x # cookie_parts name ps | None \<Rightarrow> cookie_parts name ps)
     else cookie_parts name ps)"

definition readCookies :: "header \<Rightarrow> string \<Rightarrow> string list" where
  "readCookies h name =
    concat (map (\<lambda>line. cookie_parts name (SplitByte CHR '';'' (TrimString line)))
      (case map_of h ''Cookie'' of None \<Rightarrow> [] | Some vs \<Rightarrow> vs))"

definition req_Cookie :: "ClientRequest \<Rightarrow> string \<Rightarrow> string option" where
  "req_Cookie r name =
    (if name = [] then None else case readCookies (cr_Header r) name of [] \<Rightarrow> None | v # _ \<Rightarrow> Some v)"

section \<open>The Kratos service\<close>

record VerifiableAddress =
  va_Value :: string
  va_Via :: string
  va_Verified :: bool

record KratosSession =
  kr_ID :: string
  kr_Active :: bool
  kr_AuthenticatedAt :: string
  kr_ExpiresAt :: string
  kr_IdentityID :: string
  kr_Traits :: claims
  kr_Addresses :: "VerifiableAddress list"

datatype session_credential = CookieCredential string | TokenCredential string

datatype whoami_reply =
    WhoamiBadURL
  | WhoamiTimeout
  | WhoamiUnreachable
  | WhoamiAnswer int "KratosSession option"

type_synonym kratos_api = "string \<Rightarrow> session_credential \<Rightarrow> whoami_reply"

section \<open>The identity provider\<close>

record PortsIdentity =
  pi_ID :: string
  pi_Email :: string
  pi_EmailVerified :: bool
  pi_Traits :: claims

record Session =
  ss_ID :: string
  ss_Identity :: PortsIdentity
  ss_Active :: bool
  ss_AuthenticatedAt :: string
  ss_ExpiresAt :: string

record KratosAdapter =
  ka_publicURL :: string
  ka_cookieName :: string

datatype session_error =
    ErrSessionNotFound
  | ErrSessionInvalid
  | ErrAuthProviderUnavailable
  | SessionRequestError

definition NewKratosAdapter :: "string \<Rightarrow> KratosAdapter" where
  "NewKratosAdapter publicURL = \<lparr>ka_publicURL = publicURL, ka_cookieName = ''ory_kratos_session''\<rparr>"

definition mapSession :: "KratosSession \<Rightarrow> Session" where
  "mapSession kr =
    (let (email, verified) =
           (case List.find (\<lambda>a. va_Via a = ''email'') (kr_Addresses kr) of
              Some a \<Rightarrow> (va_Value a, va_Verified a) | None \<Rightarrow> ([], False));
         email' = (if email = [] then (case claim_string (kr_Traits kr) ''email'' of Some e \<Rightarrow> e | None \<Rightarrow> []) else email) in
     \<lparr>ss_ID = kr_ID kr,
      ss_Identity = \<lparr>pi_ID = kr_IdentityID kr, pi_Email = email', pi_EmailVerified = verified, pi_Traits = kr_Traits kr\<rparr>,
      ss_Active = kr_Active kr, ss_AuthenticatedAt = kr_AuthenticatedAt kr, ss_ExpiresAt = kr_ExpiresAt kr\<rparr>)"

definition CheckSession :: "kratos_api \<Rightarrow> KratosAdapter \<Rightarrow> string \<Rightarrow> session_error + Session" where
  "CheckSession kratos a sessionCookie =
    (if sessionCookie = [] then Inl ErrSessionNotFound
     else
       let cred = (if prefix ''ory_st_'' sessionCookie then TokenCredential sessionCookie else CookieCredential sessionCookie) in
       case kratos (ka_publicURL a @ ''/sessions/whoami'') cred of
         WhoamiBadURL \<Rightarrow> Inl SessionRequestError
       | WhoamiTimeout \<Rightarrow> Inl ErrAuthProviderUnavailable
       | WhoamiUnreachable \<Rightarrow> Inl ErrAuthProviderUnavailable
       | WhoamiAnswer status body \<Rightarrow>
           if status = 200 then
             (case body of
                None \<Rightarrow> Inl ErrAuthProviderUnavailable
              | Some kr \<Rightarrow> if \<not> kr_Active kr then Inl ErrSessionInvalid else Inr (mapSession kr))
           else if status = 401 then Inl ErrSessionInvalid
           else if 500 \<le> status then Inl ErrAuthProviderUnavailable
           else Inl ErrSessionInvalid)"

text \<open>The messages of the failures other than the fixed ones carry the error text of the transport and
  are left empty.\<close>

definition Authenticate :: "kratos_api \<Rightarrow> KratosAdapter \<Rightarrow> ClientRequest \<Rightarrow> AuthResult" where
  "Authenticate kratos a r =
    (let cookieName = (if ka_cookieName a = [] then ''ory_kratos_session'' else ka_cookieName a) in
     case req_Cookie r cookieName of
       None \<Rightarrow> Failure ''no_credentials'' ''no session cookie''
     | Some v \<Rightarrow>
         (case CheckSession kratos a (cookieName @ ''='' @ v) of
            Inl ErrSessionInvalid \<Rightarrow> Failure ''session_invalid'' ''session is invalid or expired''
          | Inl ErrSessionNotFound \<Rightarrow> Failure ''session_not_found'' ''session does not exist''
          | Inl ErrAuthProviderUnavailable \<Rightarrow> Failure ''provider_unavailable'' []
          | Inl SessionRequestError \<Rightarrow> Failure ''auth_error'' []
          | Inr s \<Rightarrow>
              (case NewIdentity (pi_ID (ss_Identity s)) (pi_Email (ss_Identity s)) ''kratos''
                      (pi_EmailVerified (ss_Identity s)) (pi_Traits (ss_Identity s)) of
                 Inl _ \<Rightarrow> Failure ''invalid_identity'' []
               | Inr i \<Rightarrow> Success i)))"

section \<open>The handler in front of the upstream\<close>

record AuthHandlerConfig =
  ah_CookieName :: string
  ah_LoginURL :: string
  ah_PublicPaths :: "string list"
  ah_KratosURL :: string
  ah_RolePaths :: "(string, string list) gomap"

definition kratosDefaultPublicPaths :: "string list" where
  "kratosDefaultPublicPaths =
    [''/auth/*'', ''/self-service/*'', ''/login'', ''/registration'', ''/recovery'', ''/verification'', ''/error'',
     ''/sessions/whoami'']"

definition appendKratosPublicPaths :: "string list \<Rightarrow> string list" where
  "appendKratosPublicPaths existing = existing @ filter (\<lambda>p. p \<notin> set existing) kratosDefaultPublicPaths"

definition ah_Provision :: "AuthHandlerConfig \<Rightarrow> AuthHandlerConfig" where
  "ah_Provision h =
    (if ah_KratosURL h \<noteq> [] then h\<lparr>ah_PublicPaths := appendKratosPublicPaths (ah_PublicPaths h)\<rparr> else h)"

text \<open>Errors of \<^verbatim>\<open>path.Match\<close> are ignored by both matchers.\<close>

definition covers_public :: "string \<Rightarrow> string \<Rightarrow> bool" where
  "covers_public p reqPath \<longleftrightarrow>
    suffix ''/*'' p \<and> (reqPath = TrimSuffix ''/*'' p \<or> prefix (TrimSuffix ''/*'' p @ ''/'') reqPath) \<or>
    path_Match p reqPath = Some True \<or> p = reqPath"

definition isPublicPath :: "string list \<Rightarrow> string \<Rightarrow> bool" where
  "isPublicPath publicPaths reqPath = list_ex (\<lambda>p. covers_public p reqPath) publicPaths"

definition strip_X_User :: "header \<Rightarrow> header" where
  "strip_X_User h = filter (\<lambda>(k, _). \<not> prefix ''X-User-'' k) h"

datatype whoami_failure = WhoamiRequestError | WhoamiInvalid | WhoamiServerError | WhoamiStatus int | WhoamiBody | WhoamiInactive

definition callWhoami :: "kratos_api \<Rightarrow> string \<Rightarrow> string \<Rightarrow> string \<Rightarrow> whoami_failure + KratosSession" where
  "callWhoami kratos kratosURL cookieName cookieValue =
    (case kratos (kratosURL @ ''/sessions/whoami'') (CookieCredential (cookieName @ ''='' @ cookieValue)) of
       WhoamiAnswer status body \<Rightarrow>
         if status = 401 then Inl WhoamiInvalid
         else if 500 \<le> status then Inl WhoamiServerError
         else if status \<noteq> 200 then Inl (WhoamiStatus status)
         else (case body of
                 None \<Rightarrow> Inl WhoamiBody
               | Some s \<Rightarrow> if \<not> kr_Active s then Inl WhoamiInactive else Inr s)
     | _ \<Rightarrow> Inl WhoamiRequestError)"

definition extractEmail :: "KratosSession \<Rightarrow> string" where
  "extractEmail s =
    (case List.find (\<lambda>a. va_Via a = ''email'') (kr_Addresses s) of
       Some a \<Rightarrow> va_Value a
     | None \<Rightarrow> (case claim_string (kr_Traits s) ''email'' of Some e \<Rightarrow> e | None \<Rightarrow> []))"

definition extractVerified :: "KratosSession \<Rightarrow> bool" where
  "extractVerified s =
    (case List.find (\<lambda>a. va_Via a = ''email'') (kr_Addresses s) of Some a \<Rightarrow> va_Verified a | None \<Rightarrow> False)"

definition setIdentityHeaders :: "KratosSession \<Rightarrow> header \<Rightarrow> header" where
  "setIdentityHeaders s h =
    (let h1 = (if kr_IdentityID s \<noteq> [] then hdr_Set ''X-User-Id'' (kr_IdentityID s) h else h);
         h2 = (if extractEmail s \<noteq> [] then hdr_Set ''X-User-Email'' (extractEmail s) h1 else h1) in
     if extractVerified s then hdr_Set ''X-User-Verified'' ''true'' h2 else hdr_Set ''X-User-Verified'' ''false'' h2)"

definition extractRole :: "KratosSession \<Rightarrow> Role" where
  "extractRole s =
    (case claim_string (kr_Traits s) ''role'' of
       None \<Rightarrow> DefaultRole
     | Some t \<Rightarrow>
         if t = [] then DefaultRole
         else (case NewRole t of Inr r \<Rightarrow> r | Inl _ \<Rightarrow> DefaultRole))"

definition covers_role :: "string \<Rightarrow> string \<Rightarrow> bool" where
  "covers_role p reqPath \<longleftrightarrow>
    suffix ''/*'' p \<and> prefix (TrimSuffix ''*'' p) reqPath \<or> path_Match p reqPath = Some True \<or> p = reqPath"

text \<open>The order of the list is the order in which the map is ranged over.\<close>

fun matchRequiredRole :: "(string, string list) gomap \<Rightarrow> string \<Rightarrow> string option" where
  "matchRequiredRole [] reqPath = None"
| "matchRequiredRole ((role, patterns) # rps) reqPath =
    (if list_ex (\<lambda>p. covers_role p reqPath) patterns then Some role else matchRequiredRole rps reqPath)"

datatype auth_outcome = AuthForward ClientRequest | AuthToLogin string | AuthForbidden

definition with_session :: "KratosSession \<Rightarrow> ClientRequest \<Rightarrow> ClientRequest" where
  "with_session s r =
    r\<lparr>cr_Header := hdr_Set ''X-User-Role'' (role_value (extractRole s)) (setIdentityHeaders s (cr_Header r))\<rparr>"

definition auth_ServeHTTP :: "kratos_api \<Rightarrow> AuthHandlerConfig \<Rightarrow> ClientRequest \<Rightarrow> auth_outcome" where
  "auth_ServeHTTP kratos h r0 =
    (let r = r0\<lparr>cr_Header := strip_X_User (cr_Header r0)\<rparr> in
     if isPublicPath (ah_PublicPaths h) (cr_Path r) then
       (case req_Cookie r (ah_CookieName h) of
          None \<Rightarrow> AuthForward r
        | Some v \<Rightarrow>
            (case callWhoami kratos (ah_KratosURL h) (ah_CookieName h) v of
               Inl _ \<Rightarrow> AuthForward r
             | Inr s \<Rightarrow> AuthForward (with_session s r)))
     else
       (case req_Cookie r (ah_CookieName h) of
          None \<Rightarrow> AuthToLogin (ah_LoginURL h)
        | Some v \<Rightarrow>
            (case callWhoami kratos (ah_KratosURL h) (ah_CookieName h) v of
               Inl _ \<Rightarrow> AuthToLogin (ah_LoginURL h)
             | Inr s \<Rightarrow>
                 (if ah_RolePaths h \<noteq> [] then
                    (case matchRequiredRole (ah_RolePaths h) (cr_Path r) of
                       Some requiredRole \<Rightarrow>
                         if role_value (extractRole s) \<noteq> requiredRole then AuthForbidden
                         else AuthForward (with_session s r)
                     | None \<Rightarrow> AuthForward (with_session s r))
                  else AuthForward (with_session s r)))))"

section \<open>The session endpoint\<close>

datatype me_response =
    MeOK string string bool string
  | MeUnauthenticated
  | MeBadGateway

definition callMeWhoami :: "kratos_api \<Rightarrow> string \<Rightarrow> string \<Rightarrow> string \<Rightarrow> bool + KratosSession" where
  "callMeWhoami kratos kratosURL cookieName cookieValue =
    (case kratos (kratosURL @ ''/sessions/whoami'') (CookieCredential (cookieName @ ''='' @ cookieValue)) of
       WhoamiBadURL \<Rightarrow> Inl False
     | WhoamiTimeout \<Rightarrow> Inl True
     | WhoamiUnreachable \<Rightarrow> Inl True
     | WhoamiAnswer status body \<Rightarrow>
         if status = 401 then Inl False
         else if 500 \<le> status then Inl True
         else if status \<noteq> 200 then Inl False
         else (case body of
                 None \<Rightarrow> Inl False
               | Some s \<Rightarrow> if \<not> kr_Active s then Inl False else Inr s))"

definition me_ServeHTTP :: "kratos_api \<Rightarrow> string \<Rightarrow> string \<Rightarrow> ClientRequest \<Rightarrow> me_response" where
  "me_ServeHTTP kratos kratosURL cookieName r =
    (case req_Cookie r cookieName of
       None \<Rightarrow> MeUnauthenticated
     | Some v \<Rightarrow>
         (case callMeWhoami kratos kratosURL cookieName v of
            Inl isConnErr \<Rightarrow> if isConnErr then MeBadGateway else MeUnauthenticated
          | Inr s \<Rightarrow>
              MeOK (kr_IdentityID s) (extractEmail s) (extractVerified s) (role_value (extractRole s))))"

section \<open>Lemmas\<close>

lemma map_of_strip_X_User: "map_of (strip_X_User h) k = (if prefix ''X-User-'' k then None else map_of h k)"
  by (induction h) (auto simp: strip_X_User_def)

lemma Cookie_not_user [simp]: "\<not> prefix ''X-User-'' ''Cookie''"
  by simp

lemma req_Cookie_strip [simp]: "req_Cookie (r\<lparr>cr_Header := strip_X_User (cr_Header r)\<rparr>) name = req_Cookie r name"
  by (simp add: req_Cookie_def readCookies_def map_of_strip_X_User)

text \<open>What a session contributes to the upstream request.\<close>

definition session_headers :: "KratosSession \<Rightarrow> string \<Rightarrow> string list option" where
  "session_headers s k =
    (if k = ''X-User-Role'' then Some [role_value (extractRole s)]
     else if k = ''X-User-Verified'' then Some [if extractVerified s then ''true'' else ''false'']
     else if k = ''X-User-Email'' \<and> extractEmail s \<noteq> [] then Some [extractEmail s]
     else if k = ''X-User-Id'' \<and> kr_IdentityID s \<noteq> [] then Some [kr_IdentityID s]
     else None)"

lemma user_header_canonical [simp]:
  "CanonicalHeaderKey ''X-User-Id'' = ''X-User-Id''"
  "CanonicalHeaderKey ''X-User-Email'' = ''X-User-Email''"
  "CanonicalHeaderKey ''X-User-Verified'' = ''X-User-Verified''"
  "CanonicalHeaderKey ''X-User-Role'' = ''X-User-Role''"
  "CanonicalHeaderKey ''X-User-Name'' = ''X-User-Name''"
  "CanonicalHeaderKey ''Authorization'' = ''Authorization''"
  by code_simp+

lemma map_of_with_session:
  "map_of (cr_Header (with_session s (r\<lparr>cr_Header := strip_X_User h\<rparr>))) k =
    (if prefix ''X-User-'' k then session_headers s k else map_of h k)"
  by (simp add: with_session_def setIdentityHeaders_def hdr_Set_def Let_def map_of_strip_X_User session_headers_def)

text \<open>The session a request presents, and what the role rules say of it.\<close>

definition session_of :: "kratos_api \<Rightarrow> AuthHandlerConfig \<Rightarrow> ClientRequest \<Rightarrow> KratosSession option" where
  "session_of kratos h r =
    (case req_Cookie r (ah_CookieName h) of
       None \<Rightarrow> None
     | Some v \<Rightarrow> (case callWhoami kratos (ah_KratosURL h) (ah_CookieName h) v of Inr s \<Rightarrow> Some s | Inl _ \<Rightarrow> None))"

definition role_permits :: "AuthHandlerConfig \<Rightarrow> KratosSession \<Rightarrow> string \<Rightarrow> bool" where
  "role_permits h s path \<longleftrightarrow>
    (case matchRequiredRole (ah_RolePaths h) path of Some req \<Rightarrow> role_value (extractRole s) = req | None \<Rightarrow> True)"

text \<open>The request the upstream receives: the client's, with its own identity headers gone and those of
  the session, if there is one, in their place.\<close>

definition identified :: "KratosSession option \<Rightarrow> ClientRequest \<Rightarrow> ClientRequest \<Rightarrow> bool" where
  "identified session r r' \<longleftrightarrow>
    cr_Method r' = cr_Method r \<and> cr_Path r' = cr_Path r \<and> cr_RemoteAddr r' = cr_RemoteAddr r \<and>
    (\<forall>k. map_of (cr_Header r') k =
      (if prefix ''X-User-'' k then (case session of Some s \<Rightarrow> session_headers s k | None \<Rightarrow> None)
       else map_of (cr_Header r) k))"

lemma identified_anonymous: "identified None r (r\<lparr>cr_Header := strip_X_User (cr_Header r)\<rparr>)"
  by (simp add: identified_def map_of_strip_X_User)

lemma identified_session:
  "identified (Some s) r (with_session s (r\<lparr>cr_Header := strip_X_User (cr_Header r)\<rparr>))"
  unfolding identified_def by (simp add: map_of_with_session) (simp add: with_session_def)

lemma auth_ServeHTTP_cases:
  "\<exists>r'. identified (session_of kratos h r) r r' \<and>
    auth_ServeHTTP kratos h r =
      (if isPublicPath (ah_PublicPaths h) (cr_Path r) then AuthForward r'
       else case session_of kratos h r of
              None \<Rightarrow> AuthToLogin (ah_LoginURL h)
            | Some s \<Rightarrow> if role_permits h s (cr_Path r) then AuthForward r' else AuthForbidden)"
proof (cases "session_of kratos h r")
  case None
  then show ?thesis
    using identified_anonymous [of r]
    by (intro exI [of _ "r\<lparr>cr_Header := strip_X_User (cr_Header r)\<rparr>"])
       (auto simp: auth_ServeHTTP_def session_of_def Let_def split: option.splits sum.splits)
next
  case (Some s)
  then show ?thesis
    using identified_session [of s r]
    by (intro exI [of _ "with_session s (r\<lparr>cr_Header := strip_X_User (cr_Header r)\<rparr>)"])
       (auto simp: auth_ServeHTTP_def session_of_def role_permits_def Let_def split: option.splits sum.splits)
qed

lemma me_whoami_agrees:
  "callMeWhoami kratos url name v = Inr s \<longleftrightarrow> callWhoami kratos url name v = Inr s"
  by (auto simp: callMeWhoami_def callWhoami_def split: whoami_reply.splits option.splits if_splits)

lemma extractRole_valid: "role_value (extractRole s) \<in> set validRoles"
  by (auto simp: extractRole_def dest: NewRole_valid split: option.split sum.split)

lemma path_Clean_dotdot:
  assumes "CHR ''/'' \<notin> set seg" "seg \<noteq> []" "seg \<noteq> ''.''" "seg \<noteq> ''..''"
  shows "path_Clean (CHR ''/'' # seg @ ''/../'' @ rest) = path_Clean (CHR ''/'' # rest)"
  using assms by (simp add: path_Clean_def SplitByte_append)

lemma suffix_star [simp]: "suffix ''/*'' (seg @ ''/*'')"
  by (rule suffixI) simp

lemma TrimSuffix_star [simp]: "TrimSuffix ''/*'' (seg @ ''/*'') = seg"
  using suffix_star [of seg] by (simp add: TrimSuffix_def)

lemma public_traversal:
  "pre @ ''/*'' \<in> set publicPaths \<Longrightarrow> isPublicPath publicPaths (pre @ ''/../'' @ rest)"
  unfolding isPublicPath_def list_ex_iff
  by (rule bexI [of _ "pre @ ''/*''"]) (simp_all add: covers_public_def)

section \<open>Properties\<close>

text \<open>C29: The upstream application is reached on a public path, or with a session that Kratos confirms and
  whose role the rules of the path accept; otherwise the client is sent to the login page or refused.
  Whatever identity headers the client sent, the upstream sees exactly those of the confirmed
  session, and the rest of the request unchanged.\<close>

theorem kratos_gate:
  "\<exists>r'. identified (session_of kratos h r) r r' \<and>
    auth_ServeHTTP kratos h r =
      (if isPublicPath (ah_PublicPaths h) (cr_Path r) then AuthForward r'
       else case session_of kratos h r of
              None \<Rightarrow> AuthToLogin (ah_LoginURL h)
            | Some s \<Rightarrow> if role_permits h s (cr_Path r) then AuthForward r' else AuthForbidden)"
  by (rule auth_ServeHTTP_cases)

definition role_header_valid :: "auth_outcome \<Rightarrow> bool" where
  "role_header_valid out =
    (case out of
       AuthForward r' \<Rightarrow>
         (case map_of (cr_Header r') ''X-User-Role'' of None \<Rightarrow> True | Some vs \<Rightarrow> vs \<in> {[v] | v. v \<in> set validRoles})
     | _ \<Rightarrow> True)"

text \<open>C30: The role header the upstream receives, if any, names one of the three roles of the product,
  whatever the client sent and whatever the traits of the session hold.\<close>

theorem upstream_role_valid: "role_header_valid (auth_ServeHTTP kratos h r)"
proof -
  obtain r' where id: "identified (session_of kratos h r) r r'"
    and out: "auth_ServeHTTP kratos h r =
      (if isPublicPath (ah_PublicPaths h) (cr_Path r) then AuthForward r'
       else case session_of kratos h r of
              None \<Rightarrow> AuthToLogin (ah_LoginURL h)
            | Some s \<Rightarrow> if role_permits h s (cr_Path r) then AuthForward r' else AuthForbidden)"
    using auth_ServeHTTP_cases by blast
  have "map_of (cr_Header r') ''X-User-Role'' =
      (case session_of kratos h r of Some s \<Rightarrow> session_headers s ''X-User-Role'' | None \<Rightarrow> None)"
    using id by (simp add: identified_def)
  then show ?thesis
    using extractRole_valid by (auto simp: out role_header_valid_def session_headers_def split: option.splits)
qed


text \<open>A public pattern is matched against the path as the client wrote it, so a path that leaves the
  public subtree through a parent segment is forwarded without a session. The patterns the handler
  adds itself make every path reachable this way.\<close>

theorem public_prefix_traversal:
  assumes "ah_KratosURL h \<noteq> []" and "cr_Path r = ''/auth/../'' @ rest"
  shows "(\<exists>r'. auth_ServeHTTP kratos (ah_Provision h) r = AuthForward r' \<and> cr_Path r' = cr_Path r) \<and>
    path_Clean (cr_Path r) = path_Clean (CHR ''/'' # rest)"
proof -
  have "''/auth'' @ ''/*'' \<in> set (ah_PublicPaths (ah_Provision h))"
    using assms(1) by (auto simp: ah_Provision_def appendKratosPublicPaths_def kratosDefaultPublicPaths_def)
  from public_traversal [OF this, of rest] have "isPublicPath (ah_PublicPaths (ah_Provision h)) (cr_Path r)"
    using assms(2) by simp
  moreover have "path_Clean (CHR ''/'' # ''auth'' @ ''/../'' @ rest) = path_Clean (CHR ''/'' # rest)"
    by (rule path_Clean_dotdot) auto
  ultimately show ?thesis
    using auth_ServeHTTP_cases [of kratos "ah_Provision h" r] assms(2) by (auto simp: identified_def)
qed

definition sample_request :: "string \<Rightarrow> ClientRequest" where
  "sample_request p = \<lparr>cr_Method = ''GET'', cr_Path = p, cr_Header = [], cr_RemoteAddr = ''192.0.2.7:5000''\<rparr>"

definition sample_auth :: AuthHandlerConfig where
  "sample_auth =
    \<lparr>ah_CookieName = ''ory_kratos_session'', ah_LoginURL = ''/login'', ah_PublicPaths = [], ah_KratosURL = ''http://kratos:4433'',
     ah_RolePaths = []\<rparr>"

theorem public_prefix_traversal_witness:
  "path_Clean ''/auth/../admin/users'' = ''/admin/users'' \<and>
   auth_ServeHTTP (\<lambda>_ _. WhoamiUnreachable) (ah_Provision sample_auth) (sample_request ''/admin/users'') = AuthToLogin ''/login'' \<and>
   (\<exists>r'. auth_ServeHTTP (\<lambda>_ _. WhoamiUnreachable) (ah_Provision sample_auth)
          (sample_request (''/auth/../'' @ ''admin/users'')) = AuthForward r' \<and> cr_Path r' = ''/auth/../admin/users'')"
proof (intro conjI)
  show "path_Clean ''/auth/../admin/users'' = ''/admin/users''" by code_simp
  show "auth_ServeHTTP (\<lambda>_ _. WhoamiUnreachable) (ah_Provision sample_auth) (sample_request ''/admin/users'') = AuthToLogin ''/login''"
    by code_simp
  have "ah_KratosURL sample_auth \<noteq> []" by (simp add: sample_auth_def)
  moreover have "cr_Path (sample_request (''/auth/../'' @ ''admin/users'')) = ''/auth/../'' @ ''admin/users''"
    by (simp add: sample_request_def)
  ultimately have "\<exists>r'. auth_ServeHTTP (\<lambda>_ _. WhoamiUnreachable) (ah_Provision sample_auth)
      (sample_request (''/auth/../'' @ ''admin/users'')) = AuthForward r' \<and>
      cr_Path r' = cr_Path (sample_request (''/auth/../'' @ ''admin/users''))"
    using public_prefix_traversal by blast
  then show "\<exists>r'. auth_ServeHTTP (\<lambda>_ _. WhoamiUnreachable) (ah_Provision sample_auth)
      (sample_request (''/auth/../'' @ ''admin/users'')) = AuthForward r' \<and> cr_Path r' = ''/auth/../admin/users''"
    by (simp add: sample_request_def)
qed

text \<open>When the patterns of two roles cover the same path, the role the path requires is the one the
  range over the map meets first: whatever role a session has, one of the two orders refuses it.\<close>

theorem overlapping_role_rules:
  assumes "role1 \<noteq> role2" and "list_ex (\<lambda>p. covers_role p path) ps1" and "list_ex (\<lambda>p. covers_role p path) ps2"
  shows "\<not> role_permits (h\<lparr>ah_RolePaths := [(role1, ps1), (role2, ps2)]\<rparr>) s path \<or>
    \<not> role_permits (h\<lparr>ah_RolePaths := [(role2, ps2), (role1, ps1)]\<rparr>) s path"
  using assms by (simp add: role_permits_def)

theorem overlapping_role_rules_witness:
  "\<not> role_permits (sample_auth\<lparr>ah_RolePaths := [(''admin'', [''/admin/*'']), (''moderator'', [''/admin/queue''])]\<rparr>)
      s ''/admin/queue'' \<or>
   \<not> role_permits (sample_auth\<lparr>ah_RolePaths := [(''moderator'', [''/admin/queue'']), (''admin'', [''/admin/*''])]\<rparr>)
      s ''/admin/queue''"
proof (rule overlapping_role_rules)
  show "list_ex (\<lambda>p. covers_role p ''/admin/queue'') [''/admin/*'']" by code_simp
  show "list_ex (\<lambda>p. covers_role p ''/admin/queue'') [''/admin/queue'']" by code_simp
qed simp

end
