(* ===== verification/CaddyJson.thy ===== *)
theory CaddyJson
  imports Complex_Main GoStrings
begin

text \<open>The JSON documents the code assembles for the embedded Caddy (\<^verbatim>\<open>map[string]any\<close> and
  \<^verbatim>\<open>json.RawMessage\<close> of a struct): an object is an association list of its fields, a finite number the
  integer or rational it denotes. Marshalling and decoding of the text is not modelled.\<close>

datatype json =
    JBool bool
  | JInt int
  | JRat rat
  | JStr string
  | JArr "json list"
  | JObj "(string \<times> json) list"

definition json_field :: "json \<Rightarrow> string \<Rightarrow> json option" where
  "json_field j k = (case j of JObj fs \<Rightarrow> map_of fs k | _ \<Rightarrow> None)"

definition json_strings :: "string list \<Rightarrow> json" where
  "json_strings ss = JArr (map JStr ss)"

text \<open>The name of the Caddy module a handler object asks for.\<close>

definition handler_name :: "json \<Rightarrow> string" where
  "handler_name j = (case json_field j ''handler'' of Some (JStr s) \<Rightarrow> s | _ \<Rightarrow> [])"

definition as_string :: "json option \<Rightarrow> string" where
  "as_string v = (case v of Some (JStr s) \<Rightarrow> s | _ \<Rightarrow> [])"

definition as_strings :: "json option \<Rightarrow> string list" where
  "as_strings v = (case v of Some (JArr js) \<Rightarrow> map (\<lambda>j. as_string (Some j)) js | _ \<Rightarrow> [])"

text \<open>A field marked \<^verbatim>\<open>omitempty\<close>.\<close>

definition omit_if :: "bool \<Rightarrow> string \<Rightarrow> json \<Rightarrow> (string \<times> json) list" where
  "omit_if is_empty k v = (if is_empty then [] else [(k, v)])"

lemma json_field_JObj [simp]: "json_field (JObj fs) k = map_of fs k"
  by (simp add: json_field_def)

lemma as_string_simps [simp]: "as_string None = []" "as_string (Some (JStr s)) = s"
  by (simp_all add: as_string_def)

lemma as_strings_simps [simp]: "as_strings None = []" "as_strings (Some (json_strings ss)) = ss"
  by (simp_all add: as_strings_def json_strings_def o_def)

end
