(* ===== verification/CaddyTls.thy ===== *)
theory CaddyTls
  imports CaddyJson NetAddr
begin

text \<open>TLS configuration. The Caddy adapter (\<^verbatim>\<open>internal/adapters/caddy/config.go\<close>,
  \<^verbatim>\<open>internal/adapters/caddy/acme_issuers.go\<close>) and the TLS plugin (\<^verbatim>\<open>internal/plugins/tls/plugin.go\<close>) keep two
  copies of the same builders, prefixed \<open>ad_\<close> and \<open>tp_\<close> here; the certificate monitor is
  \<^verbatim>\<open>internal/plugins/tls/monitor.go\<close> and the domain classification \<^verbatim>\<open>internal/app/tlsdomain\<close>.\<close>

section \<open>Configuration\<close>

record TLSConfig =
  tc_Enabled :: bool
  tc_Provider :: string
  tc_Domain :: string
  tc_CertPath :: string
  tc_KeyPath :: string
  tc_StoragePath :: string
  tc_Email :: string
  tc_ACMECA :: string
  tc_MonitorEnabled :: bool
  tc_WarningThreshold :: duration
  tc_CriticalThreshold :: duration

datatype tls_config_error =
    DomainRequired string
  | EmailRequired string
  | CertPathRequired string
  | KeyPathRequired string
  | UnknownTLSProvider string

section \<open>The adapter\<close>

definition ad_validateTLSConfig :: "TLSConfig \<Rightarrow> tls_config_error option" where
  "ad_validateTLSConfig cfg =
    (if tc_Provider cfg \<in> {''letsencrypt'', ''buypass'', ''letsencrypt-staging''} then
       (if tc_Domain cfg = [] then Some (DomainRequired (tc_Provider cfg)) else None)
     else if tc_Provider cfg = ''zerossl'' then
       (if tc_Domain cfg = [] then Some (DomainRequired (tc_Provider cfg))
        else if tc_Email cfg = [] then Some (EmailRequired (tc_Provider cfg))
        else None)
     else if tc_Provider cfg = ''external'' then
       (if tc_CertPath cfg = [] then Some (CertPathRequired (tc_Provider cfg))
        else if tc_KeyPath cfg = [] then Some (KeyPathRequired (tc_Provider cfg))
        else None)
     else if tc_Provider cfg \<in> {''self-signed'', []} then None
     else Some (UnknownTLSProvider (tc_Provider cfg)))"

definition ad_isACMEProvider :: "string \<Rightarrow> bool" where
  "ad_isACMEProvider p \<longleftrightarrow> p \<in> {''letsencrypt'', ''zerossl'', ''buypass'', ''letsencrypt-staging''}"

definition acmeCALetsEncrypt :: string where
  "acmeCALetsEncrypt = ''https://acme-v02.api.letsencrypt.org/directory''"

definition acmeCALetsEncryptStaging :: string where
  "acmeCALetsEncryptStaging = ''https://acme-staging-v02.api.letsencrypt.org/directory''"

definition acmeCAZeroSSL :: string where
  "acmeCAZeroSSL = ''https://acme.zerossl.com/v2/DV90''"

definition acmeCABuypass :: string where
  "acmeCABuypass = ''https://api.buypass.com/acme/directory''"

record SkippedIssuer =
  sk_Provider :: string
  sk_Reason :: string

definition ad_buildSingleACMEIssuer :: "string \<Rightarrow> string \<Rightarrow> json" where
  "ad_buildSingleACMEIssuer ca email =
    JObj ([(''module'', JStr ''acme''), (''ca'', JStr ca)] @ (if email \<noteq> [] then [(''email'', JStr email)] else []))"

definition ad_buildACMEIssuers :: "TLSConfig \<Rightarrow> json list \<times> SkippedIssuer list" where
  "ad_buildACMEIssuers cfg =
    (let email = tc_Email cfg; p = tc_Provider cfg in
     if p = ''letsencrypt'' then
       (if tc_ACMECA cfg \<noteq> [] then ([ad_buildSingleACMEIssuer (tc_ACMECA cfg) email], [])
        else if email = [] then
          ([ad_buildSingleACMEIssuer acmeCALetsEncrypt email],
           [\<lparr>sk_Provider = ''zerossl'', sk_Reason = ''email_not_configured''\<rparr>])
        else
          ([ad_buildSingleACMEIssuer acmeCALetsEncrypt email, ad_buildSingleACMEIssuer acmeCAZeroSSL email], []))
     else if p = ''zerossl'' then ([ad_buildSingleACMEIssuer acmeCAZeroSSL email], [])
     else if p = ''buypass'' then ([ad_buildSingleACMEIssuer acmeCABuypass email], [])
     else if p = ''letsencrypt-staging'' then ([ad_buildSingleACMEIssuer acmeCALetsEncryptStaging email], [])
     else ([ad_buildSingleACMEIssuer acmeCALetsEncrypt email], []))"

definition ad_buildTLSPolicy :: "TLSConfig \<Rightarrow> json list" where
  "ad_buildTLSPolicy cfg =
    (if tc_Provider cfg = ''external'' then
       [JObj [(''certificate_selection'', JObj [(''any_tag'', json_strings [''vibewarden_external''])])]]
     else if tc_Provider cfg = ''self-signed'' then
       [JObj [(''default_sni'', JStr (if tc_Domain cfg = [] then ''localhost'' else tc_Domain cfg))]]
     else if ad_isACMEProvider (tc_Provider cfg) \<and> tc_Domain cfg \<noteq> [] then
       [JObj [(''match'', JObj [(''sni'', json_strings [tc_Domain cfg])])]]
     else [JObj []])"

definition ad_buildACMETLSApp :: "TLSConfig \<Rightarrow> json" where
  "ad_buildACMETLSApp cfg =
    JObj [(''automation'', JObj [(''policies'', JArr
      [JObj [(''subjects'', json_strings [tc_Domain cfg]), (''issuers'', JArr (fst (ad_buildACMEIssuers cfg)))]])])]"

definition ad_buildSelfSignedTLSApp :: "TLSConfig \<Rightarrow> json" where
  "ad_buildSelfSignedTLSApp cfg =
    JObj [(''automation'', JObj [(''policies'', JArr
      [JObj [(''issuers'', JArr [JObj [(''module'', JStr ''internal'')]]),
             (''subjects'', json_strings [if tc_Domain cfg = [] then ''localhost'' else tc_Domain cfg])]])])]"

definition ad_buildExternalTLSApp :: "TLSConfig \<Rightarrow> json" where
  "ad_buildExternalTLSApp cfg =
    JObj [(''certificates'', JObj [(''load_files'', JArr
      [JObj [(''certificate'', JStr (tc_CertPath cfg)), (''key'', JStr (tc_KeyPath cfg)),
             (''tags'', json_strings [''vibewarden_external''])]])])]"

definition ad_buildTLSApp :: "TLSConfig \<Rightarrow> string + json" where
  "ad_buildTLSApp cfg =
    (if ad_isACMEProvider (tc_Provider cfg) then Inr (ad_buildACMETLSApp cfg)
     else if tc_Provider cfg \<in> {''self-signed'', []} then Inr (ad_buildSelfSignedTLSApp cfg)
     else if tc_Provider cfg = ''external'' then Inr (ad_buildExternalTLSApp cfg)
     else Inl (tc_Provider cfg))"

section \<open>The plugin\<close>

definition tp_validateTLSConfig :: "TLSConfig \<Rightarrow> tls_config_error option" where
  "tp_validateTLSConfig cfg =
    (if tc_Provider cfg = ''letsencrypt'' \<or> tc_Provider cfg = ''buypass'' \<or> tc_Provider cfg = ''letsencrypt-staging'' then
       (if tc_Domain cfg = [] then Some (DomainRequired (tc_Provider cfg)) else None)
     else if tc_Provider cfg = ''zerossl'' then
       (if tc_Domain cfg = [] then Some (DomainRequired (tc_Provider cfg))
        else if tc_Email cfg = [] then Some (EmailRequired (tc_Provider cfg)) else None)
     else if tc_Provider cfg = ''external'' then
       (if tc_CertPath cfg = [] then Some (CertPathRequired (tc_Provider cfg))
        else if tc_KeyPath cfg = [] then Some (KeyPathRequired (tc_Provider cfg)) else None)
     else if tc_Provider cfg = ''self-signed'' \<or> tc_Provider cfg = [] then None
     else Some (UnknownTLSProvider (tc_Provider cfg)))"

definition tp_isACMEProvider :: "string \<Rightarrow> bool" where
  "tp_isACMEProvider p \<longleftrightarrow> p = ''letsencrypt'' \<or> p = ''zerossl'' \<or> p = ''buypass'' \<or> p = ''letsencrypt-staging''"

definition tp_buildSingleACMEIssuer :: "string \<Rightarrow> string \<Rightarrow> json" where
  "tp_buildSingleACMEIssuer ca email =
    JObj (if email \<noteq> [] then [(''module'', JStr ''acme''), (''ca'', JStr ca), (''email'', JStr email)]
          else [(''module'', JStr ''acme''), (''ca'', JStr ca)])"

definition tp_buildACMEIssuers :: "TLSConfig \<Rightarrow> json list \<times> SkippedIssuer list" where
  "tp_buildACMEIssuers cfg =
    (let email = tc_Email cfg in
     if tc_Provider cfg = ''letsencrypt'' then
       (if tc_ACMECA cfg \<noteq> [] then ([tp_buildSingleACMEIssuer (tc_ACMECA cfg) email], [])
        else
          let chain = [tp_buildSingleACMEIssuer acmeCALetsEncrypt email] in
          if email = [] then (chain, [\<lparr>sk_Provider = ''zerossl'', sk_Reason = ''email_not_configured''\<rparr>])
          else (chain @ [tp_buildSingleACMEIssuer acmeCAZeroSSL email], []))
     else if tc_Provider cfg = ''zerossl'' then ([tp_buildSingleACMEIssuer acmeCAZeroSSL email], [])
     else if tc_Provider cfg = ''buypass'' then ([tp_buildSingleACMEIssuer acmeCABuypass email], [])
     else if tc_Provider cfg = ''letsencrypt-staging'' then ([tp_buildSingleACMEIssuer acmeCALetsEncryptStaging email], [])
     else ([tp_buildSingleACMEIssuer acmeCALetsEncrypt email], []))"

definition tp_buildTLSConnectionPolicies :: "TLSConfig \<Rightarrow> json list" where
  "tp_buildTLSConnectionPolicies cfg =
    (if tc_Provider cfg = ''external'' then
       [JObj [(''certificate_selection'', JObj [(''any_tag'', json_strings [''vibewarden_external''])])]]
     else [JObj []])"

definition tp_buildACMETLSApp :: "TLSConfig \<Rightarrow> json" where
  "tp_buildACMETLSApp cfg =
    JObj [(''automation'', JObj [(''policies'', JArr
      [JObj [(''subjects'', json_strings [tc_Domain cfg]), (''issuers'', JArr (fst (tp_buildACMEIssuers cfg)))]])])]"

definition tp_buildSelfSignedTLSApp :: "TLSConfig \<Rightarrow> json" where
  "tp_buildSelfSignedTLSApp cfg =
    JObj [(''automation'', JObj [(''policies'', JArr
      [JObj ([(''issuers'', JArr [JObj [(''module'', JStr ''internal'')]])] @
             (if tc_Domain cfg \<noteq> [] then [(''subjects'', json_strings [tc_Domain cfg])] else []))])])]"

definition tp_buildExternalTLSApp :: "TLSConfig \<Rightarrow> json" where
  "tp_buildExternalTLSApp cfg =
    JObj [(''certificates'', JObj [(''load_files'', JArr
      [JObj [(''certificate'', JStr (tc_CertPath cfg)), (''key'', JStr (tc_KeyPath cfg)),
             (''tags'', json_strings [''vibewarden_external''])]])])]"

definition tp_buildTLSApp :: "TLSConfig \<Rightarrow> string + json" where
  "tp_buildTLSApp cfg =
    (if tp_isACMEProvider (tc_Provider cfg) then Inr (tp_buildACMETLSApp cfg)
     else if tc_Provider cfg = ''self-signed'' \<or> tc_Provider cfg = [] then Inr (tp_buildSelfSignedTLSApp cfg)
     else if tc_Provider cfg = ''external'' then Inr (tp_buildExternalTLSApp cfg)
     else Inl (tc_Provider cfg))"

datatype acme_event =
    ChainSkipped string string string
  | ProviderDeprecated string
  | ChainConfigured string "string list" string

definition providerFromCA :: "TLSConfig \<Rightarrow> string \<Rightarrow> string" where
  "providerFromCA cfg ca =
    (if tc_ACMECA cfg \<noteq> [] \<and> ca = tc_ACMECA cfg then ''custom''
     else if ca = acmeCALetsEncrypt then ''letsencrypt''
     else if ca = acmeCALetsEncryptStaging then ''letsencrypt-staging''
     else if ca = acmeCAZeroSSL then ''zerossl''
     else if ca = acmeCABuypass then ''buypass''
     else ''custom'')"

definition resolvedChainProviders :: "TLSConfig \<Rightarrow> json list \<Rightarrow> string list" where
  "resolvedChainProviders cfg issuers = map (\<lambda>iss. providerFromCA cfg (as_string (json_field iss ''ca''))) issuers"

definition emitACMEChainEvents :: "TLSConfig \<Rightarrow> acme_event list" where
  "emitACMEChainEvents cfg =
    (let (issuers, skipped) = tp_buildACMEIssuers cfg in
     map (\<lambda>sk. ChainSkipped (sk_Provider sk) (sk_Reason sk) (tc_Provider cfg)) skipped @
     (if tc_Provider cfg = ''buypass'' then [ProviderDeprecated ''buypass''] else []) @
     [ChainConfigured (tc_Provider cfg) (resolvedChainProviders cfg issuers) (tc_Domain cfg)])"

definition tp_Init :: "TLSConfig \<Rightarrow> tls_config_error option \<times> acme_event list" where
  "tp_Init cfg =
    (if \<not> tc_Enabled cfg then (None, [])
     else (case tp_validateTLSConfig cfg of
             Some e \<Rightarrow> (Some e, [])
           | None \<Rightarrow> (None, if tp_isACMEProvider (tc_Provider cfg) then emitACMEChainEvents cfg else [])))"

section \<open>The certificate monitor\<close>

text \<open>What a read of the files finds: the expiry of the certificate, or nothing. The files the storage
  directory holds are a parameter.\<close>

record cert_files =
  cf_external :: "instant option"
  cf_stored :: "instant option"

definition monitor_ReadCert :: "TLSConfig \<Rightarrow> cert_files \<Rightarrow> instant option" where
  "monitor_ReadCert cfg files =
    (if tc_Provider cfg = ''external'' then cf_external files
     else if tc_Provider cfg \<in> {''letsencrypt'', ''self-signed'', []} then
       (if tc_StoragePath cfg = [] then None else cf_stored files)
     else None)"

definition applyMonitorDefaults :: "TLSConfig \<Rightarrow> TLSConfig" where
  "applyMonitorDefaults cfg =
    cfg\<lparr>tc_WarningThreshold := (if tc_WarningThreshold cfg = 0 then 30 * 24 * 60 * minute else tc_WarningThreshold cfg),
        tc_CriticalThreshold := (if tc_CriticalThreshold cfg = 0 then 7 * 24 * 60 * minute else tc_CriticalThreshold cfg)\<rparr>"

datatype expiry_event = CertExpiryCritical instant | CertExpiryWarning instant

definition monitor_check :: "TLSConfig \<Rightarrow> cert_files \<Rightarrow> instant \<Rightarrow> bool \<Rightarrow> expiry_event list \<times> bool" where
  "monitor_check cfg files now degraded =
    (case monitor_ReadCert cfg files of
       None \<Rightarrow> ([], degraded)
     | Some notAfter \<Rightarrow>
         let remaining = time_sub notAfter now in
         if remaining \<le> tc_CriticalThreshold cfg then ([CertExpiryCritical notAfter], True)
         else if remaining \<le> tc_WarningThreshold cfg then ([CertExpiryWarning notAfter], False)
         else ([], False))"

fun monitor_run :: "TLSConfig \<Rightarrow> (cert_files \<times> instant) list \<Rightarrow> bool \<Rightarrow> bool" where
  "monitor_run cfg [] degraded = degraded"
| "monitor_run cfg ((files, now) # checks) degraded =
    monitor_run cfg checks (snd (monitor_check cfg files now degraded))"

text \<open>The health of the plugin; \<open>None\<close> is a plugin without a monitor.\<close>

definition tp_Healthy :: "TLSConfig \<Rightarrow> bool option \<Rightarrow> bool" where
  "tp_Healthy cfg monitor = (if \<not> tc_Enabled cfg then True else case monitor of Some degraded \<Rightarrow> \<not> degraded | None \<Rightarrow> True)"

section \<open>Domains no ACME authority issues for\<close>

definition reservedTLDs :: "string list" where
  "reservedTLDs = [''.local'', ''.localhost'', ''.test'', ''.invalid'', ''.example'']"

definition IsACMEIncompatible :: "string \<Rightarrow> bool \<times> string" where
  "IsACMEIncompatible domain =
    (if domain = [] then (False, [])
     else
       let d = ToLower (TrimSuffix ''.'' domain) in
       if d = ''localhost'' then (True, ''localhost'')
       else if ParseIP d \<noteq> None then (True, ''IP literal'')
       else if CHR ''.'' \<in> set d then
         (let tld = CHR ''.'' # rev (takeWhile (\<lambda>c. c \<noteq> CHR ''.'') (rev d)) in
          if tld \<in> set reservedTLDs then (True, ''reserved TLD '' @ tld) else (False, []))
       else (False, []))"

section \<open>Properties\<close>


text \<open>The health of the TLS plugin follows the last certificate the monitor could read: it is
  degraded exactly when that certificate had at most the critical threshold left, and a check that
  reads none leaves the verdict.\<close>

definition readable :: "TLSConfig \<Rightarrow> (cert_files \<times> instant) list \<Rightarrow> (instant \<times> instant) list" where
  "readable cfg checks =
    concat (map (\<lambda>(files, now). case monitor_ReadCert cfg files of None \<Rightarrow> [] | Some na \<Rightarrow> [(na, now)]) checks)"

theorem monitor_follows_last_certificate:
  "monitor_run cfg checks degraded =
    (if readable cfg checks = [] then degraded
     else time_sub (fst (last (readable cfg checks))) (snd (last (readable cfg checks))) \<le> tc_CriticalThreshold cfg)"
  by (induction cfg checks degraded rule: monitor_run.induct)
     (auto simp: readable_def monitor_check_def Let_def split: option.splits)

text \<open>The monitor reads no certificate for three of the providers the validation accepts, nor without a
  storage path: the plugin reports good health however close the expiry.\<close>

theorem acme_alternatives_unmonitored:
  "tp_validateTLSConfig cfg = None \<Longrightarrow>
   tc_Provider cfg \<in> {''zerossl'', ''buypass'', ''letsencrypt-staging''} \<or>
     tc_Provider cfg \<noteq> ''external'' \<and> tc_StoragePath cfg = [] \<Longrightarrow>
   tp_Healthy cfg (Some (monitor_run cfg checks False))"
  by (induction cfg checks "False" rule: monitor_run.induct)
     (auto simp: tp_Healthy_def monitor_check_def monitor_ReadCert_def)

definition buypass_config :: TLSConfig where
  "buypass_config =
    \<lparr>tc_Enabled = True, tc_Provider = ''buypass'', tc_Domain = ''example.com'', tc_CertPath = [], tc_KeyPath = [],
     tc_StoragePath = ''/data'', tc_Email = [], tc_ACMECA = [], tc_MonitorEnabled = True,
     tc_WarningThreshold = 30 * 24 * 60 * minute, tc_CriticalThreshold = 7 * 24 * 60 * minute\<rparr>"

theorem acme_alternatives_unmonitored_witness:
  "tp_Healthy buypass_config
     (Some (monitor_run buypass_config [(\<lparr>cf_external = None, cf_stored = Some 5\<rparr>, 10)] False)) \<and>
   \<not> tp_Healthy (buypass_config\<lparr>tc_Provider := ''letsencrypt''\<rparr>)
     (Some (monitor_run (buypass_config\<lparr>tc_Provider := ''letsencrypt''\<rparr>)
       [(\<lparr>cf_external = None, cf_stored = Some 5\<rparr>, 10)] False))"
proof
  show "tp_Healthy buypass_config
     (Some (monitor_run buypass_config [(\<lparr>cf_external = None, cf_stored = Some 5\<rparr>, 10)] False))"
    by (rule acme_alternatives_unmonitored) (simp_all add: buypass_config_def tp_validateTLSConfig_def)
qed (simp add: tp_Healthy_def buypass_config_def monitor_check_def monitor_ReadCert_def time_sub_def
    max_duration_def min_duration_def minute_def second_def)

end
