(* ===== verification/PluginRegistry.thy ===== *)
theory PluginRegistry
  imports Prelude
begin

text \<open>The plugin registry (\<^verbatim>\<open>internal/plugins/registry.go\<close>) and the readiness endpoint over it
  (\<^verbatim>\<open>internal/middleware/ready.go\<close>). A plugin is what its methods answer: the errors of \<^verbatim>\<open>Init\<close>,
  \<^verbatim>\<open>Start\<close> and \<^verbatim>\<open>Stop\<close>, its health, and what it contributes to the proxy when it does.\<close>

record HealthStatus =
  hs_Healthy :: bool
  hs_Message :: string

record 'c Plugin =
  pl_Name :: string
  pl_Critical :: bool
  pl_Init :: "string option"
  pl_Start :: "string option"
  pl_Stop :: "string option"
  pl_Health :: HealthStatus
  pl_Contributes :: "'c option"

record 'c Registry =
  rg_plugins :: "'c Plugin list"
  rg_degraded :: "(string, string) gomap"

datatype plugin_call = CallInit string | CallStart string | CallStop string

datatype lifecycle_error =
    InitError string string
  | StartError string string
  | StopError string string
  | StopErrors string

definition NewRegistry :: "'c Registry" where
  "NewRegistry = \<lparr>rg_plugins = [], rg_degraded = []\<rparr>"

definition Register :: "'c Plugin \<Rightarrow> 'c Registry \<Rightarrow> 'c Registry" where
  "Register p r = r\<lparr>rg_plugins := rg_plugins r @ [p]\<rparr>"

definition is_degraded :: "'c Registry \<Rightarrow> string \<Rightarrow> bool" where
  "is_degraded r name \<longleftrightarrow> map_of (rg_degraded r) name \<noteq> None"

definition CaddyContributors :: "'c Registry \<Rightarrow> 'c list" where
  "CaddyContributors r =
    concat (map (\<lambda>p. if is_degraded r (pl_Name p) then []
                     else case pl_Contributes p of Some c \<Rightarrow> [c] | None \<Rightarrow> []) (rg_plugins r))"

definition markDegraded :: "string \<Rightarrow> string \<Rightarrow> 'c Registry \<Rightarrow> 'c Registry" where
  "markDegraded name reason r = r\<lparr>rg_degraded := AList.update name reason (rg_degraded r)\<rparr>"

text \<open>Both loops return the error, the calls they made and the registry.\<close>

fun init_loop :: "'c Plugin list \<Rightarrow> 'c Registry \<Rightarrow> lifecycle_error option \<times> plugin_call list \<times> 'c Registry" where
  "init_loop [] r = (None, [], r)"
| "init_loop (p # ps) r =
    (case pl_Init p of
       Some e \<Rightarrow>
         if pl_Critical p then (Some (InitError (pl_Name p) e), [CallInit (pl_Name p)], r)
         else (case init_loop ps (markDegraded (pl_Name p) (''init failed: '' @ e) r) of
                 (err, cs, r') \<Rightarrow> (err, CallInit (pl_Name p) # cs, r'))
     | None \<Rightarrow> (case init_loop ps r of (err, cs, r') \<Rightarrow> (err, CallInit (pl_Name p) # cs, r')))"

definition InitAll :: "'c Registry \<Rightarrow> lifecycle_error option \<times> plugin_call list \<times> 'c Registry" where
  "InitAll r = init_loop (rg_plugins r) r"

fun start_loop :: "'c Plugin list \<Rightarrow> 'c Registry \<Rightarrow> lifecycle_error option \<times> plugin_call list \<times> 'c Registry" where
  "start_loop [] r = (None, [], r)"
| "start_loop (p # ps) r =
    (if is_degraded r (pl_Name p) then start_loop ps r
     else
       case pl_Start p of
         Some e \<Rightarrow>
           if pl_Critical p then (Some (StartError (pl_Name p) e), [CallStart (pl_Name p)], r)
           else (case start_loop ps (markDegraded (pl_Name p) (''start failed: '' @ e) r) of
                   (err, cs, r') \<Rightarrow> (err, CallStart (pl_Name p) # cs, r'))
       | None \<Rightarrow> (case start_loop ps r of (err, cs, r') \<Rightarrow> (err, CallStart (pl_Name p) # cs, r')))"

definition StartAll :: "'c Registry \<Rightarrow> lifecycle_error option \<times> plugin_call list \<times> 'c Registry" where
  "StartAll r = start_loop (rg_plugins r) r"

definition joinErrors :: "string list \<Rightarrow> string" where
  "joinErrors errs = foldl (\<lambda>msg e. msg @ ''; '' @ e) (hd errs) (tl errs)"

definition StopAll :: "'c Registry \<Rightarrow> lifecycle_error option \<times> plugin_call list" where
  "StopAll r =
    (let ps = rev (rg_plugins r);
         errs = concat (map (\<lambda>p. case pl_Stop p of Some e \<Rightarrow> [(pl_Name p, e)] | None \<Rightarrow> []) ps) in
     ((case errs of
         [] \<Rightarrow> None
       | [(n, e)] \<Rightarrow> Some (StopError n e)
       | _ \<Rightarrow> Some (StopErrors (joinErrors (map (\<lambda>(n, e). ''stop plugin '' @ [CHR 0x22] @ n @ [CHR 0x22] @ '': '' @ e) errs)))),
      map (\<lambda>p. CallStop (pl_Name p)) ps))"

definition HealthAll :: "'c Registry \<Rightarrow> (string, HealthStatus) gomap" where
  "HealthAll r =
    foldl (\<lambda>m p. AList.update (pl_Name p)
             (case map_of (rg_degraded r) (pl_Name p) of
                Some reason \<Rightarrow> \<lparr>hs_Healthy = False, hs_Message = ''degraded: '' @ reason\<rparr>
              | None \<Rightarrow> pl_Health p) m) [] (rg_plugins r)"

record ReadinessStatus =
  rs_PluginsReady :: bool
  rs_UpstreamReachable :: bool
  rs_Plugins :: "(string, HealthStatus) gomap"
  rs_DegradedPlugins :: "(string, string) gomap"

text \<open>\<open>upstream\<close> is the printed status of the upstream checker, if there is one.\<close>

definition readiness_status :: "'c Registry \<Rightarrow> string option \<Rightarrow> ReadinessStatus" where
  "readiness_status r upstream =
    \<lparr>rs_PluginsReady = list_all (\<lambda>(_, hs). hs_Healthy hs) (HealthAll r),
     rs_UpstreamReachable = (case upstream of Some s \<Rightarrow> s = ''healthy'' | None \<Rightarrow> True),
     rs_Plugins = HealthAll r, rs_DegradedPlugins = rg_degraded r\<rparr>"

definition Ready :: "'c Registry \<Rightarrow> string option \<Rightarrow> bool" where
  "Ready r upstream =
    (let rs = readiness_status r upstream in rs_PluginsReady rs \<and> rs_UpstreamReachable rs)"

record ReadyResponse =
  ry_Ready :: bool
  ry_Plugins :: "(string, string) gomap"
  ry_Upstream :: "string option"
  ry_Degraded :: "(string, string) gomap"

definition ReadyHandler :: "ReadinessStatus option \<Rightarrow> int \<times> ReadyResponse" where
  "ReadyHandler checker =
    (case checker of
       None \<Rightarrow> (200, \<lparr>ry_Ready = True, ry_Plugins = [], ry_Upstream = None, ry_Degraded = []\<rparr>)
     | Some rs \<Rightarrow>
         (let ready = (rs_PluginsReady rs \<and> rs_UpstreamReachable rs) in
          (if ready then 200 else 503,
           \<lparr>ry_Ready = ready,
            ry_Plugins = map (\<lambda>(n, hs). (n, if hs_Healthy hs then ''healthy'' else ''unhealthy'')) (rs_Plugins rs),
            ry_Upstream = Some (if rs_UpstreamReachable rs then ''reachable'' else ''unreachable''),
            ry_Degraded = rs_DegradedPlugins rs\<rparr>)))"

section \<open>Lemmas\<close>

lemma is_degraded_mark [simp]: "is_degraded (markDegraded n e r) m \<longleftrightarrow> m = n \<or> is_degraded r m"
  by (simp add: is_degraded_def markDegraded_def)

lemma rg_plugins_mark [simp]: "rg_plugins (markDegraded n e r) = rg_plugins r"
  by (simp add: markDegraded_def)

text \<open>A plugin that failed a phase it may survive.\<close>

definition fails :: "('c Plugin \<Rightarrow> string option) \<Rightarrow> 'c Plugin \<Rightarrow> bool" where
  "fails phase p \<longleftrightarrow> phase p \<noteq> None"

lemma init_loop_None:
  "init_loop ps r = (err, cs, r') \<Longrightarrow>
   (err = None \<longleftrightarrow> (\<forall>p\<in>set ps. pl_Critical p \<longrightarrow> pl_Init p = None)) \<and> rg_plugins r' = rg_plugins r \<and>
   (err = None \<longrightarrow>
     cs = map (\<lambda>p. CallInit (pl_Name p)) ps \<and>
     (\<forall>n. is_degraded r' n \<longleftrightarrow> is_degraded r n \<or> (\<exists>p\<in>set ps. pl_Name p = n \<and> pl_Init p \<noteq> None)))"
proof (induction ps r arbitrary: err cs r' rule: init_loop.induct)
  case (2 p ps r)
  show ?case
  proof (cases "pl_Init p")
    case None
    obtain e1 c1 r1 where rest: "init_loop ps r = (e1, c1, r1)" by (metis prod_cases3)
    with "2.prems" None have "err = e1" "cs = CallInit (pl_Name p) # c1" "r' = r1" by auto
    with "2.IH"(1) [OF None rest] None show ?thesis by auto
  next
    case (Some e)
    show ?thesis
    proof (cases "pl_Critical p")
      case True
      with "2.prems" Some show ?thesis by auto
    next
      case False
      obtain e1 c1 r1 where rest: "init_loop ps (markDegraded (pl_Name p) (''init failed: '' @ e) r) = (e1, c1, r1)"
        by (metis prod_cases3)
      with "2.prems" Some False have "err = e1" "cs = CallInit (pl_Name p) # c1" "r' = r1" by auto
      with "2.IH"(2) [OF Some False rest] Some False show ?thesis by auto
    qed
  qed
qed auto

lemma start_loop_None:
  "start_loop ps r = (err, cs, r') \<Longrightarrow> distinct (map pl_Name ps) \<Longrightarrow>
   (err = None \<longleftrightarrow> (\<forall>p\<in>set ps. pl_Critical p \<longrightarrow> is_degraded r (pl_Name p) \<or> pl_Start p = None)) \<and>
   rg_plugins r' = rg_plugins r \<and>
   (err = None \<longrightarrow>
     cs = map (\<lambda>p. CallStart (pl_Name p)) (filter (\<lambda>p. \<not> is_degraded r (pl_Name p)) ps) \<and>
     (\<forall>n. is_degraded r' n \<longleftrightarrow> is_degraded r n \<or> (\<exists>p\<in>set ps. pl_Name p = n \<and> pl_Start p \<noteq> None)))"
proof (induction ps r arbitrary: err cs r' rule: start_loop.induct)
  case (2 p ps r)
  have names: "pl_Name p \<notin> pl_Name ` set ps" "distinct (map pl_Name ps)" using "2.prems"(2) by auto
  have other: "q \<in> set ps \<Longrightarrow> pl_Name q \<noteq> pl_Name p" for q using names(1) by (metis image_eqI)
  show ?case
  proof (cases "is_degraded r (pl_Name p)")
    case True
    with "2.prems"(1) have "start_loop ps r = (err, cs, r')" by simp
    from "2.IH"(1) [OF True this names(2)] True show ?thesis by auto
  next
    case nd: False
    show ?thesis
    proof (cases "pl_Start p")
      case None
      obtain e1 c1 r1 where rest: "start_loop ps r = (e1, c1, r1)" by (metis prod_cases3)
      with "2.prems"(1) None nd have "err = e1" "cs = CallStart (pl_Name p) # c1" "r' = r1" by auto
      with "2.IH"(2) [OF nd None rest names(2)] None nd show ?thesis by auto
    next
      case (Some e)
      show ?thesis
      proof (cases "pl_Critical p")
        case True
        with "2.prems"(1) Some nd show ?thesis by auto
      next
        case False
        let ?r = "markDegraded (pl_Name p) (''start failed: '' @ e) r"
        obtain e1 c1 r1 where rest: "start_loop ps ?r = (e1, c1, r1)" by (metis prod_cases3)
        with "2.prems"(1) Some False nd have eq: "err = e1" "cs = CallStart (pl_Name p) # c1" "r' = r1" by auto
        have "filter (\<lambda>q. \<not> is_degraded ?r (pl_Name q)) ps = filter (\<lambda>q. \<not> is_degraded r (pl_Name q)) ps"
          by (rule filter_cong) (auto dest: other)
        moreover have "(\<forall>q\<in>set ps. pl_Critical q \<longrightarrow> is_degraded ?r (pl_Name q) \<or> pl_Start q = None) \<longleftrightarrow>
            (\<forall>q\<in>set ps. pl_Critical q \<longrightarrow> is_degraded r (pl_Name q) \<or> pl_Start q = None)"
          by (rule ball_cong) (auto dest: other)
        ultimately show ?thesis using "2.IH"(3) [OF nd Some False rest names(2)] Some False nd eq by auto
      qed
    qed
  qed
qed auto

lemma map_of_HealthAll_fold:
  "distinct (map pl_Name ps) \<Longrightarrow>
   map_of (foldl (\<lambda>m p. AList.update (pl_Name p) (f p) m) m0 ps) n =
     (case List.find (\<lambda>p. pl_Name p = n) ps of Some p \<Rightarrow> Some (f p) | None \<Rightarrow> map_of m0 n)"
proof (induction ps arbitrary: m0)
  case (Cons p ps)
  then have "pl_Name p = n \<Longrightarrow> List.find (\<lambda>p. pl_Name p = n) ps = None" by (force simp: find_None_iff image_iff)
  with Cons show ?case by (auto split: option.split)
qed simp

lemma gomap_wf_foldl_update: "gomap_wf m \<Longrightarrow> gomap_wf (foldl (\<lambda>m p. AList.update (g p) (f p) m) m ps)"
  by (induction ps arbitrary: m) auto

lemma gomap_wf_HealthAll: "gomap_wf (HealthAll r)"
  unfolding HealthAll_def by (rule gomap_wf_foldl_update) simp

lemma list_all_map_of:
  "gomap_wf m \<Longrightarrow> list_all (\<lambda>(_, v). P v) m \<longleftrightarrow> (\<forall>k v. map_of m k = Some v \<longrightarrow> P v)"
  by (force simp: list_all_iff dest: map_of_SomeD)

lemma find_name:
  "distinct (map pl_Name ps) \<Longrightarrow> p \<in> set ps \<Longrightarrow> List.find (\<lambda>q. pl_Name q = pl_Name p) ps = Some p"
proof (induction ps)
  case (Cons q ps)
  then show ?case by (cases "p = q") (auto dest: imageI [of _ _ pl_Name])
qed simp

lemma HealthAll_find:
  "distinct (map pl_Name (rg_plugins r)) \<Longrightarrow>
   map_of (HealthAll r) n =
     (case List.find (\<lambda>p. pl_Name p = n) (rg_plugins r) of
        Some p \<Rightarrow> Some (case map_of (rg_degraded r) (pl_Name p) of
                          Some reason \<Rightarrow> \<lparr>hs_Healthy = False, hs_Message = ''degraded: '' @ reason\<rparr>
                        | None \<Rightarrow> pl_Health p)
      | None \<Rightarrow> None)"
  unfolding HealthAll_def by (subst map_of_HealthAll_fold) (auto split: option.split)

lemma plugins_ready_iff:
  assumes "distinct (map pl_Name (rg_plugins r))"
  shows "rs_PluginsReady (readiness_status r u) \<longleftrightarrow>
    (\<forall>p\<in>set (rg_plugins r). \<not> is_degraded r (pl_Name p) \<and> hs_Healthy (pl_Health p))"
proof -
  have "rs_PluginsReady (readiness_status r u) \<longleftrightarrow> (\<forall>n hs. map_of (HealthAll r) n = Some hs \<longrightarrow> hs_Healthy hs)"
    unfolding readiness_status_def by (simp add: list_all_map_of gomap_wf_HealthAll)
  also have "\<dots> \<longleftrightarrow> (\<forall>p\<in>set (rg_plugins r). \<not> is_degraded r (pl_Name p) \<and> hs_Healthy (pl_Health p))"
  proof (intro iffI ballI allI impI)
    fix p assume all: "\<forall>n hs. map_of (HealthAll r) n = Some hs \<longrightarrow> hs_Healthy hs" and p: "p \<in> set (rg_plugins r)"
    show "\<not> is_degraded r (pl_Name p) \<and> hs_Healthy (pl_Health p)"
    proof (cases "map_of (rg_degraded r) (pl_Name p)")
      case None
      then have "map_of (HealthAll r) (pl_Name p) = Some (pl_Health p)"
        by (simp add: HealthAll_find [OF assms] find_name [OF assms p])
      with all None show ?thesis by (auto simp: is_degraded_def)
    next
      case (Some reason)
      then have "map_of (HealthAll r) (pl_Name p) = Some \<lparr>hs_Healthy = False, hs_Message = ''degraded: '' @ reason\<rparr>"
        by (simp add: HealthAll_find [OF assms] find_name [OF assms p])
      with all have "hs_Healthy \<lparr>hs_Healthy = False, hs_Message = ''degraded: '' @ reason\<rparr>" by blast
      then show ?thesis by simp
    qed
  next
    fix n hs
    assume "\<forall>p\<in>set (rg_plugins r). \<not> is_degraded r (pl_Name p) \<and> hs_Healthy (pl_Health p)"
      and "map_of (HealthAll r) n = Some hs"
    then show "hs_Healthy hs"
      by (auto simp: HealthAll_find [OF assms] is_degraded_def split: option.splits dest: find_SomeD)
  qed
  finally show ?thesis .
qed

lemma is_degraded_empty [simp]: "rg_degraded r = [] \<Longrightarrow> \<not> is_degraded r n"
  by (simp add: is_degraded_def)

lemma same_name: "distinct (map pl_Name ps) \<Longrightarrow> p \<in> set ps \<Longrightarrow> q \<in> set ps \<Longrightarrow> pl_Name p = pl_Name q \<Longrightarrow> p = q"
  by (simp add: distinct_map inj_on_def)

lemma named_plugin:
  "distinct (map pl_Name ps) \<Longrightarrow> p \<in> set ps \<Longrightarrow> (\<exists>q\<in>set ps. pl_Name q = pl_Name p \<and> P q) \<longleftrightarrow> P p"
  by (metis same_name)

text \<open>A plugin that came up in both phases.\<close>

definition came_up :: "'c Plugin \<Rightarrow> bool" where
  "came_up p \<longleftrightarrow> pl_Init p = None \<and> pl_Start p = None"

text \<open>What the plugins that came up contribute, in registration order.\<close>

definition contributions :: "'c Plugin list \<Rightarrow> 'c list" where
  "contributions ps = concat (map (\<lambda>p. case pl_Contributes p of Some c \<Rightarrow> [c] | None \<Rightarrow> []) (filter came_up ps))"

lemma startup_degraded:
  assumes "distinct (map pl_Name (rg_plugins r))" "rg_degraded r = []"
    and "InitAll r = (None, c1, r1)" "StartAll r1 = (None, c2, r2)"
  shows "rg_plugins r2 = rg_plugins r" and "p \<in> set (rg_plugins r) \<Longrightarrow> is_degraded r2 (pl_Name p) \<longleftrightarrow> \<not> came_up p"
proof -
  have i: "rg_plugins r1 = rg_plugins r"
      "\<And>n. is_degraded r1 n \<longleftrightarrow> (\<exists>p\<in>set (rg_plugins r). pl_Name p = n \<and> pl_Init p \<noteq> None)"
    using init_loop_None [OF assms(3) [unfolded InitAll_def]] assms(2) by auto
  have s: "rg_plugins r2 = rg_plugins r1"
      "\<And>n. is_degraded r2 n \<longleftrightarrow> is_degraded r1 n \<or> (\<exists>p\<in>set (rg_plugins r1). pl_Name p = n \<and> pl_Start p \<noteq> None)"
    using start_loop_None [OF assms(4) [unfolded StartAll_def]] assms(1) i(1) by auto
  show "rg_plugins r2 = rg_plugins r" using i s by simp
  show "p \<in> set (rg_plugins r) \<Longrightarrow> is_degraded r2 (pl_Name p) \<longleftrightarrow> \<not> came_up p"
    using named_plugin [OF assms(1)] by (auto simp: i s came_up_def)
qed

lemma startup_critical:
  assumes "distinct (map pl_Name (rg_plugins r))" "rg_degraded r = []"
    and "InitAll r = (e1, c1, r1)" "StartAll r1 = (e2, c2, r2)"
  shows "e1 = None \<and> e2 = None \<longleftrightarrow> (\<forall>p\<in>set (rg_plugins r). pl_Critical p \<longrightarrow> came_up p)"
proof -
  note i = init_loop_None [OF assms(3) [unfolded InitAll_def]]
  have "rg_plugins r1 = rg_plugins r" using i by simp
  then have s: "e2 = None \<longleftrightarrow>
      (\<forall>p\<in>set (rg_plugins r). pl_Critical p \<longrightarrow> is_degraded r1 (pl_Name p) \<or> pl_Start p = None)"
    using start_loop_None [OF assms(4) [unfolded StartAll_def]] assms(1) by simp
  show ?thesis
  proof (cases "e1 = None")
    case True
    then have "is_degraded r1 (pl_Name p) \<longleftrightarrow> pl_Init p \<noteq> None" if "p \<in> set (rg_plugins r)" for p
      using i assms(2) named_plugin [OF assms(1) that, of "\<lambda>p. pl_Init p \<noteq> None"] by auto
    then show ?thesis using True conjunct1 [OF i] s by (auto simp: came_up_def)
  next
    case False
    with i show ?thesis by (auto simp: came_up_def)
  qed
qed

lemma startup_contributors:
  assumes "distinct (map pl_Name (rg_plugins r))" "rg_degraded r = []"
    and "InitAll r = (None, c1, r1)" "StartAll r1 = (None, c2, r2)"
  shows "CaddyContributors r2 = contributions (rg_plugins r)"
proof -
  note up = startup_degraded [OF assms]
  have "concat (map (\<lambda>p. if is_degraded r2 (pl_Name p) then [] else case pl_Contributes p of Some c \<Rightarrow> [c] | None \<Rightarrow> []) ps) =
      contributions ps" if "set ps \<subseteq> set (rg_plugins r)" for ps
    using that by (induction ps) (auto simp: contributions_def up(2))
  then show ?thesis by (simp add: CaddyContributors_def up(1))
qed

section \<open>Properties\<close>

text \<open>C33: The sidecar comes up exactly when every critical plugin does, whatever the others answer. Then
  precisely the plugins that came up contribute to the proxy, in registration order, and the
  readiness probe succeeds precisely when all plugins came up, all are healthy and the upstream is not
  known to be down.\<close>

theorem startup_contract:
  assumes "distinct (map pl_Name (rg_plugins r))" and "rg_degraded r = []"
    and "InitAll r = (e1, c1, r1)" and "StartAll r1 = (e2, c2, r2)"
  shows "(e1 = None \<and> e2 = None \<longleftrightarrow> (\<forall>p\<in>set (rg_plugins r). pl_Critical p \<longrightarrow> came_up p)) \<and>
    (e1 = None \<and> e2 = None \<longrightarrow>
      CaddyContributors r2 = contributions (rg_plugins r) \<and>
      (Ready r2 upstream \<longleftrightarrow>
        (\<forall>p\<in>set (rg_plugins r). came_up p \<and> hs_Healthy (pl_Health p)) \<and> upstream \<in> {None, Some ''healthy''}))"
proof (intro conjI impI)
  show "e1 = None \<and> e2 = None \<longleftrightarrow> (\<forall>p\<in>set (rg_plugins r). pl_Critical p \<longrightarrow> came_up p)"
    by (rule startup_critical [OF assms])
next
  assume "e1 = None \<and> e2 = None"
  then have ok: "InitAll r = (None, c1, r1)" "StartAll r1 = (None, c2, r2)" using assms(3,4) by auto
  show "CaddyContributors r2 = contributions (rg_plugins r)" by (rule startup_contributors [OF assms(1,2) ok])
  note up = startup_degraded [OF assms(1,2) ok]
  show "Ready r2 upstream \<longleftrightarrow>
      (\<forall>p\<in>set (rg_plugins r). came_up p \<and> hs_Healthy (pl_Health p)) \<and> upstream \<in> {None, Some ''healthy''}"
    using plugins_ready_iff [of r2 upstream] assms(1) up
    by (auto simp: Ready_def Let_def readiness_status_def split: option.splits)
qed

definition sample_plugin :: "string \<Rightarrow> bool \<Rightarrow> string option \<Rightarrow> nat Plugin" where
  "sample_plugin name critical init_error =
    \<lparr>pl_Name = name, pl_Critical = critical, pl_Init = init_error, pl_Start = None, pl_Stop = None,
     pl_Health = \<lparr>hs_Healthy = True, hs_Message = []\<rparr>, pl_Contributes = Some (length name)\<rparr>"

definition sample_registry :: "nat Registry" where
  "sample_registry =
    Register (sample_plugin ''waf'' False (Some ''bad mode'')) (Register (sample_plugin ''auth'' True None) NewRegistry)"

theorem startup_contract_witness:
  "\<exists>c1 r1 c2 r2. InitAll sample_registry = (None, c1, r1) \<and> StartAll r1 = (None, c2, r2) \<and>
    CaddyContributors r2 = [4] \<and> \<not> Ready r2 None"
proof -
  let ?r1 = "snd (snd (InitAll sample_registry))" and ?r2 = "snd (snd (StartAll (snd (snd (InitAll sample_registry)))))"
  have d: "distinct (map pl_Name (rg_plugins sample_registry))" "rg_degraded sample_registry = []" by code_simp+
  have i: "InitAll sample_registry = (None, [CallInit ''auth'', CallInit ''waf''], ?r1)" by code_simp
  have s: "StartAll ?r1 = (None, [CallStart ''auth''], ?r2)" by code_simp
  have c: "contributions (rg_plugins sample_registry) = [4]" by code_simp
  have n: "\<not> (\<forall>p\<in>set (rg_plugins sample_registry). came_up p)" by code_simp
  have "CaddyContributors ?r2 = [4] \<and> \<not> Ready ?r2 None"
    using startup_contract [OF d i s, of None] c n by auto
  with i s show ?thesis by blast
qed

end
