(* ===== verification/CaddyPlugins.thy ===== *)
theory CaddyPlugins
  imports CaddyJson NetAddr PathMatch
begin

text \<open>The plugins that only translate their configuration into Caddy handlers
  (\<^verbatim>\<open>internal/plugins/*/plugin.go\<close>): maintenance, ip-filter, cors, input-validation, security-headers,
  waf, body-size, webhook-signature, response-headers and rate-limiting. Per plugin: the configuration, the
  error of \<^verbatim>\<open>Init\<close> and the handlers it contributes. An empty and a missing slice are the same list.\<close>

record CaddyHandler =
  ch_Handler :: json
  ch_Priority :: int

record CaddyRoute =
  rt_MatchPath :: string
  rt_Handler :: json
  rt_Priority :: int

text \<open>A handler of the sidecar's own modules: its name and its marshalled configuration.\<close>

definition module_handler :: "string \<Rightarrow> (string \<times> json) list \<Rightarrow> json" where
  "module_handler name cfg = JObj [(''handler'', JStr name), (''config'', JObj cfg)]"

definition contribute :: "bool \<Rightarrow> json \<Rightarrow> int \<Rightarrow> CaddyHandler list" where
  "contribute on h prio = (if on then [\<lparr>ch_Handler = h, ch_Priority = prio\<rparr>] else [])"

definition quoted :: "string \<Rightarrow> string" where
  "quoted s = [CHR 0x22] @ s @ [CHR 0x22]"

section \<open>Maintenance\<close>

record MaintenanceConfig =
  mn_Enabled :: bool
  mn_Message :: string

definition buildMaintenanceHandlerJSON :: "MaintenanceConfig \<Rightarrow> json" where
  "buildMaintenanceHandlerJSON cfg =
    module_handler ''vibewarden_maintenance''
      [(''message'', JStr (if mn_Message cfg = [] then ''Service is under maintenance'' else mn_Message cfg))]"

definition maintenance_handlers :: "MaintenanceConfig \<Rightarrow> CaddyHandler list" where
  "maintenance_handlers cfg = contribute (mn_Enabled cfg) (buildMaintenanceHandlerJSON cfg) 5"

section \<open>IP filter\<close>

record IPFilterPluginConfig =
  fp_Enabled :: bool
  fp_Mode :: string
  fp_Addresses :: "string list"
  fp_TrustProxyHeaders :: bool

fun bad_address :: "string list \<Rightarrow> string option" where
  "bad_address [] = None"
| "bad_address (a # as) =
    (case ParseCIDR a of
       Some _ \<Rightarrow> bad_address as
     | None \<Rightarrow> (case ParseIP a of Some _ \<Rightarrow> bad_address as | None \<Rightarrow> Some a))"

definition ipfilter_Init :: "IPFilterPluginConfig \<Rightarrow> string option" where
  "ipfilter_Init cfg =
    (if \<not> fp_Enabled cfg then None
     else
       let mode = (if fp_Mode cfg = [] then ''blocklist'' else fp_Mode cfg) in
       if mode \<noteq> ''allowlist'' \<and> mode \<noteq> ''blocklist''
       then Some (''ip_filter.mode '' @ quoted mode @ '' is invalid; accepted values: '' @ quoted ''allowlist'' @ '', '' @
                  quoted ''blocklist'')
       else (case bad_address (fp_Addresses cfg) of
               Some a \<Rightarrow> Some (''ip_filter.addresses: '' @ quoted a @ '' is not a valid IP address or CIDR'')
             | None \<Rightarrow> None))"

definition buildIPFilterHandlerJSON :: "IPFilterPluginConfig \<Rightarrow> json" where
  "buildIPFilterHandlerJSON cfg =
    module_handler ''vibewarden_ip_filter''
      [(''mode'', JStr (if fp_Mode cfg = [] then ''blocklist'' else fp_Mode cfg)),
       (''addresses'', json_strings (fp_Addresses cfg)),
       (''trust_proxy_headers'', JBool (fp_TrustProxyHeaders cfg))]"

definition ipfilter_handlers :: "IPFilterPluginConfig \<Rightarrow> CaddyHandler list" where
  "ipfilter_handlers cfg = contribute (fp_Enabled cfg) (buildIPFilterHandlerJSON cfg) 15"

section \<open>CORS\<close>

record CorsConfig =
  co_Enabled :: bool
  co_AllowedOrigins :: "string list"
  co_AllowedMethods :: "string list"
  co_AllowedHeaders :: "string list"
  co_ExposedHeaders :: "string list"
  co_AllowCredentials :: bool
  co_MaxAge :: int

definition isWildcard :: "string list \<Rightarrow> bool" where
  "isWildcard origins = list_ex (\<lambda>o'. o' = ''*'') origins"

definition cors_Init :: "CorsConfig \<Rightarrow> string option" where
  "cors_Init cfg =
    (if \<not> co_Enabled cfg then None
     else if co_AllowCredentials cfg \<and> isWildcard (co_AllowedOrigins cfg)
     then Some (''cors plugin init: cors: allow_credentials: true cannot be combined with allowed_origins: ['' @
                quoted ''*'' @ '']; browsers reject credentialed requests to wildcard origins'')
     else None)"

record corsHeaders =
  ho_allowOrigin :: string
  ho_varyOrigin :: bool
  ho_allowMethods :: string
  ho_allowHeaders :: string
  ho_exposeHeaders :: string
  ho_allowCredentials :: bool
  ho_maxAge :: string

definition buildCORSHeaders :: "CorsConfig \<Rightarrow> corsHeaders" where
  "buildCORSHeaders cfg =
    \<lparr>ho_allowOrigin = (if isWildcard (co_AllowedOrigins cfg) then ''*'' else ''{http.request.header.Origin}''),
     ho_varyOrigin = (\<not> isWildcard (co_AllowedOrigins cfg)),
     ho_allowMethods = Join '', '' (co_AllowedMethods cfg),
     ho_allowHeaders = Join '', '' (co_AllowedHeaders cfg),
     ho_exposeHeaders = Join '', '' (co_ExposedHeaders cfg),
     ho_allowCredentials = co_AllowCredentials cfg,
     ho_maxAge = (if 0 < co_MaxAge cfg then Sprint_d (co_MaxAge cfg) else [])\<rparr>"

definition one_value :: "string \<Rightarrow> string \<Rightarrow> string \<times> json" where
  "one_value k v = (k, json_strings [v])"

definition if_set :: "bool \<Rightarrow> string \<Rightarrow> string \<Rightarrow> (string \<times> json) list" where
  "if_set b k v = (if b then [one_value k v] else [])"

definition buildPreflightHandler :: "corsHeaders \<Rightarrow> json" where
  "buildPreflightHandler h =
    (let handler =
       JObj [(''handler'', JStr ''static_response''), (''status_code'', JInt 204),
         (''headers'', JObj
           ([one_value ''Access-Control-Allow-Origin'' (ho_allowOrigin h),
             one_value ''Access-Control-Allow-Methods'' (ho_allowMethods h),
             one_value ''Access-Control-Allow-Headers'' (ho_allowHeaders h)] @
            if_set (ho_allowCredentials h) ''Access-Control-Allow-Credentials'' ''true'' @
            if_set (ho_maxAge h \<noteq> []) ''Access-Control-Max-Age'' (ho_maxAge h) @
            if_set (ho_varyOrigin h) ''Vary'' ''Origin''))] in
     JObj [(''handler'', JStr ''subroute''),
       (''routes'', JArr [JObj [(''match'', JArr [JObj [(''method'', json_strings [''OPTIONS''])]]), (''handle'', JArr [handler])]])])"

definition buildResponseHeadersHandler :: "corsHeaders \<Rightarrow> json" where
  "buildResponseHeadersHandler h =
    JObj [(''handler'', JStr ''headers''),
      (''response'', JObj [(''set'', JObj
        ([one_value ''Access-Control-Allow-Origin'' (ho_allowOrigin h)] @
         if_set (ho_allowMethods h \<noteq> []) ''Access-Control-Allow-Methods'' (ho_allowMethods h) @
         if_set (ho_allowHeaders h \<noteq> []) ''Access-Control-Allow-Headers'' (ho_allowHeaders h) @
         if_set (ho_exposeHeaders h \<noteq> []) ''Access-Control-Expose-Headers'' (ho_exposeHeaders h) @
         if_set (ho_allowCredentials h) ''Access-Control-Allow-Credentials'' ''true'' @
         if_set (ho_maxAge h \<noteq> []) ''Access-Control-Max-Age'' (ho_maxAge h) @
         if_set (ho_varyOrigin h) ''Vary'' ''Origin''))])]"

definition cors_handlers :: "CorsConfig \<Rightarrow> CaddyHandler list" where
  "cors_handlers cfg =
    (if \<not> co_Enabled cfg then []
     else
       let h = buildCORSHeaders cfg in
       [\<lparr>ch_Handler = buildPreflightHandler h, ch_Priority = 10\<rparr>,
        \<lparr>ch_Handler = buildResponseHeadersHandler h, ch_Priority = 11\<rparr>])"

section \<open>Input validation\<close>

record InputLimits =
  il_Path :: string
  il_MaxURLLength :: int
  il_MaxQueryStringLength :: int
  il_MaxHeaderCount :: int
  il_MaxHeaderSize :: int

record InputValidationPluginConfig =
  ivp_Enabled :: bool
  ivp_MaxURLLength :: int
  ivp_MaxQueryStringLength :: int
  ivp_MaxHeaderCount :: int
  ivp_MaxHeaderSize :: int
  ivp_PathOverrides :: "InputLimits list"

fun bad_override :: "nat \<Rightarrow> InputLimits list \<Rightarrow> string option" where
  "bad_override i [] = None"
| "bad_override i (ov # ovs) =
    (if il_Path ov = [] then Some (''input_validation: path_overrides['' @ Itoa i @ ''].path must not be empty'')
     else if path_Match (il_Path ov) [] = None
     then Some (''input_validation: path_overrides['' @ Itoa i @ ''].path '' @ quoted (il_Path ov) @
                '' is not a valid path.Match pattern: syntax error in pattern'')
     else bad_override (Suc i) ovs)"

definition inputvalidation_Init :: "InputValidationPluginConfig \<Rightarrow> string option" where
  "inputvalidation_Init cfg = (if ivp_Enabled cfg then bad_override 0 (ivp_PathOverrides cfg) else None)"

definition input_override_json :: "InputLimits \<Rightarrow> json" where
  "input_override_json ov =
    JObj ([(''path'', JStr (il_Path ov))] @
      omit_if (il_MaxURLLength ov = 0) ''max_url_length'' (JInt (il_MaxURLLength ov)) @
      omit_if (il_MaxQueryStringLength ov = 0) ''max_query_string_length'' (JInt (il_MaxQueryStringLength ov)) @
      omit_if (il_MaxHeaderCount ov = 0) ''max_header_count'' (JInt (il_MaxHeaderCount ov)) @
      omit_if (il_MaxHeaderSize ov = 0) ''max_header_size'' (JInt (il_MaxHeaderSize ov)))"

definition buildInputValidationHandlerJSON :: "InputValidationPluginConfig \<Rightarrow> json" where
  "buildInputValidationHandlerJSON cfg =
    module_handler ''vibewarden_input_validation''
      ([(''max_url_length'', JInt (ivp_MaxURLLength cfg)),
        (''max_query_string_length'', JInt (ivp_MaxQueryStringLength cfg)),
        (''max_header_count'', JInt (ivp_MaxHeaderCount cfg)),
        (''max_header_size'', JInt (ivp_MaxHeaderSize cfg))] @
       omit_if (ivp_PathOverrides cfg = []) ''path_overrides'' (JArr (map input_override_json (ivp_PathOverrides cfg))))"

definition inputvalidation_handlers :: "InputValidationPluginConfig \<Rightarrow> CaddyHandler list" where
  "inputvalidation_handlers cfg = contribute (ivp_Enabled cfg) (buildInputValidationHandlerJSON cfg) 18"

section \<open>Security headers\<close>

record SecurityHeadersPluginConfig =
  shp_Enabled :: bool
  shp_FrameOption :: string

definition securityheaders_Init :: "SecurityHeadersPluginConfig \<Rightarrow> string option" where
  "securityheaders_Init cfg =
    (if \<not> shp_Enabled cfg then None
     else if shp_FrameOption cfg \<in> {''DENY'', ''SAMEORIGIN'', []} then None
     else Some (''security-headers plugin init: invalid frame_option '' @ quoted (shp_FrameOption cfg) @
                ''; valid values: DENY, SAMEORIGIN, '' @ quoted [] @ '' (disabled)''))"

section \<open>WAF\<close>

record WafPluginConfig =
  wp_ContentTypes :: bool
  wp_Allowed :: "string list"
  wp_Engine :: bool
  wp_Mode :: string
  wp_SQLInjection :: bool
  wp_XSS :: bool
  wp_PathTraversal :: bool
  wp_CommandInjection :: bool
  wp_ExemptPaths :: "string list"

definition waf_Init :: "WafPluginConfig \<Rightarrow> string option" where
  "waf_Init cfg =
    (if wp_ContentTypes cfg \<and> wp_Allowed cfg = []
     then Some ''waf: content_type_validation.allowed must contain at least one media type when enabled''
     else if wp_Engine cfg \<and> wp_Mode cfg \<notin> {''block'', ''detect'', []}
     then Some (''waf: engine.mode must be '' @ quoted ''block'' @ '' or '' @ quoted ''detect'' @ '', got '' @ quoted (wp_Mode cfg))
     else None)"

definition buildContentTypeHandlerJSON :: "WafPluginConfig \<Rightarrow> json" where
  "buildContentTypeHandlerJSON cfg =
    module_handler ''vibewarden_waf_content_type'' [(''allowed'', json_strings (wp_Allowed cfg))]"

definition buildEngineHandlerJSON :: "WafPluginConfig \<Rightarrow> json" where
  "buildEngineHandlerJSON cfg =
    module_handler ''vibewarden_waf_engine''
      [(''mode'', JStr (if wp_Mode cfg = [] then ''block'' else wp_Mode cfg)),
       (''rules'', JObj
         [(''sqli'', JBool (wp_SQLInjection cfg)), (''xss'', JBool (wp_XSS cfg)),
          (''path_traversal'', JBool (wp_PathTraversal cfg)), (''cmd_injection'', JBool (wp_CommandInjection cfg))]),
       (''exempt_paths'', json_strings (wp_ExemptPaths cfg))]"

definition waf_handlers :: "WafPluginConfig \<Rightarrow> CaddyHandler list" where
  "waf_handlers cfg =
    contribute (wp_ContentTypes cfg) (buildContentTypeHandlerJSON cfg) 25 @
    contribute (wp_Engine cfg) (buildEngineHandlerJSON cfg) 25"

section \<open>Body size\<close>

record BodySizeConfig =
  bs_Enabled :: bool
  bs_MaxBytes :: int
  bs_Overrides :: "(string \<times> int) list"

definition override_json :: "string \<times> int \<Rightarrow> json" where
  "override_json ov = JObj [(''path'', JStr (fst ov)), (''max_bytes'', JInt (snd ov))]"

definition buildBodySizeHandlerJSON :: "BodySizeConfig \<Rightarrow> json" where
  "buildBodySizeHandlerJSON cfg =
    module_handler ''vibewarden_body_size''
      ([(''max_bytes'', JInt (bs_MaxBytes cfg))] @
       omit_if (bs_Overrides cfg = []) ''overrides'' (JArr (map override_json (bs_Overrides cfg))))"

definition bodysize_handlers :: "BodySizeConfig \<Rightarrow> CaddyHandler list" where
  "bodysize_handlers cfg = contribute (bs_Enabled cfg) (buildBodySizeHandlerJSON cfg) 45"

section \<open>Webhook signatures\<close>

record WebhookRuleConfig =
  whr_Path :: string
  whr_Provider :: string
  whr_SecretEnvVar :: string
  whr_Header :: string

record WebhookSigPluginConfig =
  whp_Enabled :: bool
  whp_Paths :: "WebhookRuleConfig list"

definition validateProvider :: "string \<Rightarrow> string option" where
  "validateProvider p =
    (if p \<in> {''stripe'', ''github'', ''slack'', ''twilio'', ''generic''} then None
     else Some (''unknown provider '' @ quoted p @ ''; valid values: stripe, github, slack, twilio, generic''))"

fun bad_rule :: "nat \<Rightarrow> WebhookRuleConfig list \<Rightarrow> string option" where
  "bad_rule i [] = None"
| "bad_rule i (r # rs) =
    (let at_rule = ''webhook-signature rule['' @ Itoa i @ '']: '' in
     if whr_Path r = [] then Some (at_rule @ ''path is required'')
     else case validateProvider (whr_Provider r) of
       Some e \<Rightarrow> Some (at_rule @ e)
     | None \<Rightarrow> if whr_SecretEnvVar r = [] then Some (at_rule @ ''secret_env_var is required'') else bad_rule (Suc i) rs)"

text \<open>The rules the plugin keeps, with the secrets the environment holds at startup; the handler it
  contributes reads the environment again when it is provisioned.\<close>

definition webhooksig_Init ::
    "(string \<Rightarrow> string) \<Rightarrow> WebhookSigPluginConfig \<Rightarrow> string + (WebhookRuleConfig \<times> string) list" where
  "webhooksig_Init getenv cfg =
    (if \<not> whp_Enabled cfg then Inr []
     else case bad_rule 0 (whp_Paths cfg) of
       Some e \<Rightarrow> Inl e
     | None \<Rightarrow> Inr (map (\<lambda>r. (r, getenv (whr_SecretEnvVar r))) (whp_Paths cfg)))"

definition webhook_rule_json :: "WebhookRuleConfig \<Rightarrow> json" where
  "webhook_rule_json r =
    JObj ([(''path'', JStr (whr_Path r)), (''provider'', JStr (whr_Provider r)),
           (''secret_env_var'', JStr (whr_SecretEnvVar r))] @ omit_if (whr_Header r = []) ''header'' (JStr (whr_Header r)))"

definition BuildWebhookSignatureHandlerJSON :: "WebhookRuleConfig list \<Rightarrow> json" where
  "BuildWebhookSignatureHandlerJSON rules =
    module_handler ''vibewarden_webhook_signature'' [(''rules'', JArr (map webhook_rule_json rules))]"

definition webhooksig_handlers :: "WebhookSigPluginConfig \<Rightarrow> (WebhookRuleConfig \<times> string) list \<Rightarrow> CaddyHandler list" where
  "webhooksig_handlers cfg rules =
    contribute (whp_Enabled cfg \<and> rules \<noteq> []) (BuildWebhookSignatureHandlerJSON (whp_Paths cfg)) 35"

section \<open>Response headers\<close>

record ResponseHeadersConfig =
  rh_Set :: "(string, string) gomap"
  rh_Add :: "(string, string) gomap"
  rh_Remove :: "string list"

definition response_headers_active :: "ResponseHeadersConfig \<Rightarrow> bool" where
  "response_headers_active cfg \<longleftrightarrow> rh_Set cfg \<noteq> [] \<or> rh_Add cfg \<noteq> [] \<or> rh_Remove cfg \<noteq> []"

definition buildResponseHeadersHandlerJSON :: "ResponseHeadersConfig \<Rightarrow> json" where
  "buildResponseHeadersHandlerJSON cfg =
    JObj [(''handler'', JStr ''headers''),
      (''response'', JObj
        (omit_if (rh_Remove cfg = []) ''delete'' (json_strings (rh_Remove cfg)) @
         omit_if (rh_Set cfg = []) ''set'' (JObj (map (\<lambda>(k, v). one_value k v) (rh_Set cfg))) @
         omit_if (rh_Add cfg = []) ''add'' (JObj (map (\<lambda>(k, v). one_value k v) (rh_Add cfg)))))]"

definition responseheaders_handlers :: "ResponseHeadersConfig \<Rightarrow> CaddyHandler list" where
  "responseheaders_handlers cfg = contribute (response_headers_active cfg) (buildResponseHeadersHandlerJSON cfg) 25"

section \<open>Rate limiting\<close>

record RateRule =
  rr_RequestsPerSecond :: rat
  rr_Burst :: int

record RedisSettings =
  rd_KeyPrefix :: string
  rd_Fallback :: bool
  rd_HealthCheckInterval :: "duration option"

record RateLimitPluginConfig =
  rlp_Enabled :: bool
  rlp_Store :: string
  rlp_TrustProxyHeaders :: bool
  rlp_ExemptPaths :: "string list"
  rlp_PerIP :: RateRule
  rlp_PerUser :: RateRule
  rlp_Redis :: RedisSettings

text \<open>The factory of the limiters the plugin itself keeps; \<open>client_error\<close> is the error of building the
  Redis client, \<open>rd_HealthCheckInterval\<close> the interval the setting parses to.\<close>

datatype limiter_factory =
    MemoryFactory
  | RedisFactory string
  | FallbackFactory string duration

definition buildFactory :: "string option \<Rightarrow> RateLimitPluginConfig \<Rightarrow> string + limiter_factory" where
  "buildFactory client_error cfg =
    (if rlp_Store cfg = [] \<or> rlp_Store cfg = ''memory'' then Inr MemoryFactory
     else if rlp_Store cfg = ''redis'' then
       (case client_error of
          Some e \<Rightarrow> Inl e
        | None \<Rightarrow>
            let keyPrefix = (if rd_KeyPrefix (rlp_Redis cfg) = [] then ''vibewarden'' else rd_KeyPrefix (rlp_Redis cfg)) @ '':ratelimit'' in
            Inr (if \<not> rd_Fallback (rlp_Redis cfg) then RedisFactory keyPrefix
                 else FallbackFactory keyPrefix
                        (case rd_HealthCheckInterval (rlp_Redis cfg) of Some d \<Rightarrow> d | None \<Rightarrow> 30 * second)))
     else Inl (''unknown rate limit store '' @ quoted (rlp_Store cfg)))"

definition ratelimit_Init ::
    "limiter_factory option \<Rightarrow> string option \<Rightarrow> RateLimitPluginConfig \<Rightarrow> string + limiter_factory option" where
  "ratelimit_Init factory client_error cfg =
    (if \<not> rlp_Enabled cfg then Inr factory
     else case factory of
       Some f \<Rightarrow> Inr (Some f)
     | None \<Rightarrow>
         (case buildFactory client_error cfg of
            Inl e \<Rightarrow> Inl (''building rate limiter factory: '' @ e)
          | Inr f \<Rightarrow> Inr (Some f)))"

definition rate_rule_json :: "RateRule \<Rightarrow> json" where
  "rate_rule_json r = JObj [(''requests_per_second'', JRat (rr_RequestsPerSecond r)), (''burst'', JInt (rr_Burst r))]"

definition buildRateLimitHandlerJSON :: "RateLimitPluginConfig \<Rightarrow> json" where
  "buildRateLimitHandlerJSON cfg =
    module_handler ''vibewarden_rate_limit''
      ([(''enabled'', JBool (rlp_Enabled cfg)), (''per_ip'', rate_rule_json (rlp_PerIP cfg)),
        (''per_user'', rate_rule_json (rlp_PerUser cfg)), (''trust_proxy_headers'', JBool (rlp_TrustProxyHeaders cfg))] @
       omit_if (rlp_ExemptPaths cfg = []) ''exempt_paths'' (json_strings (rlp_ExemptPaths cfg)))"

definition ratelimit_handlers :: "RateLimitPluginConfig \<Rightarrow> CaddyHandler list" where
  "ratelimit_handlers cfg = contribute (rlp_Enabled cfg) (buildRateLimitHandlerJSON cfg) 50"

section \<open>Lemmas\<close>

lemma handler_name_module [simp]: "handler_name (module_handler n cfg) = n"
  by (simp add: handler_name_def module_handler_def)

lemma handler_name_JObj [simp]: "handler_name (JObj ((''handler'', JStr n) # fs)) = n"
  by (simp add: handler_name_def)

lemma contribute_simps [simp]: "contribute False h p = []" "contribute True h p = [\<lparr>ch_Handler = h, ch_Priority = p\<rparr>]"
  by (simp_all add: contribute_def)

text \<open>The names of the modules a list of handlers asks for.\<close>

definition names :: "CaddyHandler list \<Rightarrow> string list" where
  "names hs = map (\<lambda>h. handler_name (ch_Handler h)) hs"

lemma names_simps [simp]:
  "names [] = []" "names (xs @ ys) = names xs @ names ys" "names (ch # hs) = handler_name (ch_Handler ch) # names hs"
  "names (contribute b h p) = (if b then [handler_name h] else [])"
  by (simp_all add: names_def contribute_def)

section \<open>Properties\<close>

text \<open>Whatever Caddy makes of the handlers, it cannot hold requests to the configured origins: two
  configurations that allow different lists of origins, neither with the wildcard, contribute the same
  handlers, and these echo the origin of the request.\<close>

theorem cors_ignores_allowed_origins:
  assumes "\<not> isWildcard origins" and "\<not> isWildcard (co_AllowedOrigins cfg)"
  shows "cors_handlers (cfg\<lparr>co_AllowedOrigins := origins\<rparr>) = cors_handlers cfg \<and>
    cors_Init (cfg\<lparr>co_AllowedOrigins := origins\<rparr>) = None \<and>
    ho_allowOrigin (buildCORSHeaders cfg) = ''{http.request.header.Origin}''"
  using assms by (simp add: cors_handlers_def buildCORSHeaders_def cors_Init_def)

definition sample_cors :: CorsConfig where
  "sample_cors =
    \<lparr>co_Enabled = True, co_AllowedOrigins = [''https://app.example.com''], co_AllowedMethods = [''GET'', ''POST''],
     co_AllowedHeaders = [''Content-Type''], co_ExposedHeaders = [], co_AllowCredentials = True, co_MaxAge = 600\<rparr>"

theorem cors_ignores_allowed_origins_witness:
  "cors_handlers (sample_cors\<lparr>co_AllowedOrigins := [''https://other.example.org'']\<rparr>) = cors_handlers sample_cors \<and>
   cors_handlers sample_cors \<noteq> []"
proof
  have "\<not> isWildcard [''https://other.example.org'']" "\<not> isWildcard (co_AllowedOrigins sample_cors)"
    by code_simp+
  then show "cors_handlers (sample_cors\<lparr>co_AllowedOrigins := [''https://other.example.org'']\<rparr>) = cors_handlers sample_cors"
    using cors_ignores_allowed_origins by blast
  show "cors_handlers sample_cors \<noteq> []" by (simp add: cors_handlers_def sample_cors_def Let_def)
qed

text \<open>The handler the rate limiting plugin contributes does not say which store to use: a sidecar
  configured for Redis installs the handler of one configured for memory.\<close>

theorem ratelimit_handler_ignores_store:
  "ratelimit_handlers (cfg\<lparr>rlp_Store := ''redis'', rlp_Redis := r\<rparr>) = ratelimit_handlers (cfg\<lparr>rlp_Store := ''memory''\<rparr>)"
  by (simp add: ratelimit_handlers_def buildRateLimitHandlerJSON_def)

end
