(* ===== verification/AuthPlugin.thy ===== *)
theory AuthPlugin
  imports CaddyPlugins KratosAuth
begin

text \<open>The authentication plugin (\<^verbatim>\<open>internal/plugins/auth/plugin.go\<close>): startup, health, and the routes
  and handlers it contributes in each mode. What startup obtains from outside is a parameter: the
  address (or error) of the internal login pages server and of the development key server, the error of
  loading the development keys, \<^verbatim>\<open>url.ParseRequestURI\<close> and \<^verbatim>\<open>url.Parse\<close>.\<close>

section \<open>Configuration and state\<close>

record JWTPluginConfig =
  jw_JWKSURL :: string
  jw_IssuerURL :: string
  jw_Issuer :: string
  jw_Audience :: string

record APIKeyScopeRule =
  as_Path :: string
  as_Methods :: "string list"
  as_RequiredScopes :: "string list"

record AuthPluginConfig =
  ap_Enabled :: bool
  ap_Mode :: string
  ap_JWT :: JWTPluginConfig
  ap_KratosPublicURL :: string
  ap_SessionCookieName :: string
  ap_LoginURL :: string
  ap_PublicPaths :: "string list"
  ap_RolePaths :: "(string, string list) gomap"
  ap_APIKeyHeader :: string
  ap_ScopeRules :: "APIKeyScopeRule list"
  ap_UIMode :: string
  ap_UILoginURL :: string

record url_parts =
  up_scheme :: string
  up_hostname :: string
  up_port :: string

record auth_env =
  ae_request_uri :: "string \<Rightarrow> bool"
  ae_parse :: "string \<Rightarrow> url_parts option"
  ae_ui_handler :: "string option"
  ae_ui_start :: "string + string"
  ae_dev_keys :: "string option"
  ae_jwks_start :: "string + string"

datatype provider_kind = KratosProvider | DevJWTProvider string string | InjectedProvider

record AuthPluginState =
  st_cfg :: AuthPluginConfig
  st_identityProvider :: "provider_kind option"
  st_uiHandler :: "string option"
  st_devJWKSServer :: "string option"
  st_healthy :: bool
  st_healthMsg :: string

definition NewAuthPlugin :: "AuthPluginConfig \<Rightarrow> provider_kind option \<Rightarrow> AuthPluginState" where
  "NewAuthPlugin cfg provider =
    \<lparr>st_cfg = cfg, st_identityProvider = provider, st_uiHandler = None, st_devJWKSServer = None, st_healthy = False,
     st_healthMsg = []\<rparr>"

definition defaultSessionCookieName :: string where
  "defaultSessionCookieName = ''ory_kratos_session''"

definition defaultLoginURL :: string where
  "defaultLoginURL = ''/self-service/login/browser''"

definition DevJWKSPath :: string where
  "DevJWKSPath = ''/_vibewarden/jwks.json''"

definition DevTokenPath :: string where
  "DevTokenPath = ''/_vibewarden/token''"

definition DevIssuer :: string where
  "DevIssuer = ''vibewarden-dev''"

definition DevAudience :: string where
  "DevAudience = ''dev''"

definition LocalJWKSURL :: "string \<Rightarrow> string" where
  "LocalJWKSURL addr = ''http://'' @ addr @ DevJWKSPath"

definition or_default :: "string \<Rightarrow> string \<Rightarrow> string" where
  "or_default s d = (if s = [] then d else s)"

section \<open>Startup\<close>

definition validateKratosConfig :: "auth_env \<Rightarrow> AuthPluginConfig \<Rightarrow> string option" where
  "validateKratosConfig env cfg =
    (if ap_KratosPublicURL cfg = [] then Some ''kratos_public_url is required when auth is enabled''
     else if \<not> ae_request_uri env (ap_KratosPublicURL cfg)
     then Some (''kratos_public_url '' @ quoted (ap_KratosPublicURL cfg) @ '' is not a valid URL'')
     else if ap_UIMode cfg = ''custom'' \<and> ap_UILoginURL cfg = []
     then Some (''ui.login_url is required when ui.mode is '' @ quoted ''custom'')
     else None)"

definition init_kratos :: "auth_env \<Rightarrow> AuthPluginState \<Rightarrow> string + AuthPluginState" where
  "init_kratos env p =
    (case validateKratosConfig env (st_cfg p) of
       Some e \<Rightarrow> Inl (''auth plugin init: '' @ e)
     | None \<Rightarrow>
         let cfg = st_cfg p;
             uiMode = or_default (ap_UIMode cfg) ''built-in'';
             cfg1 = cfg\<lparr>ap_SessionCookieName := or_default (ap_SessionCookieName cfg) defaultSessionCookieName,
                        ap_LoginURL := (if uiMode = ''custom'' then ap_UILoginURL cfg
                                        else or_default (ap_LoginURL cfg) defaultLoginURL)\<rparr>;
             p1 = p\<lparr>st_cfg := cfg1,
                    st_identityProvider := (case st_identityProvider p of Some i \<Rightarrow> Some i | None \<Rightarrow> Some KratosProvider)\<rparr>;
             finish = (\<lambda>q. Inr (q\<lparr>st_healthy := True, st_healthMsg := ''auth configured, kratos: '' @ ap_KratosPublicURL cfg\<rparr>)) in
         if uiMode = ''built-in'' then
           (case ae_ui_handler env of
              Some e \<Rightarrow> Inl (''auth plugin init: creating auth UI handler: '' @ e)
            | None \<Rightarrow>
                (case ae_ui_start env of
                   Inl e \<Rightarrow> Inl (''auth plugin init: starting auth UI server: '' @ e)
                 | Inr addr \<Rightarrow> finish (p1\<lparr>st_uiHandler := Some addr\<rparr>)))
         else finish p1)"

definition initDevJWKS :: "auth_env \<Rightarrow> AuthPluginState \<Rightarrow> string + AuthPluginState" where
  "initDevJWKS env p =
    (case ae_dev_keys env of
       Some e \<Rightarrow> Inl (''dev jwks: loading or generating key pair: '' @ e)
     | None \<Rightarrow>
         (case ae_jwks_start env of
            Inl e \<Rightarrow> Inl (''dev jwks: starting server: '' @ e)
          | Inr addr \<Rightarrow>
              let jwt = ap_JWT (st_cfg p) in
              Inr (p\<lparr>st_devJWKSServer := Some addr,
                     st_identityProvider :=
                       (case st_identityProvider p of
                          Some i \<Rightarrow> Some i
                        | None \<Rightarrow> Some (DevJWTProvider (or_default (jw_Issuer jwt) DevIssuer) (or_default (jw_Audience jwt) DevAudience))),
                     st_healthy := True,
                     st_healthMsg := ''auth configured, mode: jwt, dev-jwks: '' @ LocalJWKSURL addr\<rparr>)))"

definition auth_Init :: "auth_env \<Rightarrow> AuthPluginState \<Rightarrow> string + AuthPluginState" where
  "auth_Init env p =
    (let mode = or_default (ap_Mode (st_cfg p)) ''none'' in
     if \<not> ap_Enabled (st_cfg p) \<and> mode = ''none''
     then Inr (p\<lparr>st_healthy := True, st_healthMsg := ''auth disabled''\<rparr>)
     else
       let p1 = p\<lparr>st_cfg := (st_cfg p)\<lparr>ap_Enabled := True\<rparr>\<rparr> in
       if mode = ''kratos'' then init_kratos env p1
       else if mode = ''jwt'' \<and> jw_JWKSURL (ap_JWT (st_cfg p1)) = [] \<and> jw_IssuerURL (ap_JWT (st_cfg p1)) = [] then
         (case initDevJWKS env p1 of Inl e \<Rightarrow> Inl (''auth plugin init: '' @ e) | Inr q \<Rightarrow> Inr q)
       else Inr (p1\<lparr>st_healthy := True, st_healthMsg := ''auth configured, mode: '' @ mode\<rparr>))"

text \<open>Stopping the two servers; each shutdown may fail.\<close>

definition auth_Stop :: "AuthPluginState \<Rightarrow> string option \<Rightarrow> string option \<Rightarrow> string option" where
  "auth_Stop p ui_stop jwks_stop =
    (case (if st_uiHandler p \<noteq> None then ui_stop else None) of
       Some e \<Rightarrow> Some (''auth plugin stop: stopping auth UI server: '' @ e)
     | None \<Rightarrow>
         (case (if st_devJWKSServer p \<noteq> None then jwks_stop else None) of
            Some e \<Rightarrow> Some (''auth plugin stop: stopping dev JWKS server: '' @ e)
          | None \<Rightarrow> None))"

section \<open>Health\<close>

datatype probe_reply = ProbeBadURL string | ProbeUnreachable string | ProbeStatus int

definition auth_Health :: "AuthPluginState \<Rightarrow> bool \<times> string" where
  "auth_Health p = (st_healthy p, st_healthMsg p)"

definition auth_HealthCheck :: "(string \<Rightarrow> probe_reply) \<Rightarrow> AuthPluginState \<Rightarrow> (bool \<times> string) \<times> AuthPluginState" where
  "auth_HealthCheck probe p =
    (if \<not> ap_Enabled (st_cfg p) then ((True, ''auth disabled''), p)
     else
       let mode = or_default (ap_Mode (st_cfg p)) ''none'';
           report = (\<lambda>ok msg. ((ok, msg), p\<lparr>st_healthy := ok, st_healthMsg := msg\<rparr>)) in
       if mode \<noteq> ''kratos'' then report True (''auth configured, mode: '' @ mode)
       else
         (case probe (ap_KratosPublicURL (st_cfg p) @ ''/health/ready'') of
            ProbeBadURL e \<Rightarrow> report False (''auth: cannot build health probe: '' @ e)
          | ProbeUnreachable e \<Rightarrow> report False (''auth: kratos unreachable: '' @ e)
          | ProbeStatus s \<Rightarrow>
              if 500 \<le> s then report False (''auth: kratos health probe returned '' @ Sprint_d s)
              else report True (''auth configured, kratos: '' @ ap_KratosPublicURL (st_cfg p))))"

text \<open>The status and the error text of the dependency report; the latency is not modelled.\<close>

definition CheckDependency :: "(string \<Rightarrow> probe_reply) \<Rightarrow> AuthPluginState \<Rightarrow> string \<times> string" where
  "CheckDependency probe p =
    (if \<not> ap_Enabled (st_cfg p) then (''healthy'', [])
     else if or_default (ap_Mode (st_cfg p)) ''none'' \<noteq> ''kratos'' then (''healthy'', [])
     else
       (case probe (ap_KratosPublicURL (st_cfg p) @ ''/health/ready'') of
          ProbeBadURL e \<Rightarrow> (''unhealthy'', ''cannot build health probe: '' @ e)
        | ProbeUnreachable e \<Rightarrow> (''unhealthy'', ''kratos unreachable: '' @ e)
        | ProbeStatus s \<Rightarrow>
            if 500 \<le> s then (''unhealthy'', ''kratos health probe returned '' @ Sprint_d s) else (''healthy'', [])))"

section \<open>Contributions\<close>

definition urlToDialAddr :: "(string \<Rightarrow> url_parts option) \<Rightarrow> string \<Rightarrow> string" where
  "urlToDialAddr parse rawURL =
    (case parse rawURL of
       None \<Rightarrow> rawURL
     | Some u \<Rightarrow>
         JoinHostPort (up_hostname u)
           (if up_port u = [] then (if up_scheme u = ''https'' then ''443'' else ''80'') else up_port u))"

definition kratosFlowPaths :: "string list" where
  "kratosFlowPaths =
    [''/self-service/login'', ''/self-service/login/*'', ''/self-service/registration'', ''/self-service/registration/*'',
     ''/self-service/logout'', ''/self-service/logout/*'', ''/self-service/settings'', ''/self-service/settings/*'',
     ''/self-service/recovery'', ''/self-service/recovery/*'', ''/self-service/verification'',
     ''/self-service/verification/*'', ''/.ory/kratos/public/*'', ''/sessions/whoami'']"

definition reverse_proxy :: "string \<Rightarrow> json" where
  "reverse_proxy addr = JObj [(''handler'', JStr ''reverse_proxy''), (''upstreams'', JArr [JObj [(''dial'', JStr addr)]])]"

definition route_json :: "string list \<Rightarrow> json list \<Rightarrow> json" where
  "route_json paths handlers =
    JObj [(''match'', JArr [JObj [(''path'', json_strings paths)]]), (''handle'', JArr handlers)]"

definition auth_routes :: "auth_env \<Rightarrow> AuthPluginState \<Rightarrow> CaddyRoute list" where
  "auth_routes env p =
    (if \<not> ap_Enabled (st_cfg p) then []
     else
       let mode = or_default (ap_Mode (st_cfg p)) ''none'' in
       (if mode = ''kratos'' then
          [\<lparr>rt_MatchPath = ''/self-service/*'',
            rt_Handler = route_json kratosFlowPaths
              [reverse_proxy (urlToDialAddr (ae_parse env) (ap_KratosPublicURL (st_cfg p)))],
            rt_Priority = 40\<rparr>] @
          (case st_uiHandler p of
             Some addr \<Rightarrow>
               [\<lparr>rt_MatchPath = ''/_vibewarden/login'',
                 rt_Handler = route_json [''/_vibewarden/login'', ''/_vibewarden/registration'', ''/_vibewarden/recovery'',
                   ''/_vibewarden/verification'', ''/_vibewarden/settings''] [reverse_proxy addr],
                 rt_Priority = 39\<rparr>]
           | None \<Rightarrow> [])
        else []) @
       (case st_devJWKSServer p of
          Some addr \<Rightarrow>
            map (\<lambda>path. \<lparr>rt_MatchPath = path, rt_Handler = route_json [path] [reverse_proxy addr], rt_Priority = 38\<rparr>)
              [DevJWKSPath, DevTokenPath]
        | None \<Rightarrow> []))"

definition buildJWTBearerHandler :: "string \<Rightarrow> string \<Rightarrow> string \<Rightarrow> string list \<Rightarrow> json" where
  "buildJWTBearerHandler jwksURL issuer audience publicPaths =
    JObj [(''handler'', JStr ''jwt_bearer''), (''jwks_url'', JStr jwksURL), (''issuer'', JStr issuer),
      (''audience'', JStr audience), (''public_paths'', json_strings publicPaths)]"

definition buildAPIKeyHandler :: "AuthPluginConfig \<Rightarrow> json" where
  "buildAPIKeyHandler cfg =
    JObj [(''handler'', JStr ''api_key_auth''), (''header'', JStr (ap_APIKeyHeader cfg)),
      (''scope_rules'', JArr (map (\<lambda>r. JObj
         [(''path'', JStr (as_Path r)), (''methods'', json_strings (as_Methods r)),
          (''required_scopes'', json_strings (as_RequiredScopes r))]) (ap_ScopeRules cfg)))]"

definition buildAuthHandler ::
    "string \<Rightarrow> string \<Rightarrow> string list \<Rightarrow> string \<Rightarrow> (string, string list) gomap \<Rightarrow> json" where
  "buildAuthHandler cookieName loginURL publicPaths kratosURL rolePaths =
    JObj ([(''handler'', JStr ''vibewarden_authentication''), (''cookie_name'', JStr cookieName),
      (''login_url'', JStr loginURL), (''public_paths'', json_strings publicPaths), (''kratos_url'', JStr kratosURL)] @
      omit_if (rolePaths = []) ''role_paths'' (JObj (map (\<lambda>(r, ps). (r, json_strings ps)) rolePaths)))"

definition buildIdentityHeadersHandler :: "string \<Rightarrow> string \<Rightarrow> json" where
  "buildIdentityHeadersHandler cookieName kratosURL =
    JObj [(''handler'', JStr ''vibewarden_identity_headers''), (''cookie_name'', JStr cookieName), (''kratos_url'', JStr kratosURL)]"

text \<open>The mode the handlers are built for: unlike elsewhere in the plugin, an unset mode with a Kratos
  URL is the Kratos mode.\<close>

definition handler_mode :: "AuthPluginConfig \<Rightarrow> string" where
  "handler_mode cfg =
    (if ap_Mode cfg = [] then (if ap_KratosPublicURL cfg \<noteq> [] then ''kratos'' else ''none'') else ap_Mode cfg)"

definition auth_handlers :: "AuthPluginState \<Rightarrow> CaddyHandler list" where
  "auth_handlers p =
    (let cfg = st_cfg p; mode = handler_mode cfg in
     if \<not> ap_Enabled cfg then []
     else if mode = ''api-key'' then [\<lparr>ch_Handler = buildAPIKeyHandler cfg, ch_Priority = 36\<rparr>]
     else
       case (if mode = ''jwt'' then st_devJWKSServer p else None) of
         Some addr \<Rightarrow>
           [\<lparr>ch_Handler = buildJWTBearerHandler (LocalJWKSURL addr) (or_default (jw_Issuer (ap_JWT cfg)) DevIssuer)
                (or_default (jw_Audience (ap_JWT cfg)) DevAudience) (''/_vibewarden/*'' # ap_PublicPaths cfg),
             ch_Priority = 40\<rparr>]
       | None \<Rightarrow>
           if mode \<noteq> ''kratos'' then []
           else
             let cookieName = or_default (ap_SessionCookieName cfg) defaultSessionCookieName in
             [\<lparr>ch_Handler = buildAuthHandler cookieName (or_default (ap_LoginURL cfg) defaultLoginURL)
                  ([''/_vibewarden/*'', ''/self-service/*'', ''/.ory/*''] @ ap_PublicPaths cfg)
                  (ap_KratosPublicURL cfg) (ap_RolePaths cfg),
               ch_Priority = 40\<rparr>,
              \<lparr>ch_Handler = buildIdentityHeadersHandler cookieName (ap_KratosPublicURL cfg), ch_Priority = 41\<rparr>])"

section \<open>The fallback provider\<close>

text \<open>\<^verbatim>\<open>kratosHTTPChecker\<close>: any session the service accepts is the identity named by the cookie's value. The
  messages that carry an error text of the transport are left empty.\<close>

definition kratosHTTPChecker_Authenticate :: "kratos_api \<Rightarrow> string \<Rightarrow> ClientRequest \<Rightarrow> AuthResult" where
  "kratosHTTPChecker_Authenticate kratos publicURL r =
    (case req_Cookie r ''ory_kratos_session'' of
       None \<Rightarrow> Failure ''no_credentials'' ''no session cookie''
     | Some v \<Rightarrow>
         (case kratos (publicURL @ ''/sessions/whoami'') (CookieCredential (''ory_kratos_session='' @ v)) of
            WhoamiBadURL \<Rightarrow> Failure ''auth_error'' []
          | WhoamiTimeout \<Rightarrow> Failure ''provider_unavailable'' []
          | WhoamiUnreachable \<Rightarrow> Failure ''provider_unavailable'' []
          | WhoamiAnswer status _ \<Rightarrow>
              if status = 200 then
                (case NewIdentity v [] ''kratos'' False [] of
                   Inr i \<Rightarrow> Success i
                 | Inl _ \<Rightarrow> Failure ''invalid_identity'' [])
              else if status = 401 then Failure ''session_invalid'' ''session is invalid or expired''
              else if 500 \<le> status then Failure ''provider_unavailable'' (''kratos responded with '' @ Sprint_d status)
              else Failure ''session_invalid'' (''unexpected kratos status '' @ Sprint_d status)))"

section \<open>The configuration the handlers are given\<close>

text \<open>\<^verbatim>\<open>UnmarshalJSON\<close> of the authentication and the API key handler, on documents whose fields have the
  expected types: a nested \<^verbatim>\<open>config\<close> when it is not empty, and the flat layout otherwise.\<close>

definition auth_config_of :: "json \<Rightarrow> AuthHandlerConfig" where
  "auth_config_of j =
    \<lparr>ah_CookieName = as_string (json_field j ''cookie_name''), ah_LoginURL = as_string (json_field j ''login_url''),
     ah_PublicPaths = as_strings (json_field j ''public_paths''), ah_KratosURL = as_string (json_field j ''kratos_url''),
     ah_RolePaths =
       (case json_field j ''role_paths'' of Some (JObj rs) \<Rightarrow> map (\<lambda>(r, ps). (r, as_strings (Some ps))) rs | _ \<Rightarrow> [])\<rparr>"

definition AuthHandler_UnmarshalJSON :: "json \<Rightarrow> AuthHandlerConfig" where
  "AuthHandler_UnmarshalJSON j =
    (case json_field j ''config'' of
       Some c \<Rightarrow> if ah_CookieName (auth_config_of c) \<noteq> [] then auth_config_of c else auth_config_of j
     | None \<Rightarrow> auth_config_of j)"

definition scope_rule_of :: "json \<Rightarrow> APIKeyScopeRule" where
  "scope_rule_of j =
    \<lparr>as_Path = as_string (json_field j ''path''), as_Methods = as_strings (json_field j ''methods''),
     as_RequiredScopes = as_strings (json_field j ''required_scopes'')\<rparr>"

definition api_key_config_of :: "json \<Rightarrow> string \<times> APIKeyScopeRule list" where
  "api_key_config_of j =
    (as_string (json_field j ''header''),
     case json_field j ''scope_rules'' of Some (JArr rs) \<Rightarrow> map scope_rule_of rs | _ \<Rightarrow> [])"

definition APIKeyHandler_UnmarshalJSON :: "json \<Rightarrow> string \<times> APIKeyScopeRule list" where
  "APIKeyHandler_UnmarshalJSON j =
    (case json_field j ''config'' of
       Some c \<Rightarrow>
         if fst (api_key_config_of c) \<noteq> [] \<or> snd (api_key_config_of c) \<noteq> [] then api_key_config_of c else api_key_config_of j
     | None \<Rightarrow> api_key_config_of j)"

section \<open>Lemmas\<close>

lemma or_default_simps [simp]: "or_default [] d = d" "s \<noteq> [] \<Longrightarrow> or_default s d = s"
  by (simp_all add: or_default_def)

lemma init_kratos_state:
  "init_kratos env p = Inr q \<Longrightarrow>
   ap_Enabled (st_cfg q) = ap_Enabled (st_cfg p) \<and> ap_Mode (st_cfg q) = ap_Mode (st_cfg p) \<and>
   ap_KratosPublicURL (st_cfg q) = ap_KratosPublicURL (st_cfg p) \<and> ap_KratosPublicURL (st_cfg p) \<noteq> [] \<and>
   ap_PublicPaths (st_cfg q) = ap_PublicPaths (st_cfg p) \<and> ap_RolePaths (st_cfg q) = ap_RolePaths (st_cfg p) \<and>
   st_devJWKSServer q = st_devJWKSServer p \<and> st_healthy q"
  by (auto simp: init_kratos_def validateKratosConfig_def Let_def split: if_splits option.splits sum.splits)

lemma initDevJWKS_state:
  "initDevJWKS env p = Inr q \<Longrightarrow> st_cfg q = st_cfg p \<and> st_devJWKSServer q \<noteq> None \<and> st_healthy q"
  by (auto simp: initDevJWKS_def Let_def split: option.splits sum.splits)

text \<open>Whether the mode has the sidecar check requests itself.\<close>

definition enforced_by :: "AuthPluginConfig \<Rightarrow> string list" where
  "enforced_by cfg =
    (if ap_Mode cfg = ''kratos'' then [''vibewarden_authentication'', ''vibewarden_identity_headers'']
     else if ap_Mode cfg = ''api-key'' then [''api_key_auth'']
     else if ap_Mode cfg = ''jwt'' \<and> jw_JWKSURL (ap_JWT cfg) = [] \<and> jw_IssuerURL (ap_JWT cfg) = [] then [''jwt_bearer'']
     else [])"

text \<open>The configuration a loaded file gives the plugin: enabled exactly when a mode is set.\<close>

definition from_mode :: "AuthPluginConfig \<Rightarrow> bool" where
  "from_mode cfg \<longleftrightarrow> (ap_Enabled cfg \<longleftrightarrow> ap_Mode cfg \<notin> {[], ''none''})"

lemma handler_names_by_mode:
  "names (auth_handlers p) =
    (if \<not> ap_Enabled (st_cfg p) then []
     else if handler_mode (st_cfg p) = ''api-key'' then [''api_key_auth'']
     else if handler_mode (st_cfg p) = ''jwt'' \<and> st_devJWKSServer p \<noteq> None then [''jwt_bearer'']
     else if handler_mode (st_cfg p) = ''kratos'' then [''vibewarden_authentication'', ''vibewarden_identity_headers'']
     else [])"
  by (auto simp: auth_handlers_def buildAPIKeyHandler_def buildJWTBearerHandler_def buildAuthHandler_def
      buildIdentityHeadersHandler_def Let_def split: option.split)

lemma auth_Init_modes:
  assumes "auth_Init env (NewAuthPlugin cfg provider) = Inr p" and "from_mode cfg"
  shows "ap_Enabled (st_cfg p) = (ap_Mode cfg \<notin> {[], ''none''}) \<and> ap_Mode (st_cfg p) = ap_Mode cfg \<and>
    (st_devJWKSServer p \<noteq> None \<longleftrightarrow>
      ap_Mode cfg = ''jwt'' \<and> jw_JWKSURL (ap_JWT cfg) = [] \<and> jw_IssuerURL (ap_JWT cfg) = []) \<and>
    st_healthy p"
proof -
  let ?p = "(NewAuthPlugin cfg provider)\<lparr>st_cfg := cfg\<lparr>ap_Enabled := True\<rparr>\<rparr>"
  let ?dev = "ap_Mode cfg = ''jwt'' \<and> jw_JWKSURL (ap_JWT cfg) = [] \<and> jw_IssuerURL (ap_JWT cfg) = []"
  consider "ap_Mode cfg \<in> {[], ''none''}" | "ap_Mode cfg = ''kratos''" | ?dev
    | "ap_Mode cfg \<notin> {[], ''none'', ''kratos''}" "\<not> ?dev" by blast
  then show ?thesis
  proof cases
    case 1
    then have "p = (NewAuthPlugin cfg provider)\<lparr>st_healthy := True, st_healthMsg := ''auth disabled''\<rparr>"
      using assms by (auto simp: auth_Init_def from_mode_def NewAuthPlugin_def or_default_def Let_def)
    with 1 assms(2) show ?thesis by (auto simp: NewAuthPlugin_def from_mode_def)
  next
    case 2
    then have "init_kratos env ?p = Inr p" using assms by (simp add: auth_Init_def NewAuthPlugin_def Let_def)
    from init_kratos_state [OF this] 2 show ?thesis by (simp add: NewAuthPlugin_def)
  next
    case 3
    then have "initDevJWKS env ?p = Inr p"
      using assms by (simp add: auth_Init_def NewAuthPlugin_def Let_def split: sum.splits)
    from initDevJWKS_state [OF this] 3 show ?thesis by (simp add: NewAuthPlugin_def)
  next
    case 4
    then have "p = ?p\<lparr>st_healthy := True, st_healthMsg := ''auth configured, mode: '' @ ap_Mode cfg\<rparr>"
      using assms by (auto simp: auth_Init_def NewAuthPlugin_def Let_def or_default_def)
    with 4 show ?thesis by (auto simp: NewAuthPlugin_def)
  qed
qed

lemma names_by_mode:
  assumes "auth_Init env (NewAuthPlugin cfg provider) = Inr p" and "from_mode cfg"
  shows "names (auth_handlers p) = enforced_by cfg"
  using auth_Init_modes [OF assms] by (auto simp: handler_names_by_mode enforced_by_def handler_mode_def)

lemma as_strings_map_role:
  "map (\<lambda>(r, ps). (r, as_strings (Some ps))) (map (\<lambda>(r, ps). (r, json_strings ps)) m) = m"
  by (induction m) auto

lemma auth_config_of_build:
  "auth_config_of (buildAuthHandler c l ps k rs) =
    \<lparr>ah_CookieName = c, ah_LoginURL = l, ah_PublicPaths = ps, ah_KratosURL = k, ah_RolePaths = rs\<rparr>"
  by (simp add: auth_config_of_def buildAuthHandler_def omit_if_def as_strings_map_role [unfolded map_map o_def] o_def
      case_prod_beta)

lemma AuthHandler_roundtrip:
  "AuthHandler_UnmarshalJSON (buildAuthHandler c l ps k rs) =
    \<lparr>ah_CookieName = c, ah_LoginURL = l, ah_PublicPaths = ps, ah_KratosURL = k, ah_RolePaths = rs\<rparr>"
proof -
  have "json_field (buildAuthHandler c l ps k rs) ''config'' = None" by (simp add: buildAuthHandler_def omit_if_def)
  then show ?thesis by (simp add: AuthHandler_UnmarshalJSON_def auth_config_of_build)
qed

lemma scope_rules_of_build:
  "map scope_rule_of (map (\<lambda>r. JObj [(''path'', JStr (as_Path r)), (''methods'', json_strings (as_Methods r)),
     (''required_scopes'', json_strings (as_RequiredScopes r))]) rs) = rs"
  by (induction rs) (simp_all add: scope_rule_of_def)

section \<open>Properties\<close>


definition sample_auth_env :: auth_env where
  "sample_auth_env =
    \<lparr>ae_request_uri = (\<lambda>u. prefix ''http://'' u), ae_parse = (\<lambda>u. None), ae_ui_handler = None, ae_ui_start = Inr ''127.0.0.1:41000'',
     ae_dev_keys = None, ae_jwks_start = Inr ''127.0.0.1:41001''\<rparr>"

definition sample_auth_plugin :: "string \<Rightarrow> AuthPluginConfig" where
  "sample_auth_plugin mode =
    \<lparr>ap_Enabled = True, ap_Mode = mode,
     ap_JWT = \<lparr>jw_JWKSURL = ''https://issuer.example.com/jwks'', jw_IssuerURL = [], jw_Issuer = ''issuer'', jw_Audience = ''app''\<rparr>,
     ap_KratosPublicURL = ''http://kratos:4433'', ap_SessionCookieName = [], ap_LoginURL = [], ap_PublicPaths = [''/health''],
     ap_RolePaths = [(''admin'', [''/admin/*''])], ap_APIKeyHeader = ''X-API-Key'', ap_ScopeRules = [], ap_UIMode = [],
     ap_UILoginURL = []\<rparr>"


text \<open>C35: With an external key set the JWT mode starts, reports healthy and installs nothing: no handler
  checks a token, and every request is passed on as without authentication.\<close>

theorem jwt_with_external_keys_unenforced:
  assumes "ap_Mode cfg = ''jwt''" and "jw_JWKSURL (ap_JWT cfg) \<noteq> [] \<or> jw_IssuerURL (ap_JWT cfg) \<noteq> []"
  shows "\<exists>p. auth_Init env (NewAuthPlugin cfg provider) = Inr p \<and> auth_Health p = (True, ''auth configured, mode: jwt'') \<and>
    auth_handlers p = [] \<and> auth_routes env p = []"
  using assms
  by (auto simp: auth_Init_def NewAuthPlugin_def Let_def auth_Health_def auth_handlers_def handler_mode_def auth_routes_def)

theorem jwt_with_external_keys_unenforced_witness:
  "\<exists>p. auth_Init sample_auth_env (NewAuthPlugin (sample_auth_plugin ''jwt'') None) = Inr p \<and>
    auth_Health p = (True, ''auth configured, mode: jwt'') \<and> auth_handlers p = [] \<and> auth_routes sample_auth_env p = []"
  by (rule jwt_with_external_keys_unenforced) (simp_all add: sample_auth_plugin_def)

end
