(* ===== verification/ConfigValues.thy ===== *)
theory ConfigValues
  imports Complex_Main CaddyPlugins
begin

text \<open>Durations and sizes in the configuration: \<^verbatim>\<open>time.ParseDuration\<close>, \<^verbatim>\<open>config.ParseBodySize\<close>
  (\<^verbatim>\<open>internal/config/bodysize.go\<close>) and the functions that turn them into the adapter's settings
  (\<^verbatim>\<open>cmd/vibewarden/wiring_serve_helpers.go\<close>). Fractions are exact rationals where the code computes with
  64-bit floats.\<close>

section \<open>Durations\<close>

text \<open>\<^verbatim>\<open>leadingInt\<close> and \<^verbatim>\<open>leadingFraction\<close> of package \<^verbatim>\<open>time\<close>: the digits a text starts with.\<close>

definition leading_digits :: "string \<Rightarrow> string \<times> string" where
  "leading_digits s = (takeWhile is_digit s, dropWhile is_digit s)"

definition fraction_value :: "string \<Rightarrow> rat" where
  "fraction_value ds = of_int (dec_value ds 0) / 10 ^ length ds"

definition unit_of :: "string \<Rightarrow> int option" where
  "unit_of u =
    (if u = ''ns'' then Some 1
     else if u = ''us'' \<or> u = [CHR 0xC2, CHR 0xB5, CHR ''s''] \<or> u = [CHR 0xCE, CHR 0xBC, CHR ''s''] then Some 1000
     else if u = ''ms'' then Some 1000000
     else if u = ''s'' then Some 1000000000
     else if u = ''m'' then Some 60000000000
     else if u = ''h'' then Some 3600000000000
     else None)"

text \<open>One number with its unit; the value is checked against the range of the code's unsigned sum.\<close>

definition duration_term :: "string \<Rightarrow> (int \<times> string) option" where
  "duration_term s =
    (let (pre, s1) = leading_digits s;
         (post, s2) = (if s1 \<noteq> [] \<and> hd s1 = CHR ''.'' then leading_digits (tl s1) else ([], s1));
         u = takeWhile (\<lambda>c. c \<noteq> CHR ''.'' \<and> \<not> is_digit c) s2;
         rest = dropWhile (\<lambda>c. c \<noteq> CHR ''.'' \<and> \<not> is_digit c) s2 in
     if pre = [] \<and> post = [] then None
     else case unit_of u of
       None \<Rightarrow> None
     | Some unit \<Rightarrow>
         (let v = dec_value pre 0 * unit + \<lfloor>fraction_value post * of_int unit\<rfloor> in
          if 2 ^ 63 < dec_value pre 0 \<or> 2 ^ 63 < v then None else Some (v, rest)))"

function duration_terms :: "string \<Rightarrow> int \<Rightarrow> int option" where
  "duration_terms s d =
    (if s = [] then Some d
     else case duration_term s of
       None \<Rightarrow> None
     | Some (v, rest) \<Rightarrow>
         if length s \<le> length rest then None
         else if 2 ^ 63 < d + v then None
         else duration_terms rest (d + v))"
  by pat_completeness auto
termination by (relation "measure (\<lambda>(s, _). length s)") auto

declare duration_terms.simps [simp del]

definition ParseDuration :: "string \<Rightarrow> duration option" where
  "ParseDuration s =
    (let neg = (s \<noteq> [] \<and> hd s = CHR ''-'');
         s1 = (if s \<noteq> [] \<and> (hd s = CHR ''-'' \<or> hd s = CHR ''+'') then tl s else s) in
     if s1 = ''0'' then Some 0
     else if s1 = [] then None
     else case duration_terms s1 0 of
       None \<Rightarrow> None
     | Some d \<Rightarrow> if neg then Some (- d) else if 2 ^ 63 - 1 < d then None else Some d)"

section \<open>Sizes\<close>

text \<open>\<^verbatim>\<open>strconv.ParseFloat\<close> on a text of digits and points.\<close>

definition parse_decimal :: "string \<Rightarrow> rat option" where
  "parse_decimal s =
    (case CutByte CHR ''.'' s of
       None \<Rightarrow> if s \<noteq> [] \<and> list_all is_digit s then Some (of_int (dec_value s 0)) else None
     | Some (a, b) \<Rightarrow>
         if a @ b \<noteq> [] \<and> list_all is_digit a \<and> list_all is_digit b
         then Some (of_int (dec_value a 0) + fraction_value b) else None)"

datatype size_error = SizeNoNumber | SizeBadNumber | SizeUnknownUnit string

definition size_multiplier :: "string \<Rightarrow> int option" where
  "size_multiplier u =
    (if u = [] \<or> u = ''B'' then Some 1
     else if u = ''KB'' then Some 1024
     else if u = ''MB'' then Some (1024 * 1024)
     else if u = ''GB'' then Some (1024 * 1024 * 1024)
     else if u = ''TB'' then Some (1024 * 1024 * 1024 * 1024)
     else None)"

definition ParseBodySize :: "string \<Rightarrow> size_error + int" where
  "ParseBodySize s0 =
    (let s = TrimSpace s0 in
     if s = [] \<or> s = ''0'' then Inr 0
     else
       let numeric = (\<lambda>c. c = CHR ''.'' \<or> is_digit c);
           numStr = TrimSpace (takeWhile numeric s);
           unit = TrimSpace (ToUpper (dropWhile numeric s)) in
       if numStr = [] then Inl SizeNoNumber
       else case parse_decimal numStr of
         None \<Rightarrow> Inl SizeBadNumber
       | Some n \<Rightarrow>
           (case size_multiplier unit of
              None \<Rightarrow> Inl (SizeUnknownUnit unit)
            | Some m \<Rightarrow> Inr \<lfloor>n * of_int m\<rfloor>))"

section \<open>Server timeouts\<close>

definition TimeoutDisabled :: duration where
  "TimeoutDisabled = -1"

definition parseTimeout :: "string \<Rightarrow> string \<Rightarrow> duration" where
  "parseTimeout raw0 defaultVal =
    (let raw = (if raw0 = [] then defaultVal else raw0) in
     if raw = ''0'' then TimeoutDisabled
     else
       let d = (case ParseDuration raw of
                  Some d \<Rightarrow> d
                | None \<Rightarrow> (case ParseDuration defaultVal of Some d \<Rightarrow> d | None \<Rightarrow> 0)) in
       if d = 0 then TimeoutDisabled else d)"

record ServerTimeouts =
  to_ReadTimeout :: duration
  to_WriteTimeout :: duration
  to_IdleTimeout :: duration
  to_ReadHeaderTimeout :: duration
  to_ReadIdleTimeout :: duration
  to_WriteIdleTimeout :: duration

record ServerTimeoutSettings =
  ts_Read :: string
  ts_Write :: string
  ts_Idle :: string
  ts_ReadHeader :: string
  ts_ReadIdle :: string
  ts_WriteIdle :: string

definition buildServerTimeoutsConfig :: "ServerTimeoutSettings \<Rightarrow> ServerTimeouts" where
  "buildServerTimeoutsConfig cfg =
    \<lparr>to_ReadTimeout = parseTimeout (ts_Read cfg) ''30s'', to_WriteTimeout = parseTimeout (ts_Write cfg) ''60s'',
     to_IdleTimeout = parseTimeout (ts_Idle cfg) ''120s'', to_ReadHeaderTimeout = parseTimeout (ts_ReadHeader cfg) ''1m'',
     to_ReadIdleTimeout = parseTimeout (ts_ReadIdle cfg) ''1m'', to_WriteIdleTimeout = parseTimeout (ts_WriteIdle cfg) ''1m''\<rparr>"

text \<open>The keys the adapter writes into the server's configuration.\<close>

definition timeout_key :: "string \<Rightarrow> duration \<Rightarrow> (string \<times> json) list" where
  "timeout_key k d = (if 0 < d then [(k, JInt d)] else if d < 0 then [(k, JInt (-1))] else [])"

definition applyServerTimeouts :: "ServerTimeouts \<Rightarrow> (string \<times> json) list" where
  "applyServerTimeouts t =
    timeout_key ''read_timeout'' (to_ReadTimeout t) @ timeout_key ''write_timeout'' (to_WriteTimeout t) @
    timeout_key ''idle_timeout'' (to_IdleTimeout t) @ timeout_key ''read_header_timeout'' (to_ReadHeaderTimeout t) @
    timeout_key ''read_idle_timeout'' (to_ReadIdleTimeout t) @ timeout_key ''write_idle_timeout'' (to_WriteIdleTimeout t)"

section \<open>Resilience\<close>

record ResilienceSettings =
  rz_Timeout :: string
  rz_BreakerEnabled :: bool
  rz_Threshold :: int
  rz_BreakerTimeout :: string
  rz_RetryEnabled :: bool
  rz_MaxAttempts :: int
  rz_InitialBackoff :: string
  rz_MaxBackoff :: string
  rz_RetryOn :: "int list"

record ResilienceConfig =
  rc_Timeout :: duration
  rc_Breaker :: "(int \<times> duration) option"
  rc_Retry :: "(int \<times> duration \<times> duration \<times> int list) option"

definition duration_or :: "duration \<Rightarrow> string \<Rightarrow> duration" where
  "duration_or d s = (if s = [] \<or> s = ''0'' then d else case ParseDuration s of Some x \<Rightarrow> x | None \<Rightarrow> d)"

definition buildResiliencePortsConfig :: "ResilienceSettings \<Rightarrow> ResilienceConfig" where
  "buildResiliencePortsConfig cfg =
    \<lparr>rc_Timeout =
       (if rz_Timeout cfg \<noteq> [] \<and> rz_Timeout cfg \<noteq> ''0''
        then (case ParseDuration (rz_Timeout cfg) of Some d \<Rightarrow> d | None \<Rightarrow> 30 * second) else 0),
     rc_Breaker =
       (if rz_BreakerEnabled cfg
        then Some (if rz_Threshold cfg \<le> 0 then 5 else rz_Threshold cfg, duration_or (60 * second) (rz_BreakerTimeout cfg))
        else None),
     rc_Retry =
       (if rz_RetryEnabled cfg
        then Some (if rz_MaxAttempts cfg < 2 then 3 else rz_MaxAttempts cfg,
                   duration_or (100 * millisecond) (rz_InitialBackoff cfg), duration_or (10 * second) (rz_MaxBackoff cfg),
                   if rz_RetryOn cfg = [] then [502, 503, 504] else rz_RetryOn cfg)
        else None)\<rparr>"

section \<open>Body size limits\<close>

record BodySizeSettings =
  bz_Max :: string
  bz_Overrides :: "(string \<times> string) list"

definition parsed_overrides :: "(string \<times> string) list \<Rightarrow> (string \<times> int) list" where
  "parsed_overrides ovs =
    concat (map (\<lambda>(path, s). case ParseBodySize s of Inr n \<Rightarrow> [(path, n)] | Inl _ \<Rightarrow> []) ovs)"

definition buildBodySizePortsConfig :: "BodySizeSettings \<Rightarrow> BodySizeConfig" where
  "buildBodySizePortsConfig cfg =
    (let none = \<lparr>bs_Enabled = False, bs_MaxBytes = 0, bs_Overrides = []\<rparr> in
     if bz_Max cfg = [] then none
     else case ParseBodySize (bz_Max cfg) of
       Inl _ \<Rightarrow> none
     | Inr n \<Rightarrow>
         \<lparr>bs_Enabled = (0 < n \<or> bz_Overrides cfg \<noteq> []), bs_MaxBytes = n, bs_Overrides = parsed_overrides (bz_Overrides cfg)\<rparr>)"

text \<open>What the registration of the plugin makes of the same settings; \<open>None\<close> registers no plugin.\<close>

definition bodysize_plugin_config :: "BodySizeSettings \<Rightarrow> BodySizeConfig option" where
  "bodysize_plugin_config cfg =
    (case ParseBodySize (bz_Max cfg) of
       Inl _ \<Rightarrow> None
     | Inr n \<Rightarrow> Some \<lparr>bs_Enabled = (0 < n \<or> bz_Overrides cfg \<noteq> []), bs_MaxBytes = n,
                       bs_Overrides = parsed_overrides (bz_Overrides cfg)\<rparr>)"

section \<open>Lemmas\<close>

lemma parseTimeout_nonzero: "parseTimeout raw d \<noteq> 0"
  by (simp add: parseTimeout_def TimeoutDisabled_def Let_def)

lemma timeout_key_nonzero: "d \<noteq> 0 \<Longrightarrow> map fst (timeout_key k d) = [k]"
  by (simp add: timeout_key_def)

lemma size_units: "size_multiplier u = Some m \<Longrightarrow> u \<in> {[], ''B'', ''KB'', ''MB'', ''GB'', ''TB''}"
  by (auto simp: size_multiplier_def split: if_splits)

lemma takeWhile_digits:
  assumes "list_all is_digit ds" "u = [] \<or> \<not> P (hd u)" "\<And>c. is_digit c \<Longrightarrow> P c"
  shows "takeWhile P (ds @ u) = ds \<and> dropWhile P (ds @ u) = u"
  using assms by (induction ds) (cases u, auto)

section \<open>Properties\<close>

text \<open>Whatever the settings say, the server is given all six timeouts: none is left to the default of the
  embedded proxy.\<close>

theorem server_timeouts_explicit:
  "map fst (applyServerTimeouts (buildServerTimeoutsConfig cfg)) =
    [''read_timeout'', ''write_timeout'', ''idle_timeout'', ''read_header_timeout'', ''read_idle_timeout'', ''write_idle_timeout'']"
  by (simp add: applyServerTimeouts_def buildServerTimeoutsConfig_def parseTimeout_nonzero timeout_key_nonzero)



end
