(* ===== verification/SecretsPlugin.thy ===== *)
theory SecretsPlugin
  imports ConfigSecrets ConfigValues
begin

text \<open>The secret management plugin (\<^verbatim>\<open>internal/plugins/secrets/plugin.go\<close>) and its construction from the
  configuration (\<^verbatim>\<open>buildSecretsPlugin\<close> in \<^verbatim>\<open>internal/plugins/builtin_helpers.go\<close>). The secret store, the lease
  operations of OpenBao and the outcome of file writes are parameters; the background loops are
  sequences of their ticks.\<close>

section \<open>Configuration\<close>

record Injection =
  in_Path :: string
  in_Key :: string
  in_Target :: string
  in_Template :: string

record DynamicRole =
  ro_Name :: string
  ro_EnvVarUser :: string
  ro_EnvVarPassword :: string

record SecretsPluginConfig =
  sp_Enabled :: bool
  sp_Store :: string
  sp_Provider :: string
  sp_BuiltinPath :: string
  sp_KeyFile :: string
  sp_Address :: string
  sp_MountPath :: string
  sp_CacheTTL :: duration
  sp_CheckInterval :: duration
  sp_MaxStaticAge :: duration
  sp_WeakPatterns :: "string list"
  sp_Headers :: "Injection list"
  sp_Env :: "Injection list"
  sp_EnvFile :: string
  sp_DynamicEnabled :: bool
  sp_Roles :: "DynamicRole list"

text \<open>The settings as the configuration file has them.\<close>

record SecretsSettings =
  sg_Enabled :: bool
  sg_Store :: string
  sg_Provider :: string
  sg_BuiltinPath :: string
  sg_KeyFile :: string
  sg_Address :: string
  sg_MountPath :: string
  sg_CacheTTL :: string
  sg_CheckInterval :: string
  sg_MaxStaticAge :: string
  sg_WeakPatterns :: "string list"
  sg_Headers :: "Injection list"
  sg_Env :: "Injection list"
  sg_EnvFile :: string
  sg_DynamicEnabled :: bool
  sg_Roles :: "DynamicRole list"

definition or_value :: "'a \<Rightarrow> 'a \<Rightarrow> 'a \<Rightarrow> 'a" where
  "or_value zero d x = (if x = zero then d else x)"

definition secrets_applyDefaults :: "SecretsPluginConfig \<Rightarrow> SecretsPluginConfig" where
  "secrets_applyDefaults cfg =
    cfg\<lparr>sp_CacheTTL := or_value 0 (5 * minute) (sp_CacheTTL cfg),
        sp_CheckInterval := or_value 0 (6 * 60 * minute) (sp_CheckInterval cfg),
        sp_MaxStaticAge := or_value 0 (90 * 24 * 60 * minute) (sp_MaxStaticAge cfg),
        sp_WeakPatterns := or_value [] [''password'', ''changeme'', ''secret'', ''123456'', ''admin'', ''letmein''] (sp_WeakPatterns cfg),
        sp_MountPath := or_value [] ''secret'' (sp_MountPath cfg),
        sp_Provider := or_value [] ''openbao'' (sp_Provider cfg),
        sp_Store := or_value [] ''builtin'' (sp_Store cfg),
        sp_BuiltinPath := or_value [] ''.vibewarden/secrets.enc'' (sp_BuiltinPath cfg)\<rparr>"

definition optional_duration :: "string \<Rightarrow> duration" where
  "optional_duration s = (if s = [] then 0 else case ParseDuration s of Some d \<Rightarrow> d | None \<Rightarrow> 0)"

definition buildSecretsPlugin :: "SecretsSettings \<Rightarrow> SecretsPluginConfig" where
  "buildSecretsPlugin s =
    secrets_applyDefaults
      \<lparr>sp_Enabled = sg_Enabled s, sp_Store = [], sp_Provider = sg_Provider s, sp_BuiltinPath = [], sp_KeyFile = [],
       sp_Address = sg_Address s, sp_MountPath = sg_MountPath s, sp_CacheTTL = optional_duration (sg_CacheTTL s),
       sp_CheckInterval = optional_duration (sg_CheckInterval s), sp_MaxStaticAge = optional_duration (sg_MaxStaticAge s),
       sp_WeakPatterns = sg_WeakPatterns s, sp_Headers = sg_Headers s, sp_Env = sg_Env s, sp_EnvFile = sg_EnvFile s,
       sp_DynamicEnabled = sg_DynamicEnabled s, sp_Roles = sg_Roles s\<rparr>"

section \<open>Startup\<close>

datatype opened_store = NoStore | BuiltinStore string string | OpenBaoStore string string

text \<open>\<open>key\<close> and \<open>open_builtin\<close> are the errors of resolving the master key from the key file and of opening
  the encrypted file, \<open>authenticate\<close> and \<open>health\<close> those of OpenBao.\<close>

record store_env =
  se_key :: "string \<Rightarrow> string option"
  se_open_builtin :: "string \<Rightarrow> string option"
  se_authenticate :: "string option"
  se_health :: "string option"

definition secrets_Init :: "store_env \<Rightarrow> SecretsPluginConfig \<Rightarrow> string + opened_store" where
  "secrets_Init env cfg =
    (if \<not> sp_Enabled cfg then Inr NoStore
     else if sp_Store cfg = ''builtin'' then
       (case se_key env (sp_KeyFile cfg) of
          Some e \<Rightarrow> Inl (''secrets plugin init: resolving master key: '' @ e)
        | None \<Rightarrow>
            (case se_open_builtin env (sp_BuiltinPath cfg) of
               Some e \<Rightarrow> Inl (''secrets plugin init: builtin store: '' @ e)
             | None \<Rightarrow> Inr (BuiltinStore (sp_BuiltinPath cfg) (sp_KeyFile cfg))))
     else if sp_Store cfg = ''openbao'' then
       (if sp_Address cfg = [] then Inl (''secrets plugin: openbao.address is required when store is '' @ quoted ''openbao'')
        else case se_authenticate env of
          Some e \<Rightarrow> Inl (''secrets plugin init: authenticate: '' @ e)
        | None \<Rightarrow>
            (case se_health env of
               Some e \<Rightarrow> Inl (''secrets plugin init: health check: '' @ e)
             | None \<Rightarrow> Inr (OpenBaoStore (sp_Address cfg) (sp_MountPath cfg))))
     else Inl (''secrets plugin: unsupported store '' @ quoted (sp_Store cfg) @ '' (supported: '' @ quoted ''builtin'' @
               '', '' @ quoted ''openbao'' @ '')''))"

section \<open>The cache of static secrets\<close>

definition cacheKeyFor :: "string \<Rightarrow> string \<Rightarrow> string" where
  "cacheKeyFor path key = path @ ''/'' @ key"

definition injection_paths :: "SecretsPluginConfig \<Rightarrow> string list" where
  "injection_paths cfg =
    concat (map (\<lambda>i. in_Path i # map (\<lambda>ph. su_path (ph_URI ph)) (FindPlaceholders (in_Template i)))
      (sp_Headers cfg @ sp_Env cfg))"

fun store_data :: "string \<Rightarrow> (string, string) gomap \<Rightarrow> (string, string) gomap \<Rightarrow> (string, string) gomap" where
  "store_data path [] cache = cache"
| "store_data path ((k, v) # kvs) cache = store_data path kvs (AList.update (cacheKeyFor path k) v cache)"

text \<open>\<open>paths\<close> is the set of paths in the order the range over it takes.\<close>

fun refresh_paths ::
    "'e secret_store \<Rightarrow> string list \<Rightarrow> (string, string) gomap \<Rightarrow> 'e option \<times> (string, string) gomap" where
  "refresh_paths store [] cache = (None, cache)"
| "refresh_paths store (p # ps) cache =
    (case store p of
       Inl e \<Rightarrow> (case refresh_paths store ps cache of (_, c) \<Rightarrow> (Some e, c))
     | Inr data \<Rightarrow> refresh_paths store ps (store_data p data cache))"

definition refreshCache ::
    "'e secret_store \<Rightarrow> SecretsPluginConfig \<Rightarrow> (string, string) gomap \<Rightarrow> 'e option \<times> (string, string) gomap" where
  "refreshCache store cfg cache = refresh_paths store (remdups (injection_paths cfg)) cache"

fun fill_template :: "(string, string) gomap \<Rightarrow> Placeholder list \<Rightarrow> string \<Rightarrow> string" where
  "fill_template cache [] result = UnescapePlaceholders result"
| "fill_template cache (ph # phs) result =
    (case map_of cache (cacheKeyFor (su_path (ph_URI ph)) (su_key (ph_URI ph))) of
       None \<Rightarrow> []
     | Some v \<Rightarrow> fill_template cache phs (Replace1 result (ph_Raw ph) v))"

definition resolveInjectionValue :: "(string, string) gomap \<Rightarrow> Injection \<Rightarrow> string" where
  "resolveInjectionValue cache i =
    (if in_Template i = [] then
       (case map_of cache (cacheKeyFor (in_Path i) (in_Key i)) of Some v \<Rightarrow> v | None \<Rightarrow> [])
     else fill_template cache (FindPlaceholders (in_Template i)) (in_Template i))"

definition GetCachedSecret :: "(string, string) gomap \<Rightarrow> string \<Rightarrow> string \<Rightarrow> string option" where
  "GetCachedSecret cache path key = map_of cache (cacheKeyFor path key)"

fun inject_headers :: "(string, string) gomap \<Rightarrow> Injection list \<Rightarrow> (string, string) gomap \<Rightarrow> (string, string) gomap" where
  "inject_headers cache [] h = h"
| "inject_headers cache (i # is) h =
    (let v = resolveInjectionValue cache i in
     inject_headers cache is (if v \<noteq> [] then AList.update (in_Target i) v h else h))"

definition buildRequestHeadersHandler :: "SecretsPluginConfig \<Rightarrow> (string, string) gomap \<Rightarrow> json" where
  "buildRequestHeadersHandler cfg cache =
    JObj [(''handler'', JStr ''headers''),
      (''request'', JObj [(''set'', JObj (map (\<lambda>(k, v). one_value k v) (inject_headers cache (sp_Headers cfg) [])))])]"

definition secrets_handlers :: "SecretsPluginConfig \<Rightarrow> (string, string) gomap \<Rightarrow> CaddyHandler list" where
  "secrets_handlers cfg cache =
    contribute (sp_Enabled cfg \<and> sp_Headers cfg \<noteq> []) (buildRequestHeadersHandler cfg cache) 35"

section \<open>The environment file\<close>

definition env_line :: "string \<Rightarrow> string \<Rightarrow> string" where
  "env_line k v = k @ ''='' @ v @ [CHR 0x0A]"

definition role_line :: "(string, string) gomap \<Rightarrow> string \<Rightarrow> string \<Rightarrow> string \<Rightarrow> string" where
  "role_line cache role env field =
    (if env = [] then []
     else case map_of cache (cacheKeyFor (''_dynamic/'' @ role) field) of Some v \<Rightarrow> env_line env v | None \<Rightarrow> [])"

definition env_file_content :: "SecretsPluginConfig \<Rightarrow> (string, string) gomap \<Rightarrow> string" where
  "env_file_content cfg cache =
    concat (map (\<lambda>i. let v = resolveInjectionValue cache i in if v \<noteq> [] then env_line (in_Target i) v else []) (sp_Env cfg)) @
    concat (map (\<lambda>r. role_line cache (ro_Name r) (ro_EnvVarUser r) ''user'' @
                     role_line cache (ro_Name r) (ro_EnvVarPassword r) ''password'') (sp_Roles cfg))"

text \<open>One tick of the refresh loop: the error that is logged, the cache and the content of the file.\<close>

definition refresh_tick ::
    "'e secret_store \<Rightarrow> bool \<Rightarrow> SecretsPluginConfig \<Rightarrow> (string, string) gomap \<times> string option \<Rightarrow>
     'e option \<times> (string, string) gomap \<times> string option" where
  "refresh_tick store write_ok cfg st =
    (case refreshCache store cfg (fst st) of
       (Some e, cache) \<Rightarrow> (Some e, cache, snd st)
     | (None, cache) \<Rightarrow>
         (None, cache, if sp_EnvFile cfg \<noteq> [] \<and> write_ok then Some (env_file_content cfg cache) else snd st))"

section \<open>Dynamic credentials\<close>

record DynamicCredentials =
  dc_LeaseID :: string
  dc_Username :: string
  dc_Password :: string
  dc_TTL :: duration
  dc_IssuedAt :: instant

definition ExpiresAt :: "DynamicCredentials \<Rightarrow> instant" where
  "ExpiresAt c = dc_IssuedAt c + dc_TTL c"

record secrets_state =
  sc_cache :: "(string, string) gomap"
  sc_creds :: "(string, DynamicCredentials) gomap"
  sc_env :: "string option"

datatype secret_event =
    RotationFailed string
  | LeaseRenewed string duration
  | CredentialsRotated string string

text \<open>What OpenBao answers during a tick: to a renewal of a lease the new lifetime, to a request for a
  role the credentials. Both calls are taken to answer at the instant of the tick.\<close>

record lease_api =
  la_renew :: "string \<Rightarrow> duration option"
  la_request :: "string \<Rightarrow> DynamicCredentials option"

definition cache_credentials :: "DynamicRole \<Rightarrow> DynamicCredentials \<Rightarrow> (string, string) gomap \<Rightarrow> (string, string) gomap" where
  "cache_credentials role c cache =
    (let c1 = (if ro_EnvVarUser role \<noteq> []
               then AList.update (cacheKeyFor (''_dynamic/'' @ ro_Name role) ''user'') (dc_Username c) cache else cache) in
     if ro_EnvVarPassword role \<noteq> []
     then AList.update (cacheKeyFor (''_dynamic/'' @ ro_Name role) ''password'') (dc_Password c) c1 else c1)"

fun refreshDynamicCredentials ::
    "lease_api \<Rightarrow> DynamicRole list \<Rightarrow> secrets_state \<Rightarrow> secret_event list \<times> secrets_state" where
  "refreshDynamicCredentials api [] st = ([], st)"
| "refreshDynamicCredentials api (role # roles) st =
    (case la_request api (ro_Name role) of
       None \<Rightarrow> (case refreshDynamicCredentials api roles st of (evs, st') \<Rightarrow> (RotationFailed (ro_Name role) # evs, st'))
     | Some c \<Rightarrow>
         refreshDynamicCredentials api roles
           (st\<lparr>sc_creds := AList.update (ro_Name role) c (sc_creds st), sc_cache := cache_credentials role c (sc_cache st)\<rparr>))"

text \<open>The renewal window is the last quarter of the lifetime.\<close>

definition rotate_role ::
    "lease_api \<Rightarrow> bool \<Rightarrow> SecretsPluginConfig \<Rightarrow> instant \<Rightarrow> DynamicRole \<Rightarrow> secrets_state \<Rightarrow>
     secret_event list \<times> string list \<times> secrets_state" where
  "rotate_role api write_ok cfg now role st =
    (case map_of (sc_creds st) (ro_Name role) of
       None \<Rightarrow> ([], [], st)
     | Some c \<Rightarrow>
         if dc_TTL c div 4 < time_sub (ExpiresAt c) now then ([], [], st)
         else
           case la_renew api (dc_LeaseID c) of
             Some ttl \<Rightarrow>
               ([LeaseRenewed (ro_Name role) ttl], [],
                st\<lparr>sc_creds := AList.update (ro_Name role) (c\<lparr>dc_TTL := ttl, dc_IssuedAt := now\<rparr>) (sc_creds st)\<rparr>)
           | None \<Rightarrow>
               (case la_request api (ro_Name role) of
                  None \<Rightarrow> ([RotationFailed (ro_Name role)], [], st)
                | Some c' \<Rightarrow>
                    let cache = cache_credentials role c' (sc_cache st) in
                    ([CredentialsRotated (ro_Name role) (dc_Username c')], [dc_LeaseID c],
                     st\<lparr>sc_creds := AList.update (ro_Name role) c' (sc_creds st), sc_cache := cache,
                        sc_env := (if sp_EnvFile cfg \<noteq> [] \<and> write_ok then Some (env_file_content cfg cache) else sc_env st)\<rparr>)))"

text \<open>The second result is the leases that are revoked afterwards.\<close>

fun rotateDynamicCredentialsIfNeeded ::
    "lease_api \<Rightarrow> bool \<Rightarrow> SecretsPluginConfig \<Rightarrow> instant \<Rightarrow> DynamicRole list \<Rightarrow> secrets_state \<Rightarrow>
     secret_event list \<times> string list \<times> secrets_state" where
  "rotateDynamicCredentialsIfNeeded api write_ok cfg now [] st = ([], [], st)"
| "rotateDynamicCredentialsIfNeeded api write_ok cfg now (role # roles) st =
    (case rotate_role api write_ok cfg now role st of
       (evs, revoked, st1) \<Rightarrow>
         (case rotateDynamicCredentialsIfNeeded api write_ok cfg now roles st1 of
            (evs', revoked', st2) \<Rightarrow> (evs @ evs', revoked @ revoked', st2)))"

section \<open>Health checks\<close>

datatype health_finding =
    WeakSecret string string
  | ShortSecret string string
  | StaleSecret string string
  | ExpiringCredentials string
  | NoCredentials string

definition checkStaticSecretValue ::
    "SecretsPluginConfig \<Rightarrow> (string, string) gomap \<Rightarrow> Injection \<Rightarrow> health_finding list" where
  "checkStaticSecretValue cfg cache i =
    (case map_of cache (cacheKeyFor (in_Path i) (in_Key i)) of
       None \<Rightarrow> []
     | Some v \<Rightarrow>
         (if length v < 16 then [ShortSecret (in_Path i) (in_Key i)] else []) @
         (if list_ex (\<lambda>p. Contains (ToLower v) (ToLower p)) (sp_WeakPatterns cfg)
          then [WeakSecret (in_Path i) (in_Key i)] else []))"

text \<open>\<open>updated\<close> is the time of the last change OpenBao reports for a path, if it does.\<close>

definition checkStaticSecret ::
    "(string \<Rightarrow> instant option) option \<Rightarrow> SecretsPluginConfig \<Rightarrow> (string, string) gomap \<Rightarrow> instant \<Rightarrow> Injection \<Rightarrow>
     health_finding list" where
  "checkStaticSecret updated cfg cache now i =
    (case updated of
       None \<Rightarrow> []
     | Some meta \<Rightarrow>
         (case meta (in_Path i) of
            None \<Rightarrow> []
          | Some t \<Rightarrow> if sp_MaxStaticAge cfg < time_sub now t then [StaleSecret (in_Path i) (in_Key i)] else [])) @
    checkStaticSecretValue cfg cache i"

definition check_role :: "secrets_state \<Rightarrow> instant \<Rightarrow> DynamicRole \<Rightarrow> health_finding list" where
  "check_role st now role =
    (case map_of (sc_creds st) (ro_Name role) of
       None \<Rightarrow> [NoCredentials (ro_Name role)]
     | Some c \<Rightarrow> if time_sub (ExpiresAt c) now < dc_TTL c div 10 then [ExpiringCredentials (ro_Name role)] else [])"

definition runHealthCheck ::
    "(string \<Rightarrow> instant option) option \<Rightarrow> SecretsPluginConfig \<Rightarrow> secrets_state \<Rightarrow> instant \<Rightarrow> health_finding list" where
  "runHealthCheck updated cfg st now =
    concat (map (checkStaticSecret updated cfg (sc_cache st) now) (sp_Headers cfg @ sp_Env cfg)) @
    (if sp_DynamicEnabled cfg \<and> updated \<noteq> None then concat (map (check_role st now) (sp_Roles cfg)) else [])"

section \<open>Lemmas\<close>

lemma map_of_store_data_other:
  "\<forall>k\<in>fst ` set kvs. cacheKeyFor p k \<noteq> ck \<Longrightarrow> map_of (store_data p kvs cache) ck = map_of cache ck"
  by (induction p kvs cache rule: store_data.induct) auto

lemma cacheKeyFor_inj:
  assumes "cacheKeyFor p k = cacheKeyFor p' k'" "CHR ''/'' \<notin> set k" "CHR ''/'' \<notin> set k'"
  shows "p = p' \<and> k = k'"
proof -
  have "rev k @ CHR ''/'' # rev p = rev k' @ CHR ''/'' # rev p'"
    using arg_cong [OF assms(1), of rev] by (simp add: cacheKeyFor_def)
  moreover have "takeWhile (\<lambda>c. c \<noteq> CHR ''/'') (rev x @ CHR ''/'' # rev y) = rev x" if "CHR ''/'' \<notin> set x" for x y
    using that by (subst takeWhile_append2) auto
  ultimately have "rev k = rev k'" using assms(2,3) by metis
  then have "k = k'" by simp
  then show ?thesis using assms(1) by (simp add: cacheKeyFor_def)
qed

text \<open>Keys without a slash, and one value per key.\<close>

definition plain_data :: "(string, string) gomap \<Rightarrow> bool" where
  "plain_data d \<longleftrightarrow> gomap_wf d \<and> (\<forall>k\<in>fst ` set d. CHR ''/'' \<notin> set k)"

lemma map_of_store_data:
  "plain_data d \<Longrightarrow> map_of d k = Some v \<Longrightarrow> map_of (store_data p d cache) (cacheKeyFor p k) = Some v"
proof (induction p d cache rule: store_data.induct)
  case (2 path k' v' kvs cache)
  have kvs: "plain_data kvs" and k': "CHR ''/'' \<notin> set k'" "k' \<notin> fst ` set kvs"
    using "2.prems"(1) by (auto simp: plain_data_def)
  show ?case
  proof (cases "k' = k")
    case True
    have "\<forall>x\<in>fst ` set kvs. cacheKeyFor path x \<noteq> cacheKeyFor path k"
      using k' True by (auto simp: cacheKeyFor_def)
    with "2.prems" True show ?thesis by (simp add: map_of_store_data_other)
  next
    case False
    with "2.IH" [OF kvs] "2.prems"(2) show ?thesis by simp
  qed
qed simp

lemma map_of_refresh_other:
  "p \<notin> set ps \<Longrightarrow> CHR ''/'' \<notin> set k \<Longrightarrow> (\<And>q d. store q = Inr d \<Longrightarrow> plain_data d) \<Longrightarrow>
   map_of (snd (refresh_paths store ps cache)) (cacheKeyFor p k) = map_of cache (cacheKeyFor p k)"
proof (induction store ps cache rule: refresh_paths.induct)
  case (2 store q ps cache)
  show ?case
  proof (cases "store q")
    case (Inl e)
    with 2 show ?thesis by (simp add: split_beta)
  next
    case (Inr d)
    have "\<forall>x\<in>fst ` set d. cacheKeyFor q x \<noteq> cacheKeyFor p k"
      using "2.prems" Inr cacheKeyFor_inj [of q _ p k] by (fastforce simp: plain_data_def)
    with 2 Inr show ?thesis by (simp add: map_of_store_data_other)
  qed
qed simp

lemma map_of_refresh:
  "p \<in> set ps \<Longrightarrow> distinct ps \<Longrightarrow> store p = Inr d \<Longrightarrow> map_of d k = Some v \<Longrightarrow> (\<And>q d. store q = Inr d \<Longrightarrow> plain_data d) \<Longrightarrow>
   map_of (snd (refresh_paths store ps cache)) (cacheKeyFor p k) = Some v"
proof (induction store ps cache rule: refresh_paths.induct)
  case (2 store q ps cache)
  have plain: "plain_data d" by (rule "2.prems"(5) [OF "2.prems"(3)])
  then have k: "CHR ''/'' \<notin> set k" using "2.prems"(4) by (force simp: plain_data_def dest: map_of_SomeD)
  show ?case
  proof (cases "q = p")
    case True
    with "2.prems" k map_of_refresh_other [OF _ k, of p ps store] show ?thesis
      by (simp add: map_of_store_data [OF plain])
  next
    case False
    then show ?thesis using 2 by (cases "store q") (simp_all add: split_beta)
  qed
qed simp

section \<open>Rotation over time\<close>

fun rotation_run :: "SecretsPluginConfig \<Rightarrow> (instant \<times> lease_api \<times> bool) list \<Rightarrow> secrets_state \<Rightarrow> secrets_state" where
  "rotation_run cfg [] st = st"
| "rotation_run cfg ((now, api, write_ok) # ticks) st =
    rotation_run cfg ticks (snd (snd (rotateDynamicCredentialsIfNeeded api write_ok cfg now (sp_Roles cfg) st)))"

text \<open>A lifetime of at least two minutes, within the range of the code's durations.\<close>

definition long_lived :: "duration \<Rightarrow> bool" where
  "long_lived ttl \<longleftrightarrow> 120 * second \<le> ttl \<and> ttl \<le> max_duration"

text \<open>OpenBao answers every request with fresh long-lived credentials, and renews, if it does, for long.\<close>

definition serves :: "instant \<Rightarrow> lease_api \<Rightarrow> bool" where
  "serves now api \<longleftrightarrow>
    (\<forall>l. case la_renew api l of Some ttl \<Rightarrow> long_lived ttl | None \<Rightarrow> True) \<and>
    (\<forall>r. case la_request api r of Some c \<Rightarrow> dc_IssuedAt c = now \<and> long_lived (dc_TTL c) | None \<Rightarrow> False)"

definition valid_past :: "instant \<Rightarrow> DynamicCredentials \<Rightarrow> bool" where
  "valid_past t c \<longleftrightarrow> long_lived (dc_TTL c) \<and> t + 30 * second < ExpiresAt c"

lemma rotate_role_other:
  "ro_Name role \<noteq> n \<Longrightarrow>
   map_of (sc_creds (snd (snd (rotate_role api w cfg now role st)))) n = map_of (sc_creds st) n"
  by (auto simp: rotate_role_def Let_def split: option.split)

lemma rotate_role_valid:
  assumes "serves now api" "map_of (sc_creds st) (ro_Name role) = Some c" "long_lived (dc_TTL c)"
  shows "\<exists>c'. map_of (sc_creds (snd (snd (rotate_role api w cfg now role st)))) (ro_Name role) = Some c' \<and> valid_past now c'"
proof (cases "dc_TTL c div 4 < time_sub (ExpiresAt c) now")
  case True
  have "dc_TTL c div 4 < max_duration" "min_duration \<le> dc_TTL c div 4" "30 * second \<le> dc_TTL c div 4"
    using assms(3) by (auto simp: long_lived_def second_def max_duration_def min_duration_def)
  with True have "now + 30 * second < ExpiresAt c" by (simp add: time_sub_gt_iff)
  with True assms show ?thesis by (simp add: rotate_role_def valid_past_def)
next
  case False
  show ?thesis
  proof (cases "la_renew api (dc_LeaseID c)")
    case (Some ttl)
    then have "long_lived ttl" using assms(1) by (auto simp: serves_def split: option.splits)
    with Some False assms(2) show ?thesis
      by (auto simp: rotate_role_def valid_past_def ExpiresAt_def long_lived_def second_def)
  next
    case None
    obtain c' where c': "la_request api (ro_Name role) = Some c'" "dc_IssuedAt c' = now" "long_lived (dc_TTL c')"
    proof -
      have "case la_request api (ro_Name role) of Some c \<Rightarrow> dc_IssuedAt c = now \<and> long_lived (dc_TTL c) | None \<Rightarrow> False"
        using assms(1) unfolding serves_def by blast
      with that show thesis by (cases "la_request api (ro_Name role)") simp_all
    qed
    with None False assms(2) show ?thesis
      by (auto simp: rotate_role_def Let_def valid_past_def ExpiresAt_def long_lived_def second_def)
  qed
qed

lemma rotate_all_valid:
  "serves now api \<Longrightarrow> map_of (sc_creds st) n = Some c \<Longrightarrow> long_lived (dc_TTL c) \<Longrightarrow>
   \<exists>c'. map_of (sc_creds (snd (snd (rotateDynamicCredentialsIfNeeded api w cfg now roles st)))) n = Some c' \<and>
     long_lived (dc_TTL c') \<and> (n \<in> ro_Name ` set roles \<longrightarrow> valid_past now c') \<and> (valid_past now c \<longrightarrow> valid_past now c')"
proof (induction roles arbitrary: st c)
  case (Cons role roles)
  let ?st = "snd (snd (rotate_role api w cfg now role st))"
  obtain c1 where c1: "map_of (sc_creds ?st) n = Some c1" "long_lived (dc_TTL c1)"
      "ro_Name role = n \<or> valid_past now c \<longrightarrow> valid_past now c1"
  proof (cases "ro_Name role = n")
    case True
    with rotate_role_valid [OF Cons.prems(1), of st role c w cfg] Cons.prems(2,3) that show ?thesis
      by (auto simp: valid_past_def)
  next
    case False
    with rotate_role_other [OF False, of api w cfg now st] Cons.prems(2,3) that show ?thesis by auto
  qed
  from Cons.IH [OF Cons.prems(1) c1(1,2)] c1(3) show ?case by (auto simp: split_beta)
qed auto

lemma rotation_run_valid:
  "\<forall>tick\<in>set ticks. serves (fst tick) (fst (snd tick)) \<Longrightarrow> n \<in> ro_Name ` set (sp_Roles cfg) \<Longrightarrow>
   map_of (sc_creds st) n = Some c \<Longrightarrow> long_lived (dc_TTL c) \<Longrightarrow> (ticks = [] \<longrightarrow> valid_past t c) \<Longrightarrow>
   \<exists>c'. map_of (sc_creds (rotation_run cfg ticks st)) n = Some c' \<and>
     valid_past (if ticks = [] then t else fst (last ticks)) c'"
proof (induction cfg ticks st arbitrary: c t rule: rotation_run.induct)
  case (2 cfg now api w ticks st)
  let ?st = "snd (snd (rotateDynamicCredentialsIfNeeded api w cfg now (sp_Roles cfg) st))"
  have serves: "serves now api" using "2.prems"(1) by simp
  obtain c1 where c1: "map_of (sc_creds ?st) n = Some c1" "long_lived (dc_TTL c1)" "valid_past now c1"
    using rotate_all_valid [OF serves "2.prems"(3,4), of w cfg "sp_Roles cfg"] "2.prems"(2) by auto
  have "\<forall>tick\<in>set ticks. serves (fst tick) (fst (snd tick))" using "2.prems"(1) by simp
  from "2.IH" [OF this "2.prems"(2) c1(1,2), of now] c1(3) show ?case by (cases "ticks = []") simp_all
qed auto

section \<open>Properties\<close>

text \<open>C37: After each tick of the rotation loop the credentials of a role are valid for longer than the thirty
  seconds to the next one, provided OpenBao answers and grants lifetimes of two minutes or more.\<close>

theorem credentials_outlive_next_tick:
  assumes "\<forall>tick\<in>set ticks. serves (fst tick) (fst (snd tick))" and "ticks \<noteq> []"
    and "n \<in> ro_Name ` set (sp_Roles cfg)" and "map_of (sc_creds st) n = Some c" and "long_lived (dc_TTL c)"
  shows "\<exists>c'. map_of (sc_creds (rotation_run cfg ticks st)) n = Some c' \<and> fst (last ticks) + 30 * second < ExpiresAt c'"
  using rotation_run_valid [OF assms(1,3,4,5)] assms(2) by (auto simp: valid_past_def)

definition sample_secrets :: SecretsPluginConfig where
  "sample_secrets =
    secrets_applyDefaults
      \<lparr>sp_Enabled = True, sp_Store = ''openbao'', sp_Provider = [], sp_BuiltinPath = [], sp_KeyFile = [],
       sp_Address = ''http://openbao:8200'', sp_MountPath = [], sp_CacheTTL = 0, sp_CheckInterval = 0, sp_MaxStaticAge = 0,
       sp_WeakPatterns = [],
       sp_Headers = [\<lparr>in_Path = ''app/api'', in_Key = ''token'', in_Target = ''X-Api-Token'', in_Template = []\<rparr>],
       sp_Env = [], sp_EnvFile = [], sp_DynamicEnabled = True,
       sp_Roles = [\<lparr>ro_Name = ''app'', ro_EnvVarUser = ''DB_USER'', ro_EnvVarPassword = ''DB_PASSWORD''\<rparr>]\<rparr>"

definition sample_creds :: "duration \<Rightarrow> instant \<Rightarrow> DynamicCredentials" where
  "sample_creds ttl t = \<lparr>dc_LeaseID = ''lease'', dc_Username = ''u'', dc_Password = ''p'', dc_TTL = ttl, dc_IssuedAt = t\<rparr>"

definition sample_api :: "instant \<Rightarrow> lease_api" where
  "sample_api now = \<lparr>la_renew = (\<lambda>_. None), la_request = (\<lambda>_. Some (sample_creds (300 * second) now))\<rparr>"

theorem credentials_outlive_next_tick_witness:
  "\<exists>c'. map_of (sc_creds (rotation_run sample_secrets
      [(280 * second, sample_api (280 * second), True)]
      \<lparr>sc_cache = [], sc_creds = [(''app'', sample_creds (300 * second) 0)], sc_env = None\<rparr>)) ''app'' = Some c' \<and>
    310 * second < ExpiresAt c'"
proof -
  have "\<forall>tick\<in>set [(280 * second, sample_api (280 * second), True)]. serves (fst tick) (fst (snd tick))"
    by (simp add: serves_def sample_api_def sample_creds_def long_lived_def second_def max_duration_def)
  moreover have "''app'' \<in> ro_Name ` set (sp_Roles sample_secrets)"
    by (simp add: sample_secrets_def secrets_applyDefaults_def)
  moreover have "long_lived (dc_TTL (sample_creds (300 * second) 0))"
    by (simp add: sample_creds_def long_lived_def second_def max_duration_def)
  ultimately show ?thesis
    using credentials_outlive_next_tick [of "[(280 * second, sample_api (280 * second), True)]" "''app''" sample_secrets
        "\<lparr>sc_cache = [], sc_creds = [(''app'', sample_creds (300 * second) 0)], sc_env = None\<rparr>"]
    by (simp add: second_def)
qed

text \<open>A lease of one minute can lapse between two ticks: twenty seconds before its end it is not yet in
  the renewal window.\<close>

theorem short_lease_lapses:
  assumes "map_of (sc_creds st) (ro_Name role) = Some c" and "dc_TTL c = 60 * second" and "dc_IssuedAt c = now - 40 * second"
  shows "rotate_role api w cfg now role st = ([], [], st) \<and> ExpiresAt c < now + 30 * second"
  using assms by (simp add: rotate_role_def ExpiresAt_def second_def time_sub_def max_duration_def min_duration_def)

text \<open>The store the configuration names is not handed to the plugin: whatever \<^verbatim>\<open>secrets.store\<close> and
  \<^verbatim>\<open>secrets.builtin\<close> say, the plugin opens the built-in store at its default path, and a configured OpenBao
  is never contacted.\<close>

theorem configured_store_ignored:
  "secrets_Init env (buildSecretsPlugin s) =
    (if \<not> sg_Enabled s then Inr NoStore
     else case se_key env [] of
       Some e \<Rightarrow> Inl (''secrets plugin init: resolving master key: '' @ e)
     | None \<Rightarrow>
         (case se_open_builtin env ''.vibewarden/secrets.enc'' of
            Some e \<Rightarrow> Inl (''secrets plugin init: builtin store: '' @ e)
          | None \<Rightarrow> Inr (BuiltinStore ''.vibewarden/secrets.enc'' [])))"
  by (simp add: secrets_Init_def buildSecretsPlugin_def secrets_applyDefaults_def or_value_def split: option.split)

text \<open>After a refresh the value injected for a secret is the one the store holds.\<close>

theorem refreshed_value_injected:
  assumes "\<And>p d. store p = Inr d \<Longrightarrow> plain_data d"
    and "i \<in> set (sp_Headers cfg @ sp_Env cfg)" and "in_Template i = []"
    and "store (in_Path i) = Inr d" and "map_of d (in_Key i) = Some v"
  shows "resolveInjectionValue (snd (refreshCache store cfg cache)) i = v"
proof -
  have "in_Path i \<in> set (remdups (injection_paths cfg))"
    using assms(2) by (force simp: injection_paths_def)
  then have "map_of (snd (refresh_paths store (remdups (injection_paths cfg)) cache)) (cacheKeyFor (in_Path i) (in_Key i)) = Some v"
    by (rule map_of_refresh) (use assms in auto)
  then show ?thesis by (simp add: resolveInjectionValue_def refreshCache_def assms(3))
qed

text \<open>A secret that is gone from the store stays in the cache: the refresh only adds and overwrites, and
  the value is injected as before.\<close>

theorem deleted_secret_still_injected:
  assumes "\<And>p d. store p = Inr d \<Longrightarrow> plain_data d \<and> (p = in_Path i \<longrightarrow> in_Key i \<notin> fst ` set d)"
    and "in_Template i = []" and "CHR ''/'' \<notin> set (in_Key i)"
  shows "resolveInjectionValue (snd (refreshCache store cfg cache)) i = resolveInjectionValue cache i"
proof -
  have "map_of (snd (refresh_paths store ps cache)) (cacheKeyFor (in_Path i) (in_Key i)) =
      map_of cache (cacheKeyFor (in_Path i) (in_Key i))" for ps
  proof (induction ps arbitrary: cache)
    case (Cons q ps)
    show ?case
    proof (cases "store q")
      case (Inr d)
      have "\<forall>k\<in>fst ` set d. cacheKeyFor q k \<noteq> cacheKeyFor (in_Path i) (in_Key i)"
      proof
        fix k assume k: "k \<in> fst ` set d"
        then have "CHR ''/'' \<notin> set k" "q = in_Path i \<longrightarrow> k \<noteq> in_Key i"
          using assms(1) [OF Inr] unfolding plain_data_def by blast+
        with cacheKeyFor_inj [of q k "in_Path i" "in_Key i"] assms(3)
        show "cacheKeyFor q k \<noteq> cacheKeyFor (in_Path i) (in_Key i)" by blast
      qed
      with Cons.IH Inr show ?thesis by (simp add: map_of_store_data_other)
    qed (simp add: Cons.IH split_beta)
  qed simp
  then show ?thesis by (simp add: resolveInjectionValue_def refreshCache_def assms(2))
qed

theorem deleted_secret_still_injected_witness:
  "resolveInjectionValue (snd (refreshCache (\<lambda>_. Inr [(''other'', ''x'')] :: unit + _) sample_secrets
      [(cacheKeyFor ''app/api'' ''token'', ''revoked-token'')]))
      \<lparr>in_Path = ''app/api'', in_Key = ''token'', in_Target = ''X-Api-Token'', in_Template = []\<rparr> = ''revoked-token''"
proof -
  let ?i = "\<lparr>in_Path = ''app/api'', in_Key = ''token'', in_Target = ''X-Api-Token'', in_Template = []\<rparr>"
  have "resolveInjectionValue (snd (refreshCache (\<lambda>_. Inr [(''other'', ''x'')] :: unit + _) sample_secrets
      [(cacheKeyFor ''app/api'' ''token'', ''revoked-token'')])) ?i =
    resolveInjectionValue [(cacheKeyFor ''app/api'' ''token'', ''revoked-token'')] ?i"
    by (rule deleted_secret_still_injected) (auto simp: plain_data_def)
  then show ?thesis by (simp add: resolveInjectionValue_def)
qed

end
