(* ===== verification/Gateway.thy ===== *)
theory Gateway
  imports AuthPlugin PluginRegistry CaddyTls SecretsPlugin "HOL-Library.Multiset"
begin

text \<open>The composition of the sidecar: registration of the built-in plugins (\<^verbatim>\<open>internal/plugins/builtin.go\<close>,
  \<^verbatim>\<open>builtin_helpers.go\<close>), the proxy configuration built from the loaded file and the plugins
  (\<^verbatim>\<open>cmd/vibewarden/wiring_serve_helpers.go\<close>), and the Caddy configuration built from it
  (\<^verbatim>\<open>internal/adapters/caddy/config.go\<close>, \<^verbatim>\<open>config_build.go\<close>, \<^verbatim>\<open>config_handlers.go\<close>, \<^verbatim>\<open>config_routes.go\<close>).\<close>

section \<open>The loaded configuration\<close>

record SecurityHeadersConfig =
  sh_Enabled :: bool
  sh_HSTSMaxAge :: int
  sh_HSTSIncludeSubDomains :: bool
  sh_HSTSPreload :: bool
  sh_ContentTypeNosniff :: bool
  sh_FrameOption :: string
  sh_ContentSecurityPolicy :: string
  sh_ReferrerPolicy :: string
  sh_PermissionsPolicy :: string
  sh_CrossOriginOpenerPolicy :: string
  sh_CrossOriginResourcePolicy :: string
  sh_PermittedCrossDomainPolicies :: string
  sh_SuppressViaHeader :: bool

record AppConfig =
  cf_Host :: string
  cf_Port :: int
  cf_UpstreamHost :: string
  cf_UpstreamPort :: int
  cf_Timeouts :: ServerTimeoutSettings
  cf_MaxConnections :: int
  cf_MaxHeaderBytes :: int
  cf_TLS :: TLSConfig
  cf_Maintenance :: MaintenanceConfig
  cf_IPFilter :: IPFilterPluginConfig
  cf_CORS :: CorsConfig
  cf_InputValidation :: InputValidationPluginConfig
  cf_WAF :: WafPluginConfig
  cf_SecurityHeaders :: SecurityHeadersConfig
  cf_BodySize :: BodySizeSettings
  cf_Webhooks :: WebhookSigPluginConfig
  cf_RateLimit :: RateLimitPluginConfig
  cf_Auth :: AuthPluginConfig
  cf_Secrets :: SecretsSettings
  cf_AdminEnabled :: bool
  cf_AdminToken :: string
  cf_TelemetryEnabled :: bool
  cf_Prometheus :: bool
  cf_Compression :: bool
  cf_CompressionAlgorithms :: "string list"
  cf_ResponseHeaders :: ResponseHeadersConfig
  cf_Resilience :: ResilienceSettings

definition auth_Active :: "AppConfig \<Rightarrow> bool" where
  "auth_Active cfg \<longleftrightarrow> ap_Mode (cf_Auth cfg) \<noteq> [] \<and> ap_Mode (cf_Auth cfg) \<noteq> ''none''"

text \<open>What startup finds outside the program. \<open>ge_other_init\<close> is the outcome of \<^verbatim>\<open>Init\<close> of the plugins whose
  work is outside the model (metrics, user-management, egress), \<open>ge_start\<close> and \<open>ge_stop\<close> those of the plugins that
  open or close a server, a store or a database, \<open>ge_health\<close> what the plugins report when asked, and \<open>ge_cache\<close> the
  secret cache when the handlers are collected.\<close>

record gateway_env =
  ge_getenv :: "string \<Rightarrow> string"
  ge_auth :: auth_env
  ge_redis_client :: "string option"
  ge_store :: store_env
  ge_cache :: "(string, string) gomap"
  ge_jwt_adapter :: bool
  ge_other_init :: "string \<Rightarrow> string option"
  ge_start :: "string \<Rightarrow> string option"
  ge_stop :: "string \<Rightarrow> string option"
  ge_health :: "string \<Rightarrow> HealthStatus"
  ge_metrics_addr :: string
  ge_admin_addr :: string

section \<open>Registration of the plugins\<close>

type_synonym contribution = "CaddyRoute list \<times> CaddyHandler list"

text \<open>\<^verbatim>\<open>Start\<close> fails in four plugins at most; in the others it returns nil.\<close>

definition may_fail_start :: "string list" where
  "may_fail_start = [''metrics'', ''user-management'', ''secrets'', ''egress'']"

definition plugin_of ::
    "gateway_env \<Rightarrow> string \<Rightarrow> bool \<Rightarrow> string option \<Rightarrow> CaddyRoute list \<Rightarrow> CaddyHandler list \<Rightarrow> contribution Plugin" where
  "plugin_of env name critical init_error routes handlers =
    \<lparr>pl_Name = name, pl_Critical = critical, pl_Init = init_error,
     pl_Start = (if name \<in> set may_fail_start then ge_start env name else None), pl_Stop = ge_stop env name,
     pl_Health = ge_health env name, pl_Contributes = Some (routes, handlers)\<rparr>"

definition error_of :: "string + 'a \<Rightarrow> string option" where
  "error_of r = (case r of Inl e \<Rightarrow> Some e | Inr _ \<Rightarrow> None)"

text \<open>\<^verbatim>\<open>buildTLSPlugin\<close> copies neither the e-mail address nor the custom authority.\<close>

definition buildTLSPlugin :: "AppConfig \<Rightarrow> TLSConfig" where
  "buildTLSPlugin cfg = (cf_TLS cfg)\<lparr>tc_Email := [], tc_ACMECA := []\<rparr>"

definition tls_error_text :: "tls_config_error \<Rightarrow> string" where
  "tls_error_text e =
    ''tls plugin init: '' @
    (case e of
       DomainRequired p \<Rightarrow> ''domain is required for provider '' @ quoted p
     | EmailRequired p \<Rightarrow>
         ''email is required for provider '' @ quoted p @ '' (ZeroSSL needs it for automatic EAB registration)''
     | CertPathRequired p \<Rightarrow> ''cert_path is required for provider '' @ quoted p
     | KeyPathRequired p \<Rightarrow> ''key_path is required for provider '' @ quoted p
     | UnknownTLSProvider p \<Rightarrow>
         ''unknown tls provider '' @ quoted p @
         ''; valid values: letsencrypt, zerossl, buypass, letsencrypt-staging, self-signed, external'')"

definition auth_plugin_config :: "AppConfig \<Rightarrow> AuthPluginConfig" where
  "auth_plugin_config cfg = (cf_Auth cfg)\<lparr>ap_Enabled := auth_Active cfg\<rparr>"

definition injected_provider :: "gateway_env \<Rightarrow> AppConfig \<Rightarrow> provider_kind option" where
  "injected_provider env cfg =
    (let jwt = ap_JWT (cf_Auth cfg) in
     if ap_Mode (cf_Auth cfg) = ''jwt'' \<and> \<not> (jw_JWKSURL jwt = [] \<and> jw_IssuerURL jwt = []) \<and> ge_jwt_adapter env
     then Some InjectedProvider else None)"

definition auth_plugin :: "gateway_env \<Rightarrow> AppConfig \<Rightarrow> string + AuthPluginState" where
  "auth_plugin env cfg = auth_Init (ge_auth env) (NewAuthPlugin (auth_plugin_config cfg) (injected_provider env cfg))"

definition auth_contribution :: "gateway_env \<Rightarrow> AppConfig \<Rightarrow> contribution" where
  "auth_contribution env cfg =
    (case auth_plugin env cfg of Inr p \<Rightarrow> (auth_routes (ge_auth env) p, auth_handlers p) | Inl _ \<Rightarrow> ([], []))"

definition metrics_route :: "string \<Rightarrow> json" where
  "metrics_route addr =
    route_json [''/_vibewarden/metrics'']
      [JObj [(''handler'', JStr ''rewrite''), (''uri'', JStr ''/metrics'')], reverse_proxy addr]"

definition metrics_routes :: "gateway_env \<Rightarrow> AppConfig \<Rightarrow> CaddyRoute list" where
  "metrics_routes env cfg =
    (if \<not> cf_TelemetryEnabled cfg \<or> ge_metrics_addr env = [] then []
     else [\<lparr>rt_MatchPath = ''/_vibewarden/metrics'', rt_Handler = metrics_route (ge_metrics_addr env), rt_Priority = 30\<rparr>])"

definition limiter_source :: "AppConfig \<Rightarrow> limiter_factory option" where
  "limiter_source cfg = (if rlp_Store (cf_RateLimit cfg) \<noteq> ''redis'' then Some MemoryFactory else None)"

definition builtin_plugins :: "gateway_env \<Rightarrow> AppConfig \<Rightarrow> contribution Plugin list" where
  "builtin_plugins env cfg =
    (let secrets = buildSecretsPlugin (cf_Secrets cfg) in
     [plugin_of env ''maintenance'' False None [] (maintenance_handlers (cf_Maintenance cfg)),
      plugin_of env ''ip-filter'' False (ipfilter_Init (cf_IPFilter cfg)) [] (ipfilter_handlers (cf_IPFilter cfg)),
      plugin_of env ''tls'' True (map_option tls_error_text (fst (tp_Init (buildTLSPlugin cfg)))) [] [],
      plugin_of env ''cors'' False (cors_Init (cf_CORS cfg)) [] (cors_handlers (cf_CORS cfg)),
      plugin_of env ''input-validation'' False (inputvalidation_Init (cf_InputValidation cfg)) []
        (inputvalidation_handlers (cf_InputValidation cfg)),
      plugin_of env ''waf'' False (waf_Init (cf_WAF cfg)) [] (waf_handlers (cf_WAF cfg)),
      plugin_of env ''security-headers'' False
        (securityheaders_Init \<lparr>shp_Enabled = sh_Enabled (cf_SecurityHeaders cfg), shp_FrameOption = sh_FrameOption (cf_SecurityHeaders cfg)\<rparr>)
        [] []] @
     (case bodysize_plugin_config (cf_BodySize cfg) of
        Some bs \<Rightarrow> [plugin_of env ''body-size'' False None [] (bodysize_handlers bs)]
      | None \<Rightarrow> []) @
     [plugin_of env ''metrics'' False (ge_other_init env ''metrics'') (metrics_routes env cfg) [],
      plugin_of env ''webhook-signature'' False (error_of (webhooksig_Init (ge_getenv env) (cf_Webhooks cfg))) []
        (case webhooksig_Init (ge_getenv env) (cf_Webhooks cfg) of
           Inr rules \<Rightarrow> webhooksig_handlers (cf_Webhooks cfg) rules | Inl _ \<Rightarrow> []),
      plugin_of env ''rate-limiting'' True
        (error_of (ratelimit_Init (limiter_source cfg) (ge_redis_client env) (cf_RateLimit cfg))) []
        (ratelimit_handlers (cf_RateLimit cfg)),
      plugin_of env ''auth'' True (error_of (auth_plugin env cfg)) (fst (auth_contribution env cfg)) (snd (auth_contribution env cfg)),
      plugin_of env ''user-management'' False (ge_other_init env ''user-management'') [] [],
      plugin_of env ''secrets'' False (error_of (secrets_Init (ge_store env) secrets)) []
        (secrets_handlers secrets (ge_cache env)),
      plugin_of env ''egress'' False (ge_other_init env ''egress'') [] []])"

definition RegisterBuiltinPlugins :: "gateway_env \<Rightarrow> AppConfig \<Rightarrow> contribution Registry" where
  "RegisterBuiltinPlugins env cfg = fold Register (builtin_plugins env cfg) NewRegistry"

section \<open>The proxy configuration\<close>

record PortsProxyConfig =
  px_ListenAddr :: string
  px_UpstreamAddr :: string
  px_Timeouts :: ServerTimeouts
  px_MaxConnections :: int
  px_MaxHeaderBytes :: int
  px_TLS :: TLSConfig
  px_SecurityHeaders :: SecurityHeadersConfig
  px_AuthEnabled :: bool
  px_KratosPublicURL :: string
  px_SessionCookieName :: string
  px_RateLimit :: RateLimitPluginConfig
  px_Metrics :: "bool \<times> string"
  px_AdminToken :: "bool \<times> string"
  px_Admin :: "bool \<times> string"
  px_Readiness :: "bool \<times> string"
  px_BodySize :: BodySizeConfig
  px_Resilience :: ResilienceConfig
  px_Compression :: "bool \<times> string list"
  px_ResponseHeaders :: ResponseHeadersConfig
  px_ExtraRoutes :: "CaddyRoute list"
  px_ExtraHandlers :: "CaddyHandler list"

definition host_port :: "string \<Rightarrow> int \<Rightarrow> string" where
  "host_port host port = host @ '':'' @ Sprint_d port"

text \<open>\<open>routes\<close> and \<open>handlers\<close> are the contributions after sorting.\<close>

definition proxy_config ::
    "gateway_env \<Rightarrow> AppConfig \<Rightarrow> CaddyRoute list \<Rightarrow> CaddyHandler list \<Rightarrow> PortsProxyConfig" where
  "proxy_config env cfg routes handlers =
    \<lparr>px_ListenAddr = host_port (cf_Host cfg) (cf_Port cfg),
     px_UpstreamAddr = host_port (cf_UpstreamHost cfg) (cf_UpstreamPort cfg),
     px_Timeouts = buildServerTimeoutsConfig (cf_Timeouts cfg),
     px_MaxConnections = cf_MaxConnections cfg, px_MaxHeaderBytes = cf_MaxHeaderBytes cfg,
     px_TLS = cf_TLS cfg, px_SecurityHeaders = cf_SecurityHeaders cfg,
     px_AuthEnabled = auth_Active cfg, px_KratosPublicURL = ap_KratosPublicURL (cf_Auth cfg),
     px_SessionCookieName = ap_SessionCookieName (cf_Auth cfg), px_RateLimit = cf_RateLimit cfg,
     px_Metrics = (cf_TelemetryEnabled cfg \<and> cf_Prometheus cfg, ge_metrics_addr env),
     px_AdminToken = (cf_AdminEnabled cfg, cf_AdminToken cfg),
     px_Admin = (cf_AdminEnabled cfg, ge_admin_addr env),
     px_Readiness = (False, []),
     px_BodySize = buildBodySizePortsConfig (cf_BodySize cfg),
     px_Resilience = buildResiliencePortsConfig (cf_Resilience cfg),
     px_Compression = (cf_Compression cfg, cf_CompressionAlgorithms cfg),
     px_ResponseHeaders = cf_ResponseHeaders cfg,
     px_ExtraRoutes = routes, px_ExtraHandlers = handlers\<rparr>"

text \<open>\<^verbatim>\<open>sort.Slice\<close> is not stable: its result is any arrangement in ascending priority. The result of the
  stable one is the deterministic instance.\<close>

definition arranged :: "('a \<Rightarrow> int) \<Rightarrow> 'a list \<Rightarrow> 'a list \<Rightarrow> bool" where
  "arranged prio xs ys \<longleftrightarrow> mset ys = mset xs \<and> sorted (map prio ys)"

definition contributed_routes :: "contribution Registry \<Rightarrow> CaddyRoute list" where
  "contributed_routes reg = concat (map fst (CaddyContributors reg))"

definition contributed_handlers :: "contribution Registry \<Rightarrow> CaddyHandler list" where
  "contributed_handlers reg = concat (map snd (CaddyContributors reg))"

definition is_buildProxyConfig :: "gateway_env \<Rightarrow> AppConfig \<Rightarrow> contribution Registry \<Rightarrow> PortsProxyConfig \<Rightarrow> bool" where
  "is_buildProxyConfig env cfg reg px \<longleftrightarrow>
    (\<exists>routes handlers. arranged rt_Priority (contributed_routes reg) routes \<and>
      arranged ch_Priority (contributed_handlers reg) handlers \<and> px = proxy_config env cfg routes handlers)"

definition buildProxyConfig :: "gateway_env \<Rightarrow> AppConfig \<Rightarrow> contribution Registry \<Rightarrow> PortsProxyConfig" where
  "buildProxyConfig env cfg reg =
    proxy_config env cfg (sort_key rt_Priority (contributed_routes reg)) (sort_key ch_Priority (contributed_handlers reg))"

section \<open>Handlers of the catch-all route\<close>

definition buildUserHeaderStripHandler :: json where
  "buildUserHeaderStripHandler =
    JObj [(''handler'', JStr ''headers''), (''request'', JObj [(''delete'', json_strings [''x-user-*''])])]"

definition buildSecurityHeadersHandler :: "SecurityHeadersConfig \<Rightarrow> bool \<Rightarrow> json" where
  "buildSecurityHeadersHandler cfg tlsEnabled =
    (let opt = (\<lambda>k v. if_set (v \<noteq> []) k v);
         hsts = ''max-age='' @ Sprint_d (sh_HSTSMaxAge cfg) @
                (if sh_HSTSIncludeSubDomains cfg then ''; includeSubDomains'' else []) @
                (if sh_HSTSPreload cfg then ''; preload'' else []) in
     JObj [(''handler'', JStr ''headers''),
       (''response'', JObj
         ([(''set'', JObj
            (if_set (0 < sh_HSTSMaxAge cfg \<and> tlsEnabled) ''Strict-Transport-Security'' hsts @
             if_set (sh_ContentTypeNosniff cfg) ''X-Content-Type-Options'' ''nosniff'' @
             opt ''X-Frame-Options'' (sh_FrameOption cfg) @
             opt ''Content-Security-Policy'' (sh_ContentSecurityPolicy cfg) @
             opt ''Referrer-Policy'' (sh_ReferrerPolicy cfg) @
             opt ''Permissions-Policy'' (sh_PermissionsPolicy cfg) @
             opt ''Cross-Origin-Opener-Policy'' (sh_CrossOriginOpenerPolicy cfg) @
             opt ''Cross-Origin-Resource-Policy'' (sh_CrossOriginResourcePolicy cfg) @
             opt ''X-Permitted-Cross-Domain-Policies'' (sh_PermittedCrossDomainPolicies cfg)))] @
          (if sh_SuppressViaHeader cfg then [(''delete'', json_strings [''Via''])] else [])))])"

definition buildAdminAuthHandlerJSON :: "bool \<times> string \<Rightarrow> json" where
  "buildAdminAuthHandlerJSON admin =
    module_handler ''vibewarden_admin_auth''
      [(''enabled'', JBool (fst admin)), (''token'', JStr (snd admin)), (''config_path'', JStr ''/_vibewarden/config/'')]"

definition buildCircuitBreakerHandlerJSON :: "ResilienceConfig \<Rightarrow> json option" where
  "buildCircuitBreakerHandlerJSON cfg =
    (case rc_Breaker cfg of
       None \<Rightarrow> None
     | Some (threshold, timeout) \<Rightarrow>
         Some (module_handler ''vibewarden_circuit_breaker''
           [(''threshold'', JInt threshold), (''timeout_seconds'', JRat (of_int timeout / of_int second))]))"

definition buildRetryHandlerJSON :: "ResilienceConfig \<Rightarrow> json option" where
  "buildRetryHandlerJSON cfg =
    (case rc_Retry cfg of
       None \<Rightarrow> None
     | Some (attempts, initial, maximum, retry_on) \<Rightarrow>
         Some (module_handler ''vibewarden_retry''
           [(''max_attempts'', JInt attempts), (''initial_backoff_ms'', JRat (of_int initial / of_int millisecond)),
            (''max_backoff_ms'', JRat (of_int maximum / of_int millisecond)), (''retry_on'', JArr (map JInt retry_on))]))"

definition buildTimeoutHandlerJSON :: "ResilienceConfig \<Rightarrow> json option" where
  "buildTimeoutHandlerJSON cfg =
    (if rc_Timeout cfg \<le> 0 then None
     else Some (module_handler ''vibewarden_timeout'' [(''timeout_seconds'', JRat (of_int (rc_Timeout cfg) / of_int second))]))"

fun add_encodings :: "string list \<Rightarrow> (string \<times> json) list \<Rightarrow> (string \<times> json) list" where
  "add_encodings [] acc = acc"
| "add_encodings (a # as) acc =
    add_encodings as (if a = ''gzip'' \<or> a = ''zstd'' then AList.update a (JObj []) acc else acc)"

definition buildCompressionHandlerJSON :: "string list \<Rightarrow> json" where
  "buildCompressionHandlerJSON algos =
    JObj [(''handler'', JStr ''encode''),
      (''encodings'', JObj (add_encodings (if algos = [] then [''zstd'', ''gzip''] else algos) []))]"

definition opt_list :: "'a option \<Rightarrow> 'a list" where
  "opt_list x = (case x of Some y \<Rightarrow> [y] | None \<Rightarrow> [])"

definition buildCatchAllHandlers :: "PortsProxyConfig \<Rightarrow> json list" where
  "buildCatchAllHandlers cfg =
    [buildUserHeaderStripHandler] @
    (if response_headers_active (px_ResponseHeaders cfg) then [buildResponseHeadersHandlerJSON (px_ResponseHeaders cfg)] else []) @
    [buildAdminAuthHandlerJSON (px_AdminToken cfg)] @
    map ch_Handler (px_ExtraHandlers cfg) @
    (if bs_Enabled (px_BodySize cfg) then [buildBodySizeHandlerJSON (px_BodySize cfg)] else []) @
    (if rlp_Enabled (px_RateLimit cfg) then [buildRateLimitHandlerJSON (px_RateLimit cfg)] else []) @
    opt_list (buildCircuitBreakerHandlerJSON (px_Resilience cfg)) @
    opt_list (buildRetryHandlerJSON (px_Resilience cfg)) @
    (if 0 < rc_Timeout (px_Resilience cfg) then opt_list (buildTimeoutHandlerJSON (px_Resilience cfg)) else []) @
    (if fst (px_Compression cfg) then [buildCompressionHandlerJSON (snd (px_Compression cfg))] else []) @
    [reverse_proxy (px_UpstreamAddr cfg)]"

section \<open>Routes\<close>

definition buildSecurityHeadersRoute :: "SecurityHeadersConfig \<Rightarrow> bool \<Rightarrow> json" where
  "buildSecurityHeadersRoute cfg tlsEnabled = JObj [(''handle'', JArr [buildSecurityHeadersHandler cfg tlsEnabled])]"

definition buildHealthRoute :: json where
  "buildHealthRoute = route_json [''/_vibewarden/health''] [JObj [(''handler'', JStr ''vibewarden_health'')]]"

definition buildStaticReadyRoute :: json where
  "buildStaticReadyRoute =
    route_json [''/_vibewarden/ready'']
      [JObj [(''handler'', JStr ''static_response''),
        (''headers'', JObj [(''Content-Type'', json_strings [''application/json''])]),
        (''body'', JStr (''{'' @ quoted ''ready'' @ '':false,'' @ quoted ''reason'' @ '':'' @ quoted ''starting'' @ ''}'')),
        (''status_code'', JInt 503)]]"

definition buildDynamicReadyRoute :: "string \<Rightarrow> json" where
  "buildDynamicReadyRoute addr = route_json [''/_vibewarden/ready''] [reverse_proxy addr]"

definition buildKratosFlowRoute :: "(string \<Rightarrow> url_parts option) \<Rightarrow> string \<Rightarrow> json" where
  "buildKratosFlowRoute parse kratosPublicURL =
    route_json kratosFlowPaths [reverse_proxy (urlToDialAddr parse kratosPublicURL)]"

definition buildMeRoute :: "string \<Rightarrow> string \<Rightarrow> json" where
  "buildMeRoute kratosPublicURL cookieName =
    route_json [''/_vibewarden/me'']
      [JObj [(''handler'', JStr ''vibewarden_me''), (''cookie_name'', JStr cookieName), (''kratos_url'', JStr kratosPublicURL)]]"

definition buildAdminRoute :: "string \<Rightarrow> bool \<times> string \<Rightarrow> json" where
  "buildAdminRoute addr adminAuth =
    route_json [''/_vibewarden/admin/*''] [buildAdminAuthHandlerJSON adminAuth, reverse_proxy addr]"

definition buildConfigRoute :: "string \<Rightarrow> bool \<times> string \<Rightarrow> json" where
  "buildConfigRoute addr adminAuth =
    route_json [''/_vibewarden/config'', ''/_vibewarden/config/*''] [buildAdminAuthHandlerJSON adminAuth, reverse_proxy addr]"

definition buildDocsRoute :: "string \<Rightarrow> json" where
  "buildDocsRoute addr = route_json [''/_vibewarden/api/docs''] [reverse_proxy addr]"

definition buildCatchAllRoute :: "PortsProxyConfig \<Rightarrow> json list \<Rightarrow> json" where
  "buildCatchAllRoute cfg handlers =
    (let tls = px_TLS cfg in
     JObj ([(''handle'', JArr handlers)] @
       (if tc_Enabled tls \<and> (tc_Provider tls = ''self-signed'' \<or> ad_isACMEProvider (tc_Provider tls))
        then [(''match'', JArr [JObj [(''host'', json_strings [or_default (tc_Domain tls) ''localhost''])]])] else [])))"

definition buildRoutes :: "(string \<Rightarrow> url_parts option) \<Rightarrow> PortsProxyConfig \<Rightarrow> json list \<Rightarrow> json list" where
  "buildRoutes parse cfg handlers =
    (if sh_Enabled (px_SecurityHeaders cfg) then [buildSecurityHeadersRoute (px_SecurityHeaders cfg) (tc_Enabled (px_TLS cfg))] else []) @
    [buildHealthRoute,
     if fst (px_Readiness cfg) \<and> snd (px_Readiness cfg) \<noteq> [] then buildDynamicReadyRoute (snd (px_Readiness cfg))
     else buildStaticReadyRoute] @
    (if fst (px_Metrics cfg) \<and> snd (px_Metrics cfg) \<noteq> [] then [metrics_route (snd (px_Metrics cfg))] else []) @
    (if px_AuthEnabled cfg \<and> px_KratosPublicURL cfg \<noteq> [] then
       [buildKratosFlowRoute parse (px_KratosPublicURL cfg),
        buildMeRoute (px_KratosPublicURL cfg) (or_default (px_SessionCookieName cfg) ''ory_kratos_session'')] else []) @
    (if fst (px_Admin cfg) \<and> snd (px_Admin cfg) \<noteq> [] then
       [buildAdminRoute (snd (px_Admin cfg)) (px_AdminToken cfg), buildConfigRoute (snd (px_Admin cfg)) (px_AdminToken cfg),
        buildDocsRoute (snd (px_Admin cfg))] else []) @
    map rt_Handler (px_ExtraRoutes cfg) @
    [buildCatchAllRoute cfg handlers]"

section \<open>Servers\<close>

definition applyConnectionLimit :: "int \<Rightarrow> (string \<times> json) list" where
  "applyConnectionLimit maximum =
    (if maximum \<le> 0 then []
     else [(''listener_wrappers'', JArr
       [JObj [(''wrapper'', JStr ''vibewarden_conn_limit''), (''max_connections'', JInt maximum)],
        JObj [(''wrapper'', JStr ''tls'')]])])"

definition applyMaxHeaderBytes :: "int \<Rightarrow> (string \<times> json) list" where
  "applyMaxHeaderBytes n = (if n \<le> 0 then [] else [(''max_header_bytes'', JInt n)])"

definition applyAutomaticHTTPS :: "TLSConfig \<Rightarrow> (string \<times> json) list" where
  "applyAutomaticHTTPS tls =
    (if tc_Enabled tls then
       (if \<not> ad_isACMEProvider (tc_Provider tls) then [(''automatic_https'', JObj [(''disable_redirects'', JBool True)])] else [])
     else [(''automatic_https'', JObj [(''disable'', JBool True)])])"

definition buildMainServer :: "PortsProxyConfig \<Rightarrow> json list \<Rightarrow> json" where
  "buildMainServer cfg routes =
    JObj ([(''listen'', json_strings [px_ListenAddr cfg]), (''routes'', JArr routes)] @
      applyServerTimeouts (px_Timeouts cfg) @ applyConnectionLimit (px_MaxConnections cfg) @
      applyMaxHeaderBytes (px_MaxHeaderBytes cfg) @ applyAutomaticHTTPS (px_TLS cfg) @
      (if tc_Enabled (px_TLS cfg) then [(''tls_connection_policies'', JArr (ad_buildTLSPolicy (px_TLS cfg)))] else []))"

definition buildHTTPRedirectServer :: "int \<Rightarrow> json" where
  "buildHTTPRedirectServer maxConns =
    JObj ([(''listen'', json_strings ['':80'']),
      (''routes'', JArr [JObj [(''handle'', JArr
        [JObj [(''handler'', JStr ''static_response''),
          (''headers'', JObj [(''Location'', json_strings [''https://{http.request.host}{http.request.uri}''])]),
          (''status_code'', JInt 301)]])]]),
      (''automatic_https'', JObj [(''disable'', JBool True)])] @ applyConnectionLimit maxConns)"

datatype build_error =
    ListenAddrRequired
  | UpstreamAddrRequired
  | TLSInvalid tls_config_error
  | TLSAppError string

definition validateBuildInput :: "PortsProxyConfig \<Rightarrow> build_error option" where
  "validateBuildInput cfg =
    (if px_ListenAddr cfg = [] then Some ListenAddrRequired
     else if px_UpstreamAddr cfg = [] then Some UpstreamAddrRequired
     else if tc_Enabled (px_TLS cfg) then map_option TLSInvalid (ad_validateTLSConfig (px_TLS cfg))
     else None)"

definition buildCaddyApps :: "PortsProxyConfig \<Rightarrow> json \<Rightarrow> build_error + json" where
  "buildCaddyApps cfg server =
    (let tls = px_TLS cfg;
         servers = [(''vibewarden'', server)] @
           (if tc_Enabled tls \<and> \<not> ad_isACMEProvider (tc_Provider tls)
            then [(''vibewarden_redirect'', buildHTTPRedirectServer (px_MaxConnections cfg))] else []);
         http = [(''http'', JObj [(''servers'', JObj servers)])] in
     if tc_Enabled tls then
       (case ad_buildTLSApp tls of Inl e \<Rightarrow> Inl (TLSAppError e) | Inr app \<Rightarrow> Inr (JObj (http @ [(''tls'', app)])))
     else Inr (JObj http))"

definition assembleTopLevelConfig :: "PortsProxyConfig \<Rightarrow> json \<Rightarrow> json" where
  "assembleTopLevelConfig cfg apps =
    JObj ([(''apps'', apps)] @
      (if tc_Enabled (px_TLS cfg) \<and> tc_StoragePath (px_TLS cfg) \<noteq> []
       then [(''storage'', JObj [(''module'', JStr ''file_system''), (''root'', JStr (tc_StoragePath (px_TLS cfg)))])] else []))"

definition BuildCaddyConfig :: "(string \<Rightarrow> url_parts option) \<Rightarrow> PortsProxyConfig \<Rightarrow> build_error + json" where
  "BuildCaddyConfig parse cfg =
    (case validateBuildInput cfg of
       Some e \<Rightarrow> Inl e
     | None \<Rightarrow>
         (case buildCaddyApps cfg (buildMainServer cfg (buildRoutes parse cfg (buildCatchAllHandlers cfg))) of
            Inl e \<Rightarrow> Inl e
          | Inr apps \<Rightarrow> Inr (assembleTopLevelConfig cfg apps)))"

section \<open>Modules of the sidecar\<close>

text \<open>The identifiers the handler modules are registered under with Caddy (\<^verbatim>\<open>CaddyModule\<close> and
  \<^verbatim>\<open>init\<close> of the files of \<^verbatim>\<open>internal/adapters/caddy\<close>).\<close>

definition JWTBearerHandler_CaddyModule :: string where
  "JWTBearerHandler_CaddyModule = ''http.handlers.jwt_bearer''"

definition MaintenanceHandler_CaddyModule :: string where
  "MaintenanceHandler_CaddyModule = ''http.handlers.vibewarden_maintenance''"

definition TimeoutHandler_CaddyModule :: string where
  "TimeoutHandler_CaddyModule = ''http.handlers.vibewarden_timeout''"

definition AuthHandler_CaddyModule :: string where
  "AuthHandler_CaddyModule = ''http.handlers.vibewarden_authentication''"

definition CircuitBreakerHandler_CaddyModule :: string where
  "CircuitBreakerHandler_CaddyModule = ''http.handlers.vibewarden_circuit_breaker''"

definition WAFEngineHandler_CaddyModule :: string where
  "WAFEngineHandler_CaddyModule = ''http.handlers.vibewarden_waf_engine''"

definition BodySizeHandler_CaddyModule :: string where
  "BodySizeHandler_CaddyModule = ''http.handlers.vibewarden_body_size''"

definition IPFilterHandler_CaddyModule :: string where
  "IPFilterHandler_CaddyModule = ''http.handlers.vibewarden_ip_filter''"

definition MeHandler_CaddyModule :: string where
  "MeHandler_CaddyModule = ''http.handlers.vibewarden_me''"

definition WebhookSignatureHandler_CaddyModule :: string where
  "WebhookSignatureHandler_CaddyModule = ''http.handlers.vibewarden_webhook_signature''"

definition RetryHandler_CaddyModule :: string where
  "RetryHandler_CaddyModule = ''http.handlers.vibewarden_retry''"

definition HealthHandler_CaddyModule :: string where
  "HealthHandler_CaddyModule = ''http.handlers.vibewarden_health''"

definition IdentityHeadersHandler_CaddyModule :: string where
  "IdentityHeadersHandler_CaddyModule = ''http.handlers.vibewarden_identity_headers''"

definition RateLimitHandler_CaddyModule :: string where
  "RateLimitHandler_CaddyModule = ''http.handlers.vibewarden_rate_limit''"

definition AdminAuthHandler_CaddyModule :: string where
  "AdminAuthHandler_CaddyModule = ''http.handlers.vibewarden_admin_auth''"

definition APIKeyHandler_CaddyModule :: string where
  "APIKeyHandler_CaddyModule = ''http.handlers.api_key_auth''"

definition ContentTypeHandler_CaddyModule :: string where
  "ContentTypeHandler_CaddyModule = ''http.handlers.vibewarden_waf_content_type''"

definition sidecar_modules :: "string list" where
  "sidecar_modules =
    [JWTBearerHandler_CaddyModule, MaintenanceHandler_CaddyModule, TimeoutHandler_CaddyModule,
     AuthHandler_CaddyModule, CircuitBreakerHandler_CaddyModule, WAFEngineHandler_CaddyModule,
     BodySizeHandler_CaddyModule, IPFilterHandler_CaddyModule, MeHandler_CaddyModule,
     WebhookSignatureHandler_CaddyModule, RetryHandler_CaddyModule, HealthHandler_CaddyModule,
     IdentityHeadersHandler_CaddyModule, RateLimitHandler_CaddyModule, AdminAuthHandler_CaddyModule, APIKeyHandler_CaddyModule, ContentTypeHandler_CaddyModule]"

lemmas CaddyModule_defs =
  JWTBearerHandler_CaddyModule_def
  MaintenanceHandler_CaddyModule_def
  TimeoutHandler_CaddyModule_def
  AuthHandler_CaddyModule_def
  CircuitBreakerHandler_CaddyModule_def
  WAFEngineHandler_CaddyModule_def
  BodySizeHandler_CaddyModule_def
  IPFilterHandler_CaddyModule_def
  MeHandler_CaddyModule_def
  WebhookSignatureHandler_CaddyModule_def
  RetryHandler_CaddyModule_def
  HealthHandler_CaddyModule_def
  IdentityHeadersHandler_CaddyModule_def
  RateLimitHandler_CaddyModule_def
  AdminAuthHandler_CaddyModule_def
  APIKeyHandler_CaddyModule_def
  ContentTypeHandler_CaddyModule_def

section \<open>Lemmas\<close>

text \<open>Arrangements by priority agree where the priorities are distinct.\<close>

lemma arranged_filter:
  assumes "arranged prio xs ys" "mset (filter P xs) = mset zs" "sorted (map prio zs)" "distinct (map prio zs)"
  shows "filter P ys = zs"
proof (rule map_sorted_distinct_set_unique)
  have m: "mset (filter P ys) = mset zs" using assms(1,2) by (metis arranged_def mset_filter)
  show set_eq: "set (filter P ys) = set zs" using m by (metis set_mset_mset)
  show "sorted (map prio (filter P ys))" using assms(1) by (simp add: arranged_def sorted_filter)
  have "mset (map prio (filter P ys)) = mset (map prio zs)" using m by (metis mset_map)
  then show "distinct (map prio (filter P ys))" using assms(4) by (metis mset_eq_imp_distinct_iff)
  show "inj_on prio (set (filter P ys) \<union> set zs)" using assms(4) set_eq by (simp add: distinct_map)
qed (use assms in auto)

lemma rg_plugins_fold_Register: "rg_plugins (fold Register ps r) = rg_plugins r @ ps"
  by (induction ps arbitrary: r) (simp_all add: Register_def)

lemma rg_degraded_fold_Register: "rg_degraded (fold Register ps r) = rg_degraded r"
  by (induction ps arbitrary: r) (simp_all add: Register_def)

lemma builtin_registry [simp]:
  "rg_plugins (RegisterBuiltinPlugins env cfg) = builtin_plugins env cfg"
  "rg_degraded (RegisterBuiltinPlugins env cfg) = []"
  by (simp_all add: RegisterBuiltinPlugins_def NewRegistry_def rg_plugins_fold_Register rg_degraded_fold_Register)

lemma plugin_of_simps [simp]:
  "pl_Name (plugin_of env n c i rs hs) = n" "pl_Critical (plugin_of env n c i rs hs) = c"
  "pl_Init (plugin_of env n c i rs hs) = i" "pl_Contributes (plugin_of env n c i rs hs) = Some (rs, hs)"
  "pl_Start (plugin_of env n c i rs hs) = (if n \<in> set may_fail_start then ge_start env n else None)"
  by (simp_all add: plugin_of_def)

lemma builtin_names: "distinct (map pl_Name (builtin_plugins env cfg))"
  by (simp add: builtin_plugins_def Let_def split: option.split)

text \<open>A startup of the built-in plugins that succeeded.\<close>

definition started :: "gateway_env \<Rightarrow> AppConfig \<Rightarrow> contribution Registry \<Rightarrow> bool" where
  "started env cfg r2 \<longleftrightarrow>
    (case InitAll (RegisterBuiltinPlugins env cfg) of
       (e1, c1, r1) \<Rightarrow> (case StartAll r1 of (e2, c2, r) \<Rightarrow> e1 = None \<and> e2 = None \<and> r = r2))"

lemma startedD:
  assumes "started env cfg r2"
  shows "CaddyContributors r2 = contributions (builtin_plugins env cfg)"
    and "p \<in> set (builtin_plugins env cfg) \<Longrightarrow> pl_Critical p \<Longrightarrow> came_up p"
proof -
  obtain e1 c1 r1 where i: "InitAll (RegisterBuiltinPlugins env cfg) = (e1, c1, r1)" by (metis prod_cases3)
  obtain e2 c2 r where s: "StartAll r1 = (e2, c2, r)" by (metis prod_cases3)
  have ok: "e1 = None" "e2 = None" "r = r2" using assms i s by (auto simp: started_def)
  note d = builtin_names [of env cfg]
  show "CaddyContributors r2 = contributions (builtin_plugins env cfg)"
    using startup_contributors [of "RegisterBuiltinPlugins env cfg"] d i s ok by simp
  show "p \<in> set (builtin_plugins env cfg) \<Longrightarrow> pl_Critical p \<Longrightarrow> came_up p"
    using startup_critical [of "RegisterBuiltinPlugins env cfg" e1 c1 r1 e2 c2 r] d i s ok by simp
qed

text \<open>The modules of the plugins that stand between a request and the upstream.\<close>

definition is_gate :: "CaddyHandler \<Rightarrow> bool" where
  "is_gate h \<longleftrightarrow> handler_name (ch_Handler h) \<in>
    {''vibewarden_maintenance'', ''vibewarden_ip_filter'', ''vibewarden_input_validation'', ''vibewarden_webhook_signature'',
     ''api_key_auth'', ''jwt_bearer'', ''vibewarden_authentication'', ''vibewarden_identity_headers'',
     ''vibewarden_body_size'', ''vibewarden_rate_limit''}"

definition if_up :: "string option \<Rightarrow> CaddyHandler list \<Rightarrow> CaddyHandler list" where
  "if_up err hs = (if err = None then hs else [])"

definition gate_chain :: "gateway_env \<Rightarrow> AppConfig \<Rightarrow> CaddyHandler list" where
  "gate_chain env cfg =
    maintenance_handlers (cf_Maintenance cfg) @
    if_up (ipfilter_Init (cf_IPFilter cfg)) (ipfilter_handlers (cf_IPFilter cfg)) @
    if_up (inputvalidation_Init (cf_InputValidation cfg)) (inputvalidation_handlers (cf_InputValidation cfg)) @
    (case webhooksig_Init (ge_getenv env) (cf_Webhooks cfg) of
       Inr rules \<Rightarrow> webhooksig_handlers (cf_Webhooks cfg) rules | Inl _ \<Rightarrow> []) @
    snd (auth_contribution env cfg) @
    (case bodysize_plugin_config (cf_BodySize cfg) of Some bs \<Rightarrow> bodysize_handlers bs | None \<Rightarrow> []) @
    ratelimit_handlers (cf_RateLimit cfg)"

lemma filter_gate_contribute [simp]:
  "filter is_gate (contribute b h p) = (if is_gate \<lparr>ch_Handler = h, ch_Priority = p\<rparr> then contribute b h p else [])"
  by (simp add: contribute_def)

lemma auth_handlers_cases:
  "auth_handlers p = [] \<or>
   (\<exists>h. auth_handlers p = [\<lparr>ch_Handler = h, ch_Priority = 36\<rparr>] \<and> handler_name h = ''api_key_auth'') \<or>
   (\<exists>h. auth_handlers p = [\<lparr>ch_Handler = h, ch_Priority = 40\<rparr>] \<and> handler_name h = ''jwt_bearer'') \<or>
   (\<exists>h h'. auth_handlers p = [\<lparr>ch_Handler = h, ch_Priority = 40\<rparr>, \<lparr>ch_Handler = h', ch_Priority = 41\<rparr>] \<and>
     handler_name h = ''vibewarden_authentication'' \<and> handler_name h' = ''vibewarden_identity_headers'')"
  by (auto simp: auth_handlers_def buildAPIKeyHandler_def buildJWTBearerHandler_def buildAuthHandler_def
      buildIdentityHeadersHandler_def Let_def split: option.split)

lemma auth_contribution_cases:
  obtains "snd (auth_contribution env cfg) = []"
  | h where "snd (auth_contribution env cfg) = [\<lparr>ch_Handler = h, ch_Priority = 36\<rparr>]" "handler_name h = ''api_key_auth''"
  | h where "snd (auth_contribution env cfg) = [\<lparr>ch_Handler = h, ch_Priority = 40\<rparr>]" "handler_name h = ''jwt_bearer''"
  | h h' where "snd (auth_contribution env cfg) = [\<lparr>ch_Handler = h, ch_Priority = 40\<rparr>, \<lparr>ch_Handler = h', ch_Priority = 41\<rparr>]"
      "handler_name h = ''vibewarden_authentication''" "handler_name h' = ''vibewarden_identity_headers''"
proof (cases "auth_plugin env cfg")
  case (Inl e)
  then show ?thesis using that(1) by (simp add: auth_contribution_def)
next
  case (Inr p)
  then have "snd (auth_contribution env cfg) = auth_handlers p" by (simp add: auth_contribution_def)
  with auth_handlers_cases [of p] that show ?thesis by metis
qed

lemma auth_contribution_gates: "filter is_gate (snd (auth_contribution env cfg)) = snd (auth_contribution env cfg)"
  by (rule auth_contribution_cases [of env cfg]) (simp_all add: is_gate_def)

lemma contributions_handlers:
  "concat (map snd (contributions ps)) =
    concat (map (\<lambda>p. if came_up p then (case pl_Contributes p of Some c \<Rightarrow> snd c | None \<Rightarrow> []) else []) ps)"
  by (induction ps) (auto simp: contributions_def split: option.split)

lemma came_up_plugin_of [simp]:
  "came_up (plugin_of env n c i rs hs) \<longleftrightarrow> i = None \<and> (n \<in> set may_fail_start \<longrightarrow> ge_start env n = None)"
  by (simp add: came_up_def)

text \<open>What the plugins contribute, up to the plugins without a gate.\<close>

lemma filter_gate_handlers [simp]:
  "filter is_gate (maintenance_handlers c1) = maintenance_handlers c1"
  "filter is_gate (ipfilter_handlers c2) = ipfilter_handlers c2"
  "filter is_gate (inputvalidation_handlers c3) = inputvalidation_handlers c3"
  "filter is_gate (webhooksig_handlers c4 rules) = webhooksig_handlers c4 rules"
  "filter is_gate (bodysize_handlers c5) = bodysize_handlers c5"
  "filter is_gate (ratelimit_handlers c6) = ratelimit_handlers c6"
  "filter is_gate (cors_handlers c7) = []"
  "filter is_gate (waf_handlers c8) = []"
  "filter is_gate (secrets_handlers c9 cache) = []"
  by (simp_all add: maintenance_handlers_def buildMaintenanceHandlerJSON_def ipfilter_handlers_def buildIPFilterHandlerJSON_def
      inputvalidation_handlers_def buildInputValidationHandlerJSON_def webhooksig_handlers_def
      BuildWebhookSignatureHandlerJSON_def bodysize_handlers_def buildBodySizeHandlerJSON_def ratelimit_handlers_def
      buildRateLimitHandlerJSON_def cors_handlers_def buildPreflightHandler_def buildResponseHeadersHandler_def
      waf_handlers_def buildContentTypeHandlerJSON_def buildEngineHandlerJSON_def secrets_handlers_def
      buildRequestHeadersHandler_def is_gate_def Let_def)

definition gates_of :: "contribution Plugin \<Rightarrow> CaddyHandler list" where
  "gates_of p = (if came_up p then filter is_gate (case pl_Contributes p of Some c \<Rightarrow> snd c | None \<Rightarrow> []) else [])"

lemma gates_of_plugin:
  "gates_of (plugin_of env n c i rs hs) =
    (if i = None \<and> (n \<in> set may_fail_start \<longrightarrow> ge_start env n = None) then filter is_gate hs else [])"
  by (simp add: gates_of_def)

lemma gates_contributed:
  assumes "started env cfg r"
  shows "mset (filter is_gate (contributed_handlers r)) = mset (gate_chain env cfg)"
proof -
  note critical = startedD(2) [OF assms]
  have auth: "error_of (auth_plugin env cfg) = None"
    using critical [of "plugin_of env ''auth'' True (error_of (auth_plugin env cfg)) (fst (auth_contribution env cfg)) (snd (auth_contribution env cfg))"]
    by (simp add: builtin_plugins_def Let_def)
  have rate: "error_of (ratelimit_Init (limiter_source cfg) (ge_redis_client env) (cf_RateLimit cfg)) = None"
    using critical [of "plugin_of env ''rate-limiting'' True
        (error_of (ratelimit_Init (limiter_source cfg) (ge_redis_client env) (cf_RateLimit cfg))) []
        (ratelimit_handlers (cf_RateLimit cfg))"]
    by (simp add: builtin_plugins_def Let_def)
  have webhook: "(if error_of w = None then filter is_gate (case w of Inr rules \<Rightarrow> webhooksig_handlers c rules | Inl _ \<Rightarrow> []) else []) =
      (case w of Inr rules \<Rightarrow> webhooksig_handlers c rules | Inl _ \<Rightarrow> [])" for w :: "string + (WebhookRuleConfig \<times> string) list" and c
    by (simp add: error_of_def split: sum.split)
  have "mset (filter is_gate (contributed_handlers r)) = mset (concat (map gates_of (builtin_plugins env cfg)))"
    by (simp add: contributed_handlers_def startedD(1) [OF assms] contributions_handlers filter_concat o_def gates_of_def [abs_def]
        if_distrib [of "filter is_gate"] cong: if_cong)
  also have "\<dots> = mset (gate_chain env cfg)"
    by (cases "bodysize_plugin_config (cf_BodySize cfg)")
      (simp_all only: builtin_plugins_def Let_def append.simps list.map concat.simps map_append concat_append option.case gates_of_plugin
        filter_gate_handlers auth rate auth_contribution_gates webhook gate_chain_def if_up_def may_fail_start_def
        mset_append append_Nil2 append_Nil filter.simps if_cancel simp_thms if_True list.set insert_iff empty_iff list.inject char.inject list.distinct mset.simps ac_simps add_0)
  finally show ?thesis .
qed

lemma contribute_cases: "contribute b h p = [] \<or> contribute b h p = [\<lparr>ch_Handler = h, ch_Priority = p\<rparr>]"
  by (cases b) simp_all

text \<open>A list of handlers whose priorities lie in one interval and increase.\<close>

definition prio_within :: "int \<Rightarrow> int \<Rightarrow> CaddyHandler list \<Rightarrow> bool" where
  "prio_within lo hi hs \<longleftrightarrow>
    sorted (map ch_Priority hs) \<and> distinct (map ch_Priority hs) \<and> (\<forall>h\<in>set hs. lo \<le> ch_Priority h \<and> ch_Priority h \<le> hi)"

lemma prio_within_Nil [simp]: "prio_within lo hi []"
  by (simp add: prio_within_def)

lemma prio_within_contribute: "lo \<le> p \<Longrightarrow> p \<le> hi \<Longrightarrow> prio_within lo hi (contribute b h p)"
  by (cases b) (simp_all add: prio_within_def)

lemma prio_within_if_up: "prio_within lo hi hs \<Longrightarrow> prio_within lo hi (if_up e hs)"
  by (simp add: if_up_def)

lemma prio_within_append:
  assumes "prio_within lo mid xs" "prio_within mid' hi ys" "mid < mid'" "lo \<le> mid'" "mid \<le> hi"
  shows "prio_within lo hi (xs @ ys)"
proof -
  have "\<forall>x\<in>set xs. \<forall>y\<in>set ys. ch_Priority x < ch_Priority y" using assms by (force simp: prio_within_def)
  then have "\<forall>x\<in>set xs. \<forall>y\<in>set ys. ch_Priority x \<le> ch_Priority y"
    and "ch_Priority ` set xs \<inter> ch_Priority ` set ys = {}" by fastforce+
  with assms show ?thesis by (force simp: prio_within_def sorted_append)
qed

lemma prio_within_auth: "prio_within 36 41 (snd (auth_contribution env cfg))"
  by (rule auth_contribution_cases [of env cfg]) (simp_all add: prio_within_def)

lemma prio_within_gate_chain: "prio_within 5 50 (gate_chain env cfg)"
proof -
  have w: "prio_within 35 35 (case webhooksig_Init (ge_getenv env) (cf_Webhooks cfg) of
       Inr rules \<Rightarrow> webhooksig_handlers (cf_Webhooks cfg) rules | Inl _ \<Rightarrow> [])"
    by (simp add: webhooksig_handlers_def prio_within_contribute split: sum.split)
  have b: "prio_within 45 45 (case bodysize_plugin_config (cf_BodySize cfg) of Some bs \<Rightarrow> bodysize_handlers bs | None \<Rightarrow> [])"
    by (simp add: bodysize_handlers_def prio_within_contribute split: option.split)
  have r: "prio_within 50 50 (ratelimit_handlers (cf_RateLimit cfg))"
    by (simp add: ratelimit_handlers_def prio_within_contribute)
  have i: "prio_within 18 18 (if_up (inputvalidation_Init (cf_InputValidation cfg)) (inputvalidation_handlers (cf_InputValidation cfg)))"
    by (simp add: inputvalidation_handlers_def prio_within_contribute prio_within_if_up)
  have f: "prio_within 15 15 (if_up (ipfilter_Init (cf_IPFilter cfg)) (ipfilter_handlers (cf_IPFilter cfg)))"
    by (simp add: ipfilter_handlers_def prio_within_contribute prio_within_if_up)
  have m: "prio_within 5 5 (maintenance_handlers (cf_Maintenance cfg))"
    by (simp add: maintenance_handlers_def prio_within_contribute)
  note br = prio_within_append [OF b r, simplified]
  note abr = prio_within_append [OF prio_within_auth [of env cfg] br, simplified]
  note wabr = prio_within_append [OF w abr, simplified]
  note iw = prio_within_append [OF i wabr, simplified]
  note fw = prio_within_append [OF f iw, simplified]
  show ?thesis unfolding gate_chain_def using prio_within_append [OF m fw] by simp
qed

lemma gates_in_order:
  assumes "started env cfg r" "is_buildProxyConfig env cfg r px"
  shows "filter is_gate (px_ExtraHandlers px) = gate_chain env cfg"
proof -
  obtain handlers where "arranged ch_Priority (contributed_handlers r) handlers" "px_ExtraHandlers px = handlers"
    using assms(2) by (auto simp: is_buildProxyConfig_def proxy_config_def)
  with arranged_filter [OF _ gates_contributed [OF assms(1)]] prio_within_gate_chain [of env cfg] show ?thesis
    by (simp add: prio_within_def)
qed

text \<open>The modules the adapter itself puts into the chain before the upstream.\<close>

lemma handler_name_builders [simp]:
  "handler_name (reverse_proxy a) = ''reverse_proxy''"
  "handler_name buildUserHeaderStripHandler = ''headers''"
  "handler_name (buildResponseHeadersHandlerJSON c) = ''headers''"
  "handler_name (buildAdminAuthHandlerJSON adm) = ''vibewarden_admin_auth''"
  "handler_name (buildBodySizeHandlerJSON bs) = ''vibewarden_body_size''"
  "handler_name (buildRateLimitHandlerJSON rl) = ''vibewarden_rate_limit''"
  "handler_name (buildCompressionHandlerJSON cs) = ''encode''"
  by (simp_all add: reverse_proxy_def buildUserHeaderStripHandler_def buildResponseHeadersHandlerJSON_def
      buildAdminAuthHandlerJSON_def buildBodySizeHandlerJSON_def buildRateLimitHandlerJSON_def buildCompressionHandlerJSON_def)

text \<open>The adapter's handlers before and after those of the plugins.\<close>

definition before_plugins :: "PortsProxyConfig \<Rightarrow> json list" where
  "before_plugins px =
    buildUserHeaderStripHandler #
    (if response_headers_active (px_ResponseHeaders px) then [buildResponseHeadersHandlerJSON (px_ResponseHeaders px)] else []) @
    [buildAdminAuthHandlerJSON (px_AdminToken px)]"

definition after_plugins :: "PortsProxyConfig \<Rightarrow> json list" where
  "after_plugins px =
    (if bs_Enabled (px_BodySize px) then [buildBodySizeHandlerJSON (px_BodySize px)] else []) @
    (if rlp_Enabled (px_RateLimit px) then [buildRateLimitHandlerJSON (px_RateLimit px)] else []) @
    opt_list (buildCircuitBreakerHandlerJSON (px_Resilience px)) @
    opt_list (buildRetryHandlerJSON (px_Resilience px)) @
    opt_list (buildTimeoutHandlerJSON (px_Resilience px)) @
    (if fst (px_Compression px) then [buildCompressionHandlerJSON (snd (px_Compression px))] else [])"

lemma catch_all_parts:
  "buildCatchAllHandlers px =
    before_plugins px @ map ch_Handler (px_ExtraHandlers px) @ after_plugins px @ [reverse_proxy (px_UpstreamAddr px)]"
  by (simp add: buildCatchAllHandlers_def before_plugins_def after_plugins_def buildTimeoutHandlerJSON_def opt_list_def)

lemma adapter_names:
  "handler_name ` set (before_plugins px) \<subseteq> {''headers'', ''vibewarden_admin_auth''}"
  "handler_name ` set (after_plugins px) \<subseteq>
    {''vibewarden_body_size'', ''vibewarden_rate_limit'', ''vibewarden_circuit_breaker'', ''vibewarden_retry'',
     ''vibewarden_timeout'', ''encode''}"
  by (auto simp: before_plugins_def after_plugins_def opt_list_def buildCircuitBreakerHandlerJSON_def
      buildRetryHandlerJSON_def buildTimeoutHandlerJSON_def split: if_splits option.splits)

text \<open>The modules the plugins' handlers ask for.\<close>

definition plugin_modules :: "string set" where
  "plugin_modules =
    {''vibewarden_maintenance'', ''vibewarden_ip_filter'', ''subroute'', ''headers'', ''vibewarden_input_validation'',
     ''vibewarden_waf_content_type'', ''vibewarden_waf_engine'', ''vibewarden_body_size'', ''vibewarden_webhook_signature'',
     ''vibewarden_rate_limit'', ''api_key_auth'', ''jwt_bearer'', ''vibewarden_authentication'', ''vibewarden_identity_headers''}"

abbreviation asks_for :: "CaddyHandler list \<Rightarrow> string set" where
  "asks_for hs \<equiv> (\<lambda>h. handler_name (ch_Handler h)) ` set hs"

lemma asks_for_contribute [simp]: "asks_for (contribute b h p) = (if b then {handler_name h} else {})"
  by (simp add: contribute_def)

lemma asks_for_plugins:
  "asks_for (maintenance_handlers c1) = (if mn_Enabled c1 then {''vibewarden_maintenance''} else {})"
  "asks_for (ipfilter_handlers c2) = (if fp_Enabled c2 then {''vibewarden_ip_filter''} else {})"
  "asks_for (inputvalidation_handlers c3) = (if ivp_Enabled c3 then {''vibewarden_input_validation''} else {})"
  "asks_for (webhooksig_handlers c4 rules) = (if whp_Enabled c4 \<and> rules \<noteq> [] then {''vibewarden_webhook_signature''} else {})"
  "asks_for (bodysize_handlers c5) = (if bs_Enabled c5 then {''vibewarden_body_size''} else {})"
  "asks_for (ratelimit_handlers c6) = (if rlp_Enabled c6 then {''vibewarden_rate_limit''} else {})"
  "asks_for (cors_handlers c7) = (if co_Enabled c7 then {''subroute'', ''headers''} else {})"
  "asks_for (waf_handlers c8) =
    (if wp_ContentTypes c8 then {''vibewarden_waf_content_type''} else {}) \<union> (if wp_Engine c8 then {''vibewarden_waf_engine''} else {})"
  "asks_for (secrets_handlers c9 cache) = (if sp_Enabled c9 \<and> sp_Headers c9 \<noteq> [] then {''headers''} else {})"
  by (simp_all add: maintenance_handlers_def buildMaintenanceHandlerJSON_def ipfilter_handlers_def buildIPFilterHandlerJSON_def
      inputvalidation_handlers_def buildInputValidationHandlerJSON_def webhooksig_handlers_def
      BuildWebhookSignatureHandlerJSON_def bodysize_handlers_def ratelimit_handlers_def
      cors_handlers_def buildPreflightHandler_def buildResponseHeadersHandler_def
      waf_handlers_def buildContentTypeHandlerJSON_def buildEngineHandlerJSON_def secrets_handlers_def
      buildRequestHeadersHandler_def Let_def)

lemma asks_for_auth:
  "asks_for (snd (auth_contribution env cfg)) \<subseteq>
    {''api_key_auth'', ''jwt_bearer'', ''vibewarden_authentication'', ''vibewarden_identity_headers''}"
  by (rule auth_contribution_cases [of env cfg]) simp_all

definition asks_known :: "contribution Plugin \<Rightarrow> bool" where
  "asks_known p \<longleftrightarrow> asks_for (case pl_Contributes p of Some c \<Rightarrow> snd c | None \<Rightarrow> []) \<subseteq> plugin_modules"

lemma asks_known_plugin: "asks_known (plugin_of env n c i rs hs) \<longleftrightarrow> asks_for hs \<subseteq> plugin_modules"
  by (simp add: asks_known_def)

lemma plugins_ask_known:
  "asks_for (maintenance_handlers c1) \<subseteq> plugin_modules" "asks_for (ipfilter_handlers c2) \<subseteq> plugin_modules"
  "asks_for (inputvalidation_handlers c3) \<subseteq> plugin_modules" "asks_for (webhooksig_handlers c4 rules) \<subseteq> plugin_modules"
  "asks_for (bodysize_handlers c5) \<subseteq> plugin_modules" "asks_for (ratelimit_handlers c6) \<subseteq> plugin_modules"
  "asks_for (cors_handlers c7) \<subseteq> plugin_modules" "asks_for (waf_handlers c8) \<subseteq> plugin_modules"
  "asks_for (secrets_handlers c9 cache) \<subseteq> plugin_modules" "asks_for [] \<subseteq> plugin_modules"
  unfolding asks_for_plugins by (simp_all add: plugin_modules_def)

lemma auth_asks_known: "asks_for (snd (auth_contribution env cfg)) \<subseteq> plugin_modules"
  using asks_for_auth [of env cfg] by (auto simp: plugin_modules_def)

lemma builtin_asks_known: "list_all asks_known (builtin_plugins env cfg)"
proof -
  have w: "asks_for (case w of Inr rules \<Rightarrow> webhooksig_handlers c rules | Inl _ \<Rightarrow> []) \<subseteq> plugin_modules"
    for w :: "string + (WebhookRuleConfig \<times> string) list" and c
    by (cases w) (simp_all add: plugins_ask_known(4))
  show ?thesis
    unfolding builtin_plugins_def Let_def
    by (cases "bodysize_plugin_config (cf_BodySize cfg)")
      (simp_all only: append.simps append_Nil2 option.case list.pred_inject list_all_append asks_known_plugin plugins_ask_known
        auth_asks_known w simp_thms)
qed

lemma contributed_modules:
  assumes "started env cfg r"
  shows "asks_for (contributed_handlers r) \<subseteq> plugin_modules"
proof
  fix n assume "n \<in> asks_for (contributed_handlers r)"
  then obtain p where p: "p \<in> set (builtin_plugins env cfg)"
      and n: "n \<in> asks_for (case pl_Contributes p of Some c \<Rightarrow> snd c | None \<Rightarrow> [])"
    unfolding contributed_handlers_def startedD(1) [OF assms] contributions_handlers by (auto split: if_splits)
  from p have "asks_known p" using builtin_asks_known [of env cfg] by (simp add: list_all_iff)
  with n show "n \<in> plugin_modules" by (auto simp: asks_known_def)
qed

lemma arranged_set: "arranged f xs ys \<Longrightarrow> set ys = set xs"
  by (auto simp: arranged_def dest: mset_eq_setD)

lemma proxy_parts:
  assumes "is_buildProxyConfig env cfg r px"
  shows "set (px_ExtraHandlers px) = set (contributed_handlers r)"
    and "set (px_ExtraRoutes px) = set (contributed_routes r)"
    and "px = proxy_config env cfg (px_ExtraRoutes px) (px_ExtraHandlers px)"
  using assms by (auto simp: is_buildProxyConfig_def proxy_config_def dest: arranged_set)

lemma auth_enforced:
  assumes "started env cfg r"
  shows "names (snd (auth_contribution env cfg)) = enforced_by (cf_Auth cfg)"
proof -
  have "came_up (plugin_of env ''auth'' True (error_of (auth_plugin env cfg)) (fst (auth_contribution env cfg)) (snd (auth_contribution env cfg)))"
    by (rule startedD(2) [OF assms]) (simp_all add: builtin_plugins_def Let_def)
  then obtain p where p: "auth_plugin env cfg = Inr p" by (auto simp: error_of_def split: sum.splits)
  have "from_mode (auth_plugin_config cfg)" by (auto simp: from_mode_def auth_plugin_config_def auth_Active_def)
  from names_by_mode [OF p [unfolded auth_plugin_def] this]
  show ?thesis by (simp add: auth_contribution_def p) (simp add: enforced_by_def auth_plugin_config_def)
qed

lemma names_filter: "filter P (names hs) = names (filter (\<lambda>h. P (handler_name (ch_Handler h))) hs)"
  by (induction hs) simp_all

definition auth_modules :: "string list" where
  "auth_modules = [''api_key_auth'', ''jwt_bearer'', ''vibewarden_authentication'', ''vibewarden_identity_headers'']"

definition is_auth :: "CaddyHandler \<Rightarrow> bool" where
  "is_auth h \<longleftrightarrow> handler_name (ch_Handler h) \<in> set auth_modules"

lemma filter_auth_gates:
  "filter is_auth hs =
    filter is_auth (filter is_gate hs)"
  by (induction hs) (auto simp: is_gate_def is_auth_def auth_modules_def)

lemma filter_auth_none:
  "\<forall>n\<in>asks_for hs. n \<notin> set auth_modules \<Longrightarrow> filter is_auth hs = []"
  by (auto simp: filter_empty_conv is_auth_def)

lemma auth_in_gate_chain:
  "filter is_auth (gate_chain env cfg) = snd (auth_contribution env cfg)"
proof -
  have w: "filter is_auth
      (case w of Inr rules \<Rightarrow> webhooksig_handlers c rules | Inl _ \<Rightarrow> []) = []"
    for w :: "string + (WebhookRuleConfig \<times> string) list" and c
  proof (cases w)
    case (Inr rules)
    have "filter is_auth (webhooksig_handlers c rules) = []"
      by (rule filter_auth_none) (simp add: asks_for_plugins auth_modules_def)
    with Inr show ?thesis by simp
  qed simp
  have b: "filter is_auth
      (case b of Some bs \<Rightarrow> bodysize_handlers bs | None \<Rightarrow> []) = []" for b
  proof (cases b)
    case (Some bs)
    have "filter is_auth (bodysize_handlers bs) = []"
      by (rule filter_auth_none) (simp add: asks_for_plugins auth_modules_def)
    with Some show ?thesis by simp
  qed simp
  have u: "filter is_auth (if_up e hs) = []"
    if "\<forall>n\<in>asks_for hs. n \<notin> set auth_modules" for e hs
    using filter_auth_none [OF that] by (simp add: if_up_def)
  have a: "filter is_auth (snd (auth_contribution env cfg)) =
      snd (auth_contribution env cfg)"
    by (rule auth_contribution_cases [of env cfg]) (simp_all add: is_auth_def auth_modules_def)
  show ?thesis
    unfolding gate_chain_def filter_append a w b
    by (simp add: u filter_auth_none [of "maintenance_handlers c" for c] filter_auth_none [of "ratelimit_handlers c" for c]
        asks_for_plugins auth_modules_def)
qed

lemma no_proxy_before_end:
  assumes "started env cfg r" "is_buildProxyConfig env cfg r px"
  shows "''reverse_proxy'' \<notin> handler_name ` set (butlast (buildCatchAllHandlers px))"
proof -
  have "butlast (buildCatchAllHandlers px) = before_plugins px @ map ch_Handler (px_ExtraHandlers px) @ after_plugins px"
    by (simp add: catch_all_parts butlast_append)
  moreover have "asks_for (px_ExtraHandlers px) \<subseteq> plugin_modules"
    using contributed_modules [OF assms(1)] proxy_parts(1) [OF assms(2)] by simp
  ultimately show ?thesis using adapter_names [of px]
    by (auto simp: plugin_modules_def)
qed

lemma auth_names_chain:
  assumes "started env cfg r" "is_buildProxyConfig env cfg r px"
  shows "filter (\<lambda>n. n \<in> set auth_modules) (map handler_name (buildCatchAllHandlers px)) = enforced_by (cf_Auth cfg)"
proof -
  have "filter (\<lambda>n. n \<in> set auth_modules) (map handler_name (before_plugins px)) = []"
    "filter (\<lambda>n. n \<in> set auth_modules) (map handler_name (after_plugins px)) = []"
    using adapter_names [of px] by (auto simp: filter_empty_conv auth_modules_def)
  moreover have "map handler_name (map ch_Handler (px_ExtraHandlers px)) = names (px_ExtraHandlers px)"
    by (simp add: names_def)
  ultimately show ?thesis
    using filter_auth_gates [of "px_ExtraHandlers px"] auth_enforced [OF assms(1)]
    by (simp add: catch_all_parts names_filter gates_in_order [OF assms] auth_in_gate_chain is_auth_def [abs_def, symmetric] del: map_map)
      (simp add: auth_modules_def)
qed


section \<open>Properties\<close>


text \<open>The paths a route matches.\<close>

definition route_paths :: "json \<Rightarrow> string list" where
  "route_paths r =
    (case json_field r ''match'' of
       Some (JArr (m # _)) \<Rightarrow> as_strings (json_field m ''path'')
     | _ \<Rightarrow> [])"


text \<open>A sidecar configured for ZeroSSL never comes up, even with an e-mail address: the plugin, which is
  critical, is built without the address its validation demands.\<close>

theorem zerossl_never_starts:
  assumes "tc_Enabled (cf_TLS cfg)" and "tc_Provider (cf_TLS cfg) = ''zerossl''"
  shows "\<not> started env cfg r \<and> fst (InitAll (RegisterBuiltinPlugins env cfg)) \<noteq> None"
proof
  let ?p = "plugin_of env ''tls'' True (map_option tls_error_text (fst (tp_Init (buildTLSPlugin cfg)))) [] []"
  have bad: "pl_Init ?p \<noteq> None" "pl_Critical ?p"
    using assms by (auto simp: tp_Init_def buildTLSPlugin_def tp_validateTLSConfig_def Let_def split: if_splits)
  have p: "?p \<in> set (builtin_plugins env cfg)" by (simp add: builtin_plugins_def Let_def)
  show "\<not> started env cfg r" using startedD(2) [OF _ p bad(2)] bad(1) by (auto simp: came_up_def)
  obtain e c r' where i: "InitAll (RegisterBuiltinPlugins env cfg) = (e, c, r')" by (metis prod_cases3)
  from init_loop_None [OF this [unfolded InitAll_def]] p bad have "e \<noteq> None" by auto
  with i show "fst (InitAll (RegisterBuiltinPlugins env cfg)) \<noteq> None" by simp
qed

lemma adapter_modules_known:
  "h \<in> set (before_plugins px) \<union> set (after_plugins px) \<Longrightarrow>
   handler_name h \<in> {''headers'', ''encode''} \<or> ''http.handlers.'' @ handler_name h \<in> set sidecar_modules"
  using adapter_names [of px] by (auto simp: sidecar_modules_def CaddyModule_defs)

lemma plugin_modules_known:
  "n \<in> plugin_modules \<Longrightarrow> n \<noteq> ''vibewarden_input_validation'' \<Longrightarrow>
   n \<in> {''headers'', ''subroute''} \<or> ''http.handlers.'' @ n \<in> set sidecar_modules"
  by (auto simp: plugin_modules_def sidecar_modules_def CaddyModule_defs)

lemma input_validation_in_chain:
  assumes "started env cfg r" "is_buildProxyConfig env cfg r px"
  shows "''vibewarden_input_validation'' \<in> asks_for (px_ExtraHandlers px) \<longleftrightarrow>
    ivp_Enabled (cf_InputValidation cfg) \<and> inputvalidation_Init (cf_InputValidation cfg) = None"
proof -
  have "''vibewarden_input_validation'' \<in> asks_for (px_ExtraHandlers px) \<longleftrightarrow>
      ''vibewarden_input_validation'' \<in> asks_for (filter is_gate (px_ExtraHandlers px))"
    by (auto simp: is_gate_def image_iff)
  also have "\<dots> \<longleftrightarrow> ''vibewarden_input_validation'' \<in> asks_for (gate_chain env cfg)"
    by (simp add: gates_in_order [OF assms])
  also have "\<dots> \<longleftrightarrow> ivp_Enabled (cf_InputValidation cfg) \<and> inputvalidation_Init (cf_InputValidation cfg) = None"
  proof -
    have "''vibewarden_input_validation'' \<notin> asks_for (case w of Inr rules \<Rightarrow> webhooksig_handlers c rules | Inl _ \<Rightarrow> [])"
      for w :: "string + (WebhookRuleConfig \<times> string) list" and c
      by (cases w) (simp_all add: asks_for_plugins(4))
    moreover have "''vibewarden_input_validation'' \<notin> asks_for (case b of Some bs \<Rightarrow> bodysize_handlers bs | None \<Rightarrow> [])" for b
      by (cases b) (simp_all add: asks_for_plugins(5))
    moreover have "''vibewarden_input_validation'' \<notin> asks_for (if_up e (ipfilter_handlers c))" for e c
      by (cases e) (simp_all add: if_up_def asks_for_plugins(2))
    moreover have "''vibewarden_input_validation'' \<in> asks_for (if_up e (inputvalidation_handlers c)) \<longleftrightarrow> ivp_Enabled c \<and> e = None" for e c
      by (cases e) (simp_all add: if_up_def asks_for_plugins(3))
    moreover have "''vibewarden_input_validation'' \<notin> asks_for (maintenance_handlers c)" for c by (simp add: asks_for_plugins(1))
    moreover have "''vibewarden_input_validation'' \<notin> asks_for (ratelimit_handlers c)" for c by (simp add: asks_for_plugins(6))
    moreover have "''vibewarden_input_validation'' \<notin> asks_for (snd (auth_contribution env cfg))"
      using asks_for_auth [of env cfg] by auto
    ultimately show ?thesis unfolding gate_chain_def set_append image_Un Un_iff by blast
  qed
  finally show ?thesis .
qed

text \<open>C39: A chain asks only for modules the sidecar or Caddy registers exactly when the limits on request
  inputs are off (or their configuration was refused): their handler module exists nowhere. Otherwise
  Caddy refuses the configuration.\<close>

theorem chain_modules_registered:
  assumes "started env cfg r" and "is_buildProxyConfig env cfg r px"
    and "{''http.handlers.headers'', ''http.handlers.subroute'', ''http.handlers.encode'', ''http.handlers.reverse_proxy''} \<subseteq> caddy"
    and "''http.handlers.vibewarden_input_validation'' \<notin> caddy"
  shows "(\<forall>h\<in>set (buildCatchAllHandlers px). ''http.handlers.'' @ handler_name h \<in> set sidecar_modules \<union> caddy) \<longleftrightarrow>
    \<not> (ivp_Enabled (cf_InputValidation cfg) \<and> inputvalidation_Init (cf_InputValidation cfg) = None)"
proof -
  let ?ok = "\<lambda>n. ''http.handlers.'' @ n \<in> set sidecar_modules \<union> caddy"
  have std: "?ok ''headers''" "?ok ''subroute''" "?ok ''encode''" "?ok ''reverse_proxy''" using assms(3) by auto
  have adapter: "?ok (handler_name h)" if "h \<in> set (before_plugins px) \<union> set (after_plugins px)" for h
    using adapter_modules_known [OF that] std by auto
  have missing: "\<not> ?ok ''vibewarden_input_validation''"
    using assms(4) by (simp add: sidecar_modules_def CaddyModule_defs)
  have known: "?ok n" if "n \<in> asks_for (px_ExtraHandlers px)" "n \<noteq> ''vibewarden_input_validation''" for n
  proof -
    have "n \<in> plugin_modules" using contributed_modules [OF assms(1)] proxy_parts(1) [OF assms(2)] that(1) by auto
    from plugin_modules_known [OF this that(2)] std show ?thesis by blast
  qed
  have "(\<forall>h\<in>set (buildCatchAllHandlers px). ?ok (handler_name h)) \<longleftrightarrow> (\<forall>n\<in>asks_for (px_ExtraHandlers px). ?ok n)"
    using adapter std(4) by (auto simp: catch_all_parts)
  also have "\<dots> \<longleftrightarrow> ''vibewarden_input_validation'' \<notin> asks_for (px_ExtraHandlers px)" using known missing by metis
  finally show ?thesis using input_validation_in_chain [OF assms(1,2)] by simp
qed


section \<open>Instances\<close>

lemma started_exists:
  assumes "\<And>p. p \<in> set (builtin_plugins env cfg) \<Longrightarrow> pl_Critical p \<Longrightarrow> came_up p"
  shows "\<exists>r. started env cfg r"
proof -
  obtain e1 c1 r1 where i: "InitAll (RegisterBuiltinPlugins env cfg) = (e1, c1, r1)" by (metis prod_cases3)
  obtain e2 c2 r where s: "StartAll r1 = (e2, c2, r)" by (metis prod_cases3)
  have "e1 = None \<and> e2 = None"
    using startup_critical [of "RegisterBuiltinPlugins env cfg" e1 c1 r1 e2 c2 r] builtin_names i s assms by simp
  then show ?thesis by (intro exI [of _ r]) (simp add: started_def i s)
qed

lemma is_buildProxyConfig_sorted: "is_buildProxyConfig env cfg r (buildProxyConfig env cfg r)"
  unfolding is_buildProxyConfig_def buildProxyConfig_def arranged_def
  by (intro exI conjI) (rule mset_sort sorted_sort_key refl)+

definition sample_env :: gateway_env where
  "sample_env =
    \<lparr>ge_getenv = (\<lambda>_. []), ge_auth = sample_auth_env, ge_redis_client = None,
     ge_store = \<lparr>se_key = (\<lambda>_. None), se_open_builtin = (\<lambda>_. None), se_authenticate = None, se_health = None\<rparr>,
     ge_cache = [], ge_jwt_adapter = True, ge_other_init = (\<lambda>_. None), ge_start = (\<lambda>_. None), ge_stop = (\<lambda>_. None),
     ge_health = (\<lambda>_. \<lparr>hs_Healthy = True, hs_Message = []\<rparr>), ge_metrics_addr = ''127.0.0.1:9090'',
     ge_admin_addr = ''127.0.0.1:9091''\<rparr>"

definition sample_tls :: "string \<Rightarrow> TLSConfig" where
  "sample_tls provider =
    \<lparr>tc_Enabled = True, tc_Provider = provider, tc_Domain = ''app.example.com'', tc_CertPath = [], tc_KeyPath = [],
     tc_StoragePath = [], tc_Email = ''ops@example.com'', tc_ACMECA = [], tc_MonitorEnabled = False,
     tc_WarningThreshold = 0, tc_CriticalThreshold = 0\<rparr>"

definition sample_app :: "string \<Rightarrow> string \<Rightarrow> AppConfig" where
  "sample_app provider mode =
    \<lparr>cf_Host = ''0.0.0.0'', cf_Port = 8443, cf_UpstreamHost = ''127.0.0.1'', cf_UpstreamPort = 3000,
     cf_Timeouts = \<lparr>ts_Read = [], ts_Write = [], ts_Idle = [], ts_ReadHeader = [], ts_ReadIdle = [], ts_WriteIdle = []\<rparr>,
     cf_MaxConnections = 0, cf_MaxHeaderBytes = 0, cf_TLS = sample_tls provider,
     cf_Maintenance = \<lparr>mn_Enabled = False, mn_Message = []\<rparr>,
     cf_IPFilter = \<lparr>fp_Enabled = True, fp_Mode = ''allowlist'', fp_Addresses = [''10.0.0.0/8''], fp_TrustProxyHeaders = False\<rparr>,
     cf_CORS = sample_cors,
     cf_InputValidation = \<lparr>ivp_Enabled = True, ivp_MaxURLLength = 2048, ivp_MaxQueryStringLength = 2048, ivp_MaxHeaderCount = 100,
       ivp_MaxHeaderSize = 8192, ivp_PathOverrides = []\<rparr>,
     cf_WAF = \<lparr>wp_ContentTypes = False, wp_Allowed = [], wp_Engine = True, wp_Mode = ''block'', wp_SQLInjection = True,
       wp_XSS = True, wp_PathTraversal = True, wp_CommandInjection = True, wp_ExemptPaths = []\<rparr>,
     cf_SecurityHeaders = \<lparr>sh_Enabled = True, sh_HSTSMaxAge = 31536000, sh_HSTSIncludeSubDomains = True, sh_HSTSPreload = False,
       sh_ContentTypeNosniff = True, sh_FrameOption = ''DENY'', sh_ContentSecurityPolicy = [], sh_ReferrerPolicy = [],
       sh_PermissionsPolicy = [], sh_CrossOriginOpenerPolicy = [], sh_CrossOriginResourcePolicy = [],
       sh_PermittedCrossDomainPolicies = [], sh_SuppressViaHeader = True\<rparr>,
     cf_BodySize = \<lparr>bz_Max = ''1MB'', bz_Overrides = []\<rparr>,
     cf_Webhooks = \<lparr>whp_Enabled = False, whp_Paths = []\<rparr>,
     cf_RateLimit = \<lparr>rlp_Enabled = True, rlp_Store = ''memory'', rlp_TrustProxyHeaders = False, rlp_ExemptPaths = [],
       rlp_PerIP = \<lparr>rr_RequestsPerSecond = 10, rr_Burst = 20\<rparr>, rlp_PerUser = \<lparr>rr_RequestsPerSecond = 100, rr_Burst = 200\<rparr>,
       rlp_Redis = \<lparr>rd_KeyPrefix = [], rd_Fallback = True, rd_HealthCheckInterval = None\<rparr>\<rparr>,
     cf_Auth = sample_auth_plugin mode,
     cf_Secrets = \<lparr>sg_Enabled = False, sg_Store = [], sg_Provider = [], sg_BuiltinPath = [], sg_KeyFile = [], sg_Address = [],
       sg_MountPath = [], sg_CacheTTL = [], sg_CheckInterval = [], sg_MaxStaticAge = [], sg_WeakPatterns = [], sg_Headers = [],
       sg_Env = [], sg_EnvFile = [], sg_DynamicEnabled = False, sg_Roles = []\<rparr>,
     cf_AdminEnabled = False, cf_AdminToken = [], cf_TelemetryEnabled = True, cf_Prometheus = True, cf_Compression = True,
     cf_CompressionAlgorithms = [], cf_ResponseHeaders = \<lparr>rh_Set = [], rh_Add = [], rh_Remove = []\<rparr>,
     cf_Resilience = \<lparr>rz_Timeout = ''30s'', rz_BreakerEnabled = True, rz_Threshold = 5, rz_BreakerTimeout = ''60s'',
       rz_RetryEnabled = False, rz_MaxAttempts = 0, rz_InitialBackoff = [], rz_MaxBackoff = [], rz_RetryOn = []\<rparr>\<rparr>"

lemma sample_starts: "\<exists>r. started sample_env (sample_app ''letsencrypt'' ''kratos'') r"
proof (rule started_exists)
  let ?cfg = "sample_app ''letsencrypt'' ''kratos''"
  have t: "fst (tp_Init (buildTLSPlugin ?cfg)) = None" by code_simp
  have a: "error_of (auth_plugin sample_env ?cfg) = None" by code_simp
  have r: "error_of (ratelimit_Init (limiter_source ?cfg) (ge_redis_client sample_env) (cf_RateLimit ?cfg)) = None"
    by (simp add: ratelimit_Init_def limiter_source_def sample_app_def error_of_def)
  fix p assume "p \<in> set (builtin_plugins sample_env ?cfg)" "pl_Critical p"
  then show "came_up p"
    using t a r by (auto simp: builtin_plugins_def Let_def may_fail_start_def split: option.splits)
qed


theorem zerossl_never_starts_witness:
  "fst (InitAll (RegisterBuiltinPlugins sample_env (sample_app ''zerossl'' ''none''))) \<noteq> None \<and>
   tc_Email (cf_TLS (sample_app ''zerossl'' ''none'')) = ''ops@example.com''"
  using zerossl_never_starts [of "sample_app ''zerossl'' ''none''" sample_env]
  by (simp add: sample_app_def sample_tls_def)

theorem chain_modules_registered_witness:
  "\<exists>r px. started sample_env (sample_app ''letsencrypt'' ''kratos'') r \<and>
    is_buildProxyConfig sample_env (sample_app ''letsencrypt'' ''kratos'') r px \<and>
    \<not> (\<forall>h\<in>set (buildCatchAllHandlers px). ''http.handlers.'' @ handler_name h \<in> set sidecar_modules \<union>
        {''http.handlers.headers'', ''http.handlers.subroute'', ''http.handlers.encode'', ''http.handlers.reverse_proxy''})"
proof -
  obtain r where r: "started sample_env (sample_app ''letsencrypt'' ''kratos'') r" using sample_starts by blast
  note b = is_buildProxyConfig_sorted [of sample_env "sample_app ''letsencrypt'' ''kratos''" r]
  have "ivp_Enabled (cf_InputValidation (sample_app ''letsencrypt'' ''kratos'')) \<and>
      inputvalidation_Init (cf_InputValidation (sample_app ''letsencrypt'' ''kratos'')) = None"
    by (simp add: sample_app_def inputvalidation_Init_def)
  with chain_modules_registered [OF r b, of "{''http.handlers.headers'', ''http.handlers.subroute'', ''http.handlers.encode'',
      ''http.handlers.reverse_proxy''}"]
  have "\<not> (\<forall>h\<in>set (buildCatchAllHandlers (buildProxyConfig sample_env (sample_app ''letsencrypt'' ''kratos'') r)).
      ''http.handlers.'' @ handler_name h \<in> set sidecar_modules \<union>
        {''http.handlers.headers'', ''http.handlers.subroute'', ''http.handlers.encode'', ''http.handlers.reverse_proxy''})"
    by auto
  with r b show ?thesis by blast
qed

end
