(* ===== verification/ConfigValidate.thy ===== *)
theory ConfigValidate
  imports Gateway GoRegexp
begin

text \<open>Validation of the loaded configuration (\<^verbatim>\<open>Config.Validate\<close> and the functions it calls in
  \<^verbatim>\<open>internal/config\<close>), and what a validated configuration guarantees of the startup. An error is the field it
  is about and its kind. \<^verbatim>\<open>url.Parse\<close> is a parameter that yields the scheme and the host.\<close>

section \<open>Configuration\<close>

record SocialProvider =
  so_Provider :: string
  so_ClientID :: string
  so_ClientSecret :: string
  so_TeamID :: string
  so_KeyID :: string
  so_ID :: string
  so_IssuerURL :: string

record WebhookEndpoint =
  we_URL :: string
  we_Events :: "string list"
  we_Format :: string
  we_TimeoutSeconds :: int

record UpstreamHealthSettings =
  us_Enabled :: bool
  us_Path :: string
  us_Interval :: string
  us_Timeout :: string
  us_UnhealthyThreshold :: int
  us_HealthyThreshold :: int

record ObservabilitySettings =
  os_Enabled :: bool
  os_GrafanaPort :: int
  os_PrometheusPort :: int
  os_LokiPort :: int
  os_RetentionDays :: int

record DatabaseSettings =
  db_ExternalURL :: string
  db_TLSMode :: string
  db_MaxConns :: int
  db_MinConns :: int
  db_ConnectTimeout :: string

record EgressRouteSettings =
  eg_Name :: string
  eg_Pattern :: string
  eg_Timeout :: string
  eg_Secret :: string
  eg_SecretHeader :: string
  eg_SecretFormat :: string
  eg_Threshold :: int
  eg_ResetAfter :: string
  eg_RetriesMax :: int
  eg_Backoff :: string
  eg_BodySizeLimit :: string
  eg_ResponseSizeLimit :: string
  eg_PromptInjection :: bool
  eg_PromptAction :: string

record EgressSettings =
  es_Enabled :: bool
  es_NetworkIsolation :: "bool option"
  es_DefaultPolicy :: string
  es_DefaultTimeout :: string
  es_DefaultBodySizeLimit :: string
  es_DefaultResponseSizeLimit :: string
  es_AllowedPrivate :: "string list"
  es_Routes :: "EgressRouteSettings list"

record FileConfig =
  fc_App :: AppConfig
  fc_Profile :: string
  fc_SocialProviders :: "SocialProvider list"
  fc_KratosExternal :: bool
  fc_KratosAdminURL :: string
  fc_OnKratosUnavailable :: string
  fc_PrimaryColor :: string
  fc_BackgroundColor :: string
  fc_LogoURL :: string
  fc_FaviconURL :: string
  fc_CustomCSSURL :: string
  fc_MemLimit :: string
  fc_CPULimit :: rat
  fc_PidsLimit :: int
  fc_ErrorPages :: "bool \<times> string"
  fc_WebhookEndpoints :: "WebhookEndpoint list"
  fc_RedisURL :: string
  fc_RedisAddress :: string
  fc_LogsOTLP :: bool
  fc_OTLPEndpoint :: string
  fc_UpstreamHealth :: UpstreamHealthSettings
  fc_Observability :: ObservabilitySettings
  fc_Database :: DatabaseSettings
  fc_Egress :: EgressSettings
  fc_DeployHost :: string

datatype config_error =
    Required string
  | Invalid string string
  | OutOfRange string int
  | OutOfRangeRat string rat
  | BadSize string size_error
  | BadDuration string string
  | BadURL string string
  | Conflict string

text \<open>One check of a function that collects errors.\<close>

definition fail_if :: "bool \<Rightarrow> config_error \<Rightarrow> config_error list" where
  "fail_if b e = (if b then [e] else [])"

fun indexed :: "(nat \<Rightarrow> 'a \<Rightarrow> config_error list) \<Rightarrow> nat \<Rightarrow> 'a list \<Rightarrow> config_error list" where
  "indexed f i [] = []"
| "indexed f i (x # xs) = f i x @ indexed f (Suc i) xs"

definition nth_field :: "string \<Rightarrow> nat \<Rightarrow> string \<Rightarrow> string" where
  "nth_field base i field = base @ ''['' @ Itoa i @ '']'' @ field"

section \<open>TLS\<close>

definition validateTLS :: "FileConfig \<Rightarrow> config_error list" where
  "validateTLS c =
    (let t = cf_TLS (fc_App c) in
     fail_if (tc_Provider t \<notin> {[], ''self-signed'', ''letsencrypt'', ''acme'', ''external'', ''zerossl'', ''buypass'', ''letsencrypt-staging''})
       (Invalid ''tls.provider'' (tc_Provider t)) @
     fail_if (tc_Enabled t \<and> tc_Provider t \<in> {''letsencrypt'', ''acme'', ''zerossl'', ''buypass'', ''letsencrypt-staging''} \<and> tc_Domain t = [])
       (Required ''tls.domain'') @
     fail_if (tc_Enabled t \<and> tc_Provider t = ''zerossl'' \<and> tc_Email t = []) (Required ''tls.email'') @
     (if tc_Enabled t \<and> tc_Provider t = ''external'' then
        fail_if (tc_CertPath t = []) (Required ''tls.cert_path'') @ fail_if (tc_KeyPath t = []) (Required ''tls.key_path'')
      else []))"

section \<open>Authentication\<close>

definition SupportedSocialProviders :: "string list" where
  "SupportedSocialProviders =
    [''google'', ''github'', ''apple'', ''facebook'', ''microsoft'', ''gitlab'', ''discord'', ''slack'', ''spotify'', ''oidc'']"

definition is_hex :: "char \<Rightarrow> bool" where
  "is_hex c \<longleftrightarrow> is_digit c \<or> 65 \<le> byte_of c \<and> byte_of c \<le> 70 \<or> 97 \<le> byte_of c \<and> byte_of c \<le> 102"

definition hexColorRE :: "string \<Rightarrow> bool" where
  "hexColorRE s \<longleftrightarrow> s \<noteq> [] \<and> hd s = CHR ''#'' \<and> list_all is_hex (tl s) \<and> (length (tl s) = 3 \<or> length (tl s) = 6)"

definition isBrowserAssetURL :: "(string \<Rightarrow> (string \<times> string) option) \<Rightarrow> string \<Rightarrow> bool" where
  "isBrowserAssetURL parse v =
    (if v = [] then True
     else if prefix ''//'' v then False
     else if prefix ''/'' v then CHR 0x0D \<notin> set v \<and> CHR 0x0A \<notin> set v
     else case parse v of
       None \<Rightarrow> False
     | Some (scheme, host) \<Rightarrow> (scheme = ''http'' \<or> scheme = ''https'') \<and> host \<noteq> [])"

definition social_errors :: "nat \<Rightarrow> SocialProvider \<Rightarrow> config_error list" where
  "social_errors i sp =
    (let f = nth_field ''social_providers'' i in
     fail_if (so_Provider sp \<notin> set SupportedSocialProviders) (Invalid (f ''.provider'') (so_Provider sp)) @
     fail_if (so_ClientID sp = []) (Required (f ''.client_id'')) @
     fail_if (so_ClientSecret sp = []) (Required (f ''.client_secret'')) @
     (if so_Provider sp = ''apple'' then
        fail_if (so_TeamID sp = []) (Required (f ''.team_id'')) @ fail_if (so_KeyID sp = []) (Required (f ''.key_id''))
      else []) @
     (if so_Provider sp = ''oidc'' then
        fail_if (so_ID sp = []) (Required (f ''.id'')) @ fail_if (so_IssuerURL sp = []) (Required (f ''.issuer_url''))
      else []))"

definition jwt_errors :: "FileConfig \<Rightarrow> config_error list" where
  "jwt_errors c =
    (let jwt = ap_JWT (cf_Auth (fc_App c)); dev = (jw_JWKSURL jwt = [] \<and> jw_IssuerURL jwt = []) in
     fail_if (dev \<and> fc_Profile c = ''prod'') (Required ''auth.jwt.jwks_url'') @
     (if \<not> dev then
        fail_if (jw_Issuer jwt = []) (Required ''auth.jwt.issuer'') @ fail_if (jw_Audience jwt = []) (Required ''auth.jwt.audience'')
      else []))"

definition role_path_errors :: "string \<times> string list \<Rightarrow> config_error list" where
  "role_path_errors rp =
    (case NewRole (fst rp) of Inr _ \<Rightarrow> [] | Inl _ \<Rightarrow> [Invalid ''auth.role_paths'' (fst rp)]) @
    fail_if (snd rp = []) (Required (''auth.role_paths.'' @ fst rp))"

definition validateAuth :: "(string \<Rightarrow> (string \<times> string) option) \<Rightarrow> FileConfig \<Rightarrow> config_error list" where
  "validateAuth parse c =
    (let a = cf_Auth (fc_App c) in
     indexed social_errors 0 (fc_SocialProviders c) @
     fail_if (ap_Mode a \<notin> {[], ''kratos'', ''jwt'', ''api-key'', ''none''}) (Invalid ''auth.mode'' (ap_Mode a)) @
     (if ap_Mode a = ''jwt'' then jwt_errors c else []) @
     (if ap_Mode a = ''kratos'' \<and> fc_KratosExternal c then
        fail_if (ap_KratosPublicURL a = []) (Required ''kratos.public_url'') @
        fail_if (fc_KratosAdminURL c = []) (Required ''kratos.admin_url'')
      else []) @
     fail_if (fc_OnKratosUnavailable c \<notin> {[], ''503'', ''allow_public''})
       (Invalid ''auth.on_kratos_unavailable'' (fc_OnKratosUnavailable c)) @
     fail_if (ap_RolePaths a \<noteq> [] \<and> ap_Mode a \<noteq> ''kratos'') (Conflict ''auth.role_paths'') @
     concat (map role_path_errors (ap_RolePaths a)) @
     fail_if (ap_UIMode a \<notin> {[], ''built-in'', ''custom''}) (Invalid ''auth.ui.mode'' (ap_UIMode a)) @
     fail_if (fc_PrimaryColor c \<noteq> [] \<and> \<not> hexColorRE (fc_PrimaryColor c)) (Invalid ''auth.ui.primary_color'' (fc_PrimaryColor c)) @
     fail_if (fc_BackgroundColor c \<noteq> [] \<and> \<not> hexColorRE (fc_BackgroundColor c)) (Invalid ''auth.ui.background_color'' (fc_BackgroundColor c)) @
     fail_if (ap_UIMode a = ''custom'' \<and> ap_UILoginURL a = []) (Required ''auth.ui.login_url'') @
     concat (map (\<lambda>(key, v). fail_if (\<not> isBrowserAssetURL parse v) (BadURL key v))
       [(''auth.ui.logo_url'', fc_LogoURL c), (''auth.ui.favicon_url'', fc_FaviconURL c), (''auth.ui.custom_css_url'', fc_CustomCSSURL c)]))"

section \<open>Sidecar\<close>

definition size_errors :: "string \<Rightarrow> string \<Rightarrow> config_error list" where
  "size_errors field v =
    (if v = [] then [] else case ParseBodySize v of Inl e \<Rightarrow> [BadSize field e] | Inr _ \<Rightarrow> [])"

definition duration_errors :: "string \<Rightarrow> string \<Rightarrow> config_error list" where
  "duration_errors field v = fail_if (v \<noteq> [] \<and> ParseDuration v = None) (BadDuration field v)"

definition normalizeMemUnit :: "string \<Rightarrow> string" where
  "normalizeMemUnit s =
    (let t = TrimSpace s in
     if length t < 2 then t
     else if last t \<notin> set ''kKmMgGtT'' then t
     else if \<not> is_digit (t ! (length t - 2)) then t
     else t @ ''B'')"

definition ParseMemLimit :: "string \<Rightarrow> size_error + int" where
  "ParseMemLimit s = ParseBodySize (normalizeMemUnit s)"

definition override_errors :: "nat \<Rightarrow> string \<times> string \<Rightarrow> config_error list" where
  "override_errors i ov =
    fail_if (fst ov = []) (Required (nth_field ''body_size.overrides'' i ''.path'')) @
    size_errors (nth_field ''body_size.overrides'' i ''.max'') (snd ov)"

definition validateSidecar :: "FileConfig \<Rightarrow> config_error list" where
  "validateSidecar c =
    (let a = fc_App c in
     size_errors ''body_size.max'' (bz_Max (cf_BodySize a)) @
     fail_if (fp_Enabled (cf_IPFilter a) \<and> fp_Mode (cf_IPFilter a) \<notin> {[], ''allowlist'', ''blocklist''})
       (Invalid ''ip_filter.mode'' (fp_Mode (cf_IPFilter a))) @
     indexed override_errors 0 (bz_Overrides (cf_BodySize a)) @
     fail_if (cf_MaxConnections a < 0) (OutOfRange ''server.max_connections'' (cf_MaxConnections a)) @
     fail_if (cf_MaxHeaderBytes a < 0) (OutOfRange ''server.max_header_bytes'' (cf_MaxHeaderBytes a)) @
     (if fc_MemLimit c = [] then []
      else case ParseMemLimit (fc_MemLimit c) of Inl e \<Rightarrow> [BadSize ''server.mem_limit'' e] | Inr _ \<Rightarrow> []) @
     fail_if (fc_CPULimit c < 0) (OutOfRangeRat ''server.cpu_limit'' (fc_CPULimit c)) @
     fail_if (fc_PidsLimit c < 0) (OutOfRange ''server.pids_limit'' (fc_PidsLimit c)) @
     fail_if (fst (fc_ErrorPages c) \<and> snd (fc_ErrorPages c) = []) (Required ''error_pages.directory''))"

section \<open>Webhooks, rate limits, telemetry, upstream, CORS\<close>

definition endpoint_errors :: "nat \<Rightarrow> WebhookEndpoint \<Rightarrow> config_error list" where
  "endpoint_errors i ep =
    (let f = nth_field ''webhooks.endpoints'' i in
     fail_if (we_URL ep = []) (Required (f ''.url'')) @
     fail_if (we_Events ep = []) (Required (f ''.events'')) @
     fail_if (we_Format ep \<notin> {[], ''raw'', ''slack'', ''discord''}) (Invalid (f ''.format'') (we_Format ep)) @
     fail_if (we_TimeoutSeconds ep < 0) (OutOfRange (f ''.timeout_seconds'') (we_TimeoutSeconds ep)))"

definition signature_errors :: "nat \<Rightarrow> WebhookRuleConfig \<Rightarrow> config_error list" where
  "signature_errors i p =
    (let f = nth_field ''webhooks.signature_verification.paths'' i in
     fail_if (whr_Path p = []) (Required (f ''.path'')) @
     fail_if (whr_Provider p \<notin> {''stripe'', ''github'', ''slack'', ''twilio'', ''generic''}) (Invalid (f ''.provider'') (whr_Provider p)) @
     fail_if (whr_SecretEnvVar p = []) (Required (f ''.secret_env_var'')) @
     fail_if (whr_Provider p = ''generic'' \<and> whr_Header p = []) (Required (f ''.header'')))"

definition validateWebhooks :: "FileConfig \<Rightarrow> config_error list" where
  "validateWebhooks c =
    indexed endpoint_errors 0 (fc_WebhookEndpoints c) @
    (if whp_Enabled (cf_Webhooks (fc_App c)) then indexed signature_errors 0 (whp_Paths (cf_Webhooks (fc_App c))) else [])"

definition url_error :: "(string \<Rightarrow> (string \<times> string) option) \<Rightarrow> string list \<Rightarrow> string \<Rightarrow> bool" where
  "url_error parse schemes s =
    (case parse s of None \<Rightarrow> True | Some (scheme, host) \<Rightarrow> scheme \<notin> set schemes \<or> host = [])"

definition validateRedisURL :: "(string \<Rightarrow> (string \<times> string) option) \<Rightarrow> string \<Rightarrow> bool" where
  "validateRedisURL parse s = url_error parse [''redis'', ''rediss''] s"

definition validatePostgresURL :: "(string \<Rightarrow> (string \<times> string) option) \<Rightarrow> string \<Rightarrow> bool" where
  "validatePostgresURL parse s = url_error parse [''postgres'', ''postgresql''] s"

definition validateRateLimit :: "(string \<Rightarrow> (string \<times> string) option) \<Rightarrow> FileConfig \<Rightarrow> config_error list" where
  "validateRateLimit parse c =
    (let store = rlp_Store (cf_RateLimit (fc_App c)) in
     if store = [] \<or> store = ''memory'' then []
     else if store = ''redis'' then
       fail_if (fc_RedisURL c = [] \<and> fc_RedisAddress c = []) (Required ''rate_limit.redis.address'') @
       fail_if (fc_RedisURL c \<noteq> [] \<and> validateRedisURL parse (fc_RedisURL c)) (BadURL ''rate_limit.redis.url'' (fc_RedisURL c))
     else [Invalid ''rate_limit.store'' store])"

definition validateTelemetry :: "FileConfig \<Rightarrow> config_error list" where
  "validateTelemetry c = fail_if (fc_LogsOTLP c \<and> fc_OTLPEndpoint c = []) (Required ''telemetry.otlp.endpoint'')"

definition validateUpstream :: "FileConfig \<Rightarrow> config_error list" where
  "validateUpstream c =
    (let u = fc_UpstreamHealth c in
     if us_Enabled u then
       fail_if (us_Path u = []) (Required ''upstream.health.path'') @
       duration_errors ''upstream.health.interval'' (us_Interval u) @
       duration_errors ''upstream.health.timeout'' (us_Timeout u) @
       fail_if (us_UnhealthyThreshold u \<le> 0) (OutOfRange ''upstream.health.unhealthy_threshold'' (us_UnhealthyThreshold u)) @
       fail_if (us_HealthyThreshold u \<le> 0) (OutOfRange ''upstream.health.healthy_threshold'' (us_HealthyThreshold u))
     else [])"

definition validateCORS :: "FileConfig \<Rightarrow> config_error list" where
  "validateCORS c =
    (let k = cf_CORS (fc_App c) in
     fail_if (co_Enabled k \<and> co_AllowCredentials k \<and> list_ex (\<lambda>orig. orig = ''*'') (co_AllowedOrigins k)) (Conflict ''cors.allow_credentials''))"

definition port_error :: "string \<Rightarrow> int \<Rightarrow> config_error list" where
  "port_error field p = fail_if (p \<le> 0 \<or> 65535 < p) (OutOfRange field p)"

definition validateObservability :: "FileConfig \<Rightarrow> config_error list" where
  "validateObservability c =
    (let ob = fc_Observability c in
     if os_Enabled ob then
       port_error ''observability.grafana_port'' (os_GrafanaPort ob) @
       port_error ''observability.prometheus_port'' (os_PrometheusPort ob) @
       port_error ''observability.loki_port'' (os_LokiPort ob) @
       fail_if (os_RetentionDays ob \<le> 0) (OutOfRange ''observability.retention_days'' (os_RetentionDays ob))
     else [])"

definition validateDatabase :: "(string \<Rightarrow> (string \<times> string) option) \<Rightarrow> FileConfig \<Rightarrow> config_error list" where
  "validateDatabase parse c =
    (let d = fc_Database c in
     fail_if (db_ExternalURL d \<noteq> [] \<and> validatePostgresURL parse (db_ExternalURL d)) (BadURL ''database.external_url'' (db_ExternalURL d)) @
     fail_if (db_TLSMode d \<notin> {[], ''disable'', ''require'', ''verify-ca'', ''verify-full''}) (Invalid ''database.tls_mode'' (db_TLSMode d)) @
     fail_if (db_MaxConns d < 0) (OutOfRange ''database.pool.max_conns'' (db_MaxConns d)) @
     fail_if (db_MinConns d < 0) (OutOfRange ''database.pool.min_conns'' (db_MinConns d)) @
     fail_if (0 < db_MaxConns d \<and> db_MaxConns d < db_MinConns d) (Conflict ''database.pool.min_conns'') @
     duration_errors ''database.connect_timeout'' (db_ConnectTimeout d))"

section \<open>Egress\<close>

definition IsNetworkIsolationEnabled :: "EgressSettings \<Rightarrow> bool" where
  "IsNetworkIsolationEnabled e =
    (if \<not> es_Enabled e then False else case es_NetworkIsolation e of Some b \<Rightarrow> b | None \<Rightarrow> True)"

definition EgressWarnings :: "EgressSettings \<Rightarrow> string list" where
  "EgressWarnings e =
    (if es_Enabled e \<and> \<not> IsNetworkIsolationEnabled e
     then [''Network isolation disabled: app can bypass egress proxy via direct connections''] else []) @
    (if \<not> es_Enabled e \<and> es_NetworkIsolation e = Some True
     then [''Network isolation has no effect without egress proxy enabled''] else [])"

definition breaker_errors :: "nat \<Rightarrow> EgressRouteSettings \<Rightarrow> config_error list" where
  "breaker_errors i r =
    (let f = nth_field ''egress.routes'' i in
     if eg_Threshold r \<noteq> 0 \<or> eg_ResetAfter r \<noteq> [] then
       fail_if (eg_Threshold r \<le> 0) (OutOfRange (f ''.circuit_breaker.threshold'') (eg_Threshold r)) @
       (if eg_ResetAfter r = [] then [Required (f ''.circuit_breaker.reset_after'')]
        else duration_errors (f ''.circuit_breaker.reset_after'') (eg_ResetAfter r))
     else [])"

definition route_errors :: "string list \<Rightarrow> nat \<Rightarrow> EgressRouteSettings \<Rightarrow> config_error list" where
  "route_errors seen i r =
    (let f = nth_field ''egress.routes'' i in
     (if eg_Name r = [] then [Required (f ''.name'')]
      else if eg_Name r \<in> set seen then [Invalid (f ''.name'') (eg_Name r)] else []) @
     (if eg_Pattern r = [] then [Required (f ''.pattern'')]
      else fail_if (\<not> prefix ''http://'' (eg_Pattern r) \<and> \<not> prefix ''https://'' (eg_Pattern r)) (Invalid (f ''.pattern'') (eg_Pattern r))) @
     duration_errors (f ''.timeout'') (eg_Timeout r) @
     breaker_errors i r @
     fail_if (eg_RetriesMax r < 0) (OutOfRange (f ''.retries.max'') (eg_RetriesMax r)) @
     fail_if (eg_Backoff r \<notin> {[], ''exponential'', ''fixed''}) (Invalid (f ''.retries.backoff'') (eg_Backoff r)) @
     size_errors (f ''.body_size_limit'') (eg_BodySizeLimit r) @
     size_errors (f ''.response_size_limit'') (eg_ResponseSizeLimit r) @
     (if eg_SecretFormat r \<noteq> [] \<or> eg_SecretHeader r \<noteq> [] then
        fail_if (eg_Secret r = []) (Required (f ''.secret'')) @ fail_if (eg_SecretHeader r = []) (Required (f ''.secret_header''))
      else []) @
     fail_if (eg_PromptInjection r \<and> eg_PromptAction r \<notin> {[], ''block'', ''detect''})
       (Invalid (f ''.prompt_injection.action'') (eg_PromptAction r)))"

text \<open>\<open>seen\<close> are the names of the routes before, without the empty one.\<close>

fun routes_errors :: "string list \<Rightarrow> nat \<Rightarrow> EgressRouteSettings list \<Rightarrow> config_error list" where
  "routes_errors seen i [] = []"
| "routes_errors seen i (r # rs) =
    route_errors seen i r @ routes_errors (if eg_Name r = [] then seen else eg_Name r # seen) (Suc i) rs"

definition private_errors :: "nat \<Rightarrow> string \<Rightarrow> config_error list" where
  "private_errors i cidr = fail_if (ParseCIDR cidr = None) (Invalid (nth_field ''egress.dns.allowed_private'' i []) cidr)"

definition validateEgressConfig :: "EgressSettings \<Rightarrow> config_error list" where
  "validateEgressConfig cfg =
    indexed private_errors 0 (es_AllowedPrivate cfg) @
    fail_if (es_DefaultPolicy cfg \<notin> {[], ''deny'', ''allow''}) (Invalid ''egress.default_policy'' (es_DefaultPolicy cfg)) @
    duration_errors ''egress.default_timeout'' (es_DefaultTimeout cfg) @
    size_errors ''egress.default_body_size_limit'' (es_DefaultBodySizeLimit cfg) @
    size_errors ''egress.default_response_size_limit'' (es_DefaultResponseSizeLimit cfg) @
    routes_errors [] 0 (es_Routes cfg)"

section \<open>Deployment host\<close>

definition ascii_alnum :: "char \<Rightarrow> bool" where
  "ascii_alnum c \<longleftrightarrow> is_digit c \<or> 65 \<le> byte_of c \<and> byte_of c \<le> 90 \<or> 97 \<le> byte_of c \<and> byte_of c \<le> 122"

text \<open>A label \<^verbatim>\<open>[a-zA-Z0-9]([a-zA-Z0-9\-]*[a-zA-Z0-9])?\<close>, and up to \<open>n\<close> digits.\<close>

definition label_re :: re where
  "label_re = Seq (Cls ascii_alnum) (Alt (Seq (Rep (Cls (\<lambda>c. ascii_alnum c \<or> c = CHR ''-''))) (Cls ascii_alnum)) Eps)"

fun digits_re :: "nat \<Rightarrow> re" where
  "digits_re 0 = Eps"
| "digits_re (Suc 0) = Cls is_digit"
| "digits_re (Suc n) = Seq (Cls is_digit) (Alt (digits_re n) Eps)"

definition dot_re :: re where
  "dot_re = Cls (\<lambda>c. c = CHR ''.'')"

definition deployHostRe :: re where
  "deployHostRe =
    seqs
      [Alt (Seq (Plus (Cls (\<lambda>c. ascii_alnum c \<or> c \<in> set ''._-''))) (Cls (\<lambda>c. c = CHR ''@''))) Eps,
       Alt (Seq label_re (Rep (Seq dot_re label_re)))
         (seqs [digits_re 3, dot_re, digits_re 3, dot_re, digits_re 3, dot_re, digits_re 3]),
       Alt (Seq (Cls (\<lambda>c. c = CHR '':'')) (digits_re 5)) Eps,
       EndText]"

datatype host_error = HostWhitespace | HostInvalid

definition ValidateDeployHost :: "string \<Rightarrow> host_error option" where
  "ValidateDeployHost host =
    (if host = [] then None
     else if list_ex (\<lambda>c. c \<in> set [CHR '' '', CHR 0x09, CHR 0x0A, CHR 0x0D]) host then Some HostWhitespace
     else if re_match deployHostRe (None, host) = [] then Some HostInvalid
     else None)"

definition validateDeploy :: "FileConfig \<Rightarrow> config_error list" where
  "validateDeploy c = (case ValidateDeployHost (fc_DeployHost c) of Some _ \<Rightarrow> [Invalid ''deploy.host'' (fc_DeployHost c)] | None \<Rightarrow> [])"

definition ShellQuoteSingleDeploy :: "string \<Rightarrow> string" where
  "ShellQuoteSingleDeploy host = [CHR 0x27] @ ReplaceAll host [CHR 0x27] [CHR 0x27, CHR 0x5C, CHR 0x27, CHR 0x27] @ [CHR 0x27]"

section \<open>The whole configuration\<close>

definition Validate :: "(string \<Rightarrow> (string \<times> string) option) \<Rightarrow> FileConfig \<Rightarrow> config_error list" where
  "Validate parse c =
    fail_if (fc_Profile c \<notin> {[], ''dev'', ''tls'', ''prod''}) (Invalid ''profile'' (fc_Profile c)) @
    validateTLS c @ validateAuth parse c @ validateSidecar c @ validateWebhooks c @ validateRateLimit parse c @
    validateTelemetry c @ validateUpstream c @ validateCORS c @ validateObservability c @ validateDatabase parse c @
    (if es_Enabled (fc_Egress c) then validateEgressConfig (fc_Egress c) else []) @ validateDeploy c"

text \<open>The defaults \<^verbatim>\<open>loadInternal\<close> applies before validation.\<close>

definition conditional_defaults :: "FileConfig \<Rightarrow> FileConfig" where
  "conditional_defaults c =
    (let t = cf_TLS (fc_App c);
         t1 = (if tc_Provider t = ''acme'' then t\<lparr>tc_Provider := ''letsencrypt''\<rparr> else t);
         t2 = (if tc_Provider t1 = ''letsencrypt'' \<and> tc_StoragePath t1 = []
               then t1\<lparr>tc_StoragePath := ''/root/.local/share/caddy''\<rparr> else t1) in
     c\<lparr>fc_App := (fc_App c)\<lparr>cf_TLS := t2\<rparr>\<rparr>)"

definition load_file :: "(string \<Rightarrow> (string \<times> string) option) \<Rightarrow> bool \<Rightarrow> FileConfig \<Rightarrow> config_error list + FileConfig" where
  "load_file parse validate c0 =
    (let c = conditional_defaults c0 in
     if validate \<and> Validate parse c \<noteq> [] then Inl (Validate parse c) else Inr c)"

end
