(* ===== verification/Spec2Isabelle.thy ===== *)
theory Spec2Isabelle
  imports CircuitBreaker Lockout EgressHttp SsrfGuard AdminAuth ApiKey ConfigSecrets RedisBucket Health
    Proposals RingBuffer Waf KratosAuth CaddyTls PluginRegistry CaddyPlugins AuthPlugin ConfigValues SecretsPlugin Gateway ConfigValidate
begin

text \<open>Verification of the security sidecar, work in progress.\<close>

end
